(* ===== verification/Prelude.thy ===== *)
theory Prelude
  imports Main "HOL-Library.Word"
begin

text \<open>
  Shared material of the development: Go's fixed-width integers, the outcome of a call to an
  external service, tables as lists of rows with the two SQL statement shapes the stores use
  (\<open>UPDATE \<dots> WHERE\<close> and \<open>SELECT \<dots> WHERE\<close>), and the interfaces that several operations share:
  the compare-and-swap update of one row, its one-shot variant, its fenced variant, and the
  invariant rule of a step relation.
\<close>

section \<open>Collections of facts\<close>

named_theorems sql \<open>rewriting SQL statements on tables\<close>
named_theorems store_defs \<open>definitions of the store operations\<close>
named_theorems row_defs \<open>WHERE and SET clauses\<close>

section \<open>Go integers\<close>

text \<open>
  Go's signed integers wrap around. A value of type \<open>int32\<close> is kept as the mathematical
  integer it denotes; an arithmetic operation of the source goes through \<open>to_int32\<close>.
\<close>

definition max_int32 :: int where
  "max_int32 = 2147483647"

definition max_int64 :: int where
  "max_int64 = 9223372036854775807"

definition to_int32 :: "int \<Rightarrow> int" where
  "to_int32 x = (x + 2147483648) mod 4294967296 - 2147483648"

lemma to_int32_id [simp]: "- 2147483648 \<le> x \<Longrightarrow> x \<le> max_int32 \<Longrightarrow> to_int32 x = x"
  by (simp add: to_int32_def max_int32_def)

lemma to_int32_range: "- 2147483648 \<le> to_int32 x \<and> to_int32 x \<le> max_int32"
  by (simp add: to_int32_def max_int32_def)

text \<open>
  Instants and durations are in nanoseconds, as in Go's \<open>time\<close> package; \<open>unix\<close> is \<open>Time.Unix\<close>.
\<close>

definition second :: int where
  "second = 1000000000"

definition unix :: "int \<Rightarrow> int" where
  "unix t = t div second"

section \<open>Calls to external services\<close>

text \<open>
  A statement sent to the database either succeeds, or fails before it took effect, or takes
  effect while its acknowledgement is lost, so that the caller sees an error. Which of the three
  happens is a parameter of every operation.
\<close>

datatype fault = NoFault | NotApplied | AckLost

datatype pg_error =
    Unavailable          \<comment> \<open>transport, timeout, cancelled context, unparsable parameter\<close>
  | CheckViolation
  | UniqueViolation
  | ForeignKeyViolation
  | NumericOutOfRange
  | InvalidEnum
  | ScanError
  | NoRows
  | ErrJobNotFound
  | ErrJobAssignRaceLost

section \<open>Tables\<close>

definition sql_update :: "('r \<Rightarrow> bool) \<Rightarrow> ('r \<Rightarrow> 'r) \<Rightarrow> 'r list \<Rightarrow> 'r list" where
  "sql_update P f t = map (\<lambda>r. if P r then f r else r) t"

definition rows_affected :: "('r \<Rightarrow> bool) \<Rightarrow> 'r list \<Rightarrow> nat" where
  "rows_affected P t = length (filter P t)"

lemma sql_update_Nil [simp]: "sql_update P f [] = []"
  by (simp add: sql_update_def)

lemma sql_update_Cons [simp]:
  "sql_update P f (r # t) = (if P r then f r else r) # sql_update P f t"
  by (simp add: sql_update_def)

lemma rows_affected_Nil [simp]: "rows_affected P [] = 0"
  by (simp add: rows_affected_def)

lemma rows_affected_Cons [simp]:
  "rows_affected P (r # t) = (if P r then Suc (rows_affected P t) else rows_affected P t)"
  by (simp add: rows_affected_def)

lemma length_sql_update [simp]: "length (sql_update P f t) = length t"
  by (simp add: sql_update_def)

lemma set_sql_update: "set (sql_update P f t) = {if P r then f r else r | r. r \<in> set t}"
  by (auto simp: sql_update_def)

lemma in_sql_update [sql]:
  "r' \<in> set (sql_update P f t) \<longleftrightarrow> (\<exists>r\<in>set t. r' = (if P r then f r else r))"
  by (auto simp: sql_update_def)

lemma sql_update_hit: "r \<in> set t \<Longrightarrow> P r \<Longrightarrow> f r \<in> set (sql_update P f t)"
  by (auto simp: in_sql_update)

lemma map_sql_update: "(\<And>r. P r \<Longrightarrow> k (f r) = k r) \<Longrightarrow> map k (sql_update P f t) = map k t"
  by (simp add: sql_update_def)

lemma sql_update_id: "(\<And>r. r \<in> set t \<Longrightarrow> \<not> P r) \<Longrightarrow> sql_update P f t = t"
  unfolding sql_update_def by (rule map_idI) simp

lemma rows_affected_0: "rows_affected P t = 0 \<longleftrightarrow> (\<forall>r\<in>set t. \<not> P r)"
  by (auto simp: rows_affected_def filter_empty_conv)

lemma sql_update_none: "rows_affected P t = 0 \<Longrightarrow> sql_update P f t = t"
  by (auto simp: rows_affected_0 intro: sql_update_id)

lemma rows_affected_pos: "rows_affected P t \<noteq> 0 \<longleftrightarrow> (\<exists>r\<in>set t. P r)"
  by (simp add: rows_affected_0)

lemma distinct_key_eq:
  "distinct (map k t) \<Longrightarrow> r \<in> set t \<Longrightarrow> r' \<in> set t \<Longrightarrow> k r = k r' \<Longrightarrow> r = r'"
  by (auto simp: distinct_map inj_on_def)

lemma rows_affected_key_le_1:
  assumes "distinct (map k t)" and "\<And>r. P r \<Longrightarrow> k r = x"
  shows "rows_affected P t \<le> 1"
  using assms(1)
proof (induction t)
  case Nil
  show ?case by simp
next
  case (Cons r t)
  show ?case
  proof (cases "P r")
    case True
    then have "k r = x" by (rule assms(2))
    with Cons.prems have "x \<notin> k ` set t" by simp
    then have "\<forall>r'\<in>set t. k r' \<noteq> x" by blast
    then have "rows_affected P t = 0" using assms(2) by (auto simp: rows_affected_0)
    with True show ?thesis by simp
  qed (use Cons in simp)
qed

lemma rows_affected_1_iff:
  assumes "distinct (map k t)" and "\<And>r. P r \<Longrightarrow> k r = x"
  shows "rows_affected P t = 1 \<longleftrightarrow> (\<exists>r\<in>set t. P r)"
proof -
  have "rows_affected P t \<le> 1"
    using assms(1) by (rule rows_affected_key_le_1) (rule assms(2))
  then show ?thesis using rows_affected_pos [of P t] by linarith
qed

text \<open>Reading the first row of a query result.\<close>

definition sql_first :: "('r \<Rightarrow> bool) \<Rightarrow> 'r list \<Rightarrow> 'r option" where
  "sql_first P t = find P t"

lemma sql_first_Nil [simp]: "sql_first P [] = None"
  by (simp add: sql_first_def)

lemma sql_first_Cons [simp]: "sql_first P (r # t) = (if P r then Some r else sql_first P t)"
  by (simp add: sql_first_def)

lemma sql_first_SomeD: "sql_first P t = Some r \<Longrightarrow> r \<in> set t \<and> P r"
  by (auto simp: sql_first_def find_Some_iff)

lemma sql_first_None: "sql_first P t = None \<longleftrightarrow> (\<forall>r\<in>set t. \<not> P r)"
  by (auto simp: sql_first_def find_None_iff)

lemma sql_first_key:
  assumes "distinct (map k t)" and "r \<in> set t"
  shows "sql_first (\<lambda>r'. k r' = k r) t = Some r"
  using assms by (induction t) force+

lemma sql_first_key_iff:
  assumes "distinct (map k t)"
  shows "sql_first (\<lambda>r'. k r' = x) t = Some r \<longleftrightarrow> r \<in> set t \<and> k r = x"
  using sql_first_SomeD [of "\<lambda>r'. k r' = x" t r] sql_first_key [OF assms, of r] by auto

lemma sql_first_update:
  assumes "\<And>r. P r \<Longrightarrow> Q (f r) = Q r"
  shows "sql_first Q (sql_update P f t) = map_option (\<lambda>r. if P r then f r else r) (sql_first Q t)"
  using assms by (induction t) auto

section \<open>Interfaces\<close>

text \<open>
  The update the stores are built from: the \<open>WHERE\<close> clause names one row by its key, the
  \<open>SET\<close> clause leaves the key alone. \<open>where_of a\<close> and \<open>set_of a\<close> are the clauses of one
  statement for the arguments \<open>a\<close>, \<open>target a\<close> the key it names.
\<close>

locale row_cas =
  fixes key :: "'r \<Rightarrow> 'k"
    and target :: "'a \<Rightarrow> 'k"
    and where_of :: "'a \<Rightarrow> 'r \<Rightarrow> bool"
    and set_of :: "'a \<Rightarrow> 'r \<Rightarrow> 'r"
  assumes where_key: "where_of a r \<Longrightarrow> key r = target a"
    and set_key: "key (set_of a r) = key r"
begin

lemma keys_kept: "map key (sql_update (where_of a) (set_of a) t) = map key t"
  by (rule map_sql_update) (simp add: set_key)

lemma keys_image: "key ` set (sql_update (where_of a) (set_of a) t) = key ` set t"
  using arg_cong [OF keys_kept [of a t], of set] by (simp only: list.set_map)

lemma affected_le_1: "distinct (map key t) \<Longrightarrow> rows_affected (where_of a) t \<le> 1"
  by (erule rows_affected_key_le_1) (rule where_key)

lemma affected_1_iff:
  "distinct (map key t) \<Longrightarrow> rows_affected (where_of a) t = 1 \<longleftrightarrow> (\<exists>r\<in>set t. where_of a r)"
  by (erule rows_affected_1_iff) (rule where_key)

lemma other_rows_kept:
  "key r \<noteq> target a \<Longrightarrow> r \<in> set (sql_update (where_of a) (set_of a) t) \<longleftrightarrow> r \<in> set t"
  by (auto simp: in_sql_update set_key dest: where_key)

lemma read_back:
  "sql_first (\<lambda>r. key r = x) (sql_update (where_of a) (set_of a) t)
     = map_option (\<lambda>r. if where_of a r then set_of a r else r) (sql_first (\<lambda>r. key r = x) t)"
  by (rule sql_first_update) (simp add: set_key)

lemma update_one:
  assumes "distinct (map key t)" and "r \<in> set t" and "where_of a r"
  shows "sql_update (where_of a) (set_of a) t = map (\<lambda>x. if x = r then set_of a r else x) t"
proof -
  have "where_of a x \<longleftrightarrow> x = r" if "x \<in> set t" for x
    using distinct_key_eq [OF assms(1) that assms(2)] where_key assms(3) by metis
  then show ?thesis unfolding sql_update_def by (intro map_cong) auto
qed

lemma row_hit:
  "distinct (map key t) \<Longrightarrow> r \<in> set t \<Longrightarrow> where_of a r \<Longrightarrow>
     sql_first (\<lambda>r. key r = target a) (sql_update (where_of a) (set_of a) t) = Some (set_of a r)"
  using where_key [of a r] sql_first_key [of key t r] by (simp add: read_back)

end

text \<open>
  A compare-and-swap that uses up its own guard can succeed once: repeated with the same
  arguments it changes nothing.
\<close>

locale one_shot_cas = row_cas +
  assumes guard_spent: "where_of a r \<Longrightarrow> \<not> where_of a (set_of a r)"
begin

lemma spent: "rows_affected (where_of a) (sql_update (where_of a) (set_of a) t) = 0"
  using guard_spent by (auto simp: rows_affected_0 in_sql_update) (metis guard_spent)

lemma second_is_noop:
  "sql_update (where_of a) (set_of a) (sql_update (where_of a) (set_of a) t)
     = sql_update (where_of a) (set_of a) t"
  by (rule sql_update_none) (rule spent)

end

text \<open>
  A fenced update also names the value a fencing column must have: a caller whose token is no
  longer the row's fence changes nothing.
\<close>

locale fenced_cas = row_cas +
  fixes fence :: "'r \<Rightarrow> 'e"
    and token :: "'a \<Rightarrow> 'e"
  assumes where_fence: "where_of a r \<Longrightarrow> fence r = token a"
begin

lemma stale_none:
  assumes "\<And>r. r \<in> set t \<Longrightarrow> key r = target a \<Longrightarrow> fence r \<noteq> token a"
  shows "rows_affected (where_of a) t = 0"
  unfolding rows_affected_0 using assms where_key where_fence by blast

lemma stale_is_noop:
  assumes "\<And>r. r \<in> set t \<Longrightarrow> key r = target a \<Longrightarrow> fence r \<noteq> token a"
  shows "sql_update (where_of a) (set_of a) t = t"
  by (rule sql_update_none) (rule stale_none, fact assms)

end

text \<open>
  The invariant rule of a step relation with labelled steps: what holds initially and is kept by
  every step holds in every reachable state.
\<close>

inductive run :: "('s \<Rightarrow> 'e \<Rightarrow> 's \<Rightarrow> bool) \<Rightarrow> 's \<Rightarrow> 'e list \<Rightarrow> 's \<Rightarrow> bool" for step where
  run_nil: "run step s [] s"
| run_cons: "step s e s1 \<Longrightarrow> run step s1 es s2 \<Longrightarrow> run step s (e # es) s2"

inductive_cases run_NilE [elim!]: "run step s [] s'"
inductive_cases run_ConsE: "run step s (e # es) s'"

locale step_invariant =
  fixes start :: "'s \<Rightarrow> bool"
    and step :: "'s \<Rightarrow> 'e \<Rightarrow> 's \<Rightarrow> bool"
    and invar :: "'s \<Rightarrow> bool"
  assumes invar_start: "start s \<Longrightarrow> invar s"
    and invar_step: "invar s \<Longrightarrow> step s e s' \<Longrightarrow> invar s'"
begin

lemma invar_run: "run step s es s' \<Longrightarrow> invar s \<Longrightarrow> invar s'"
  by (induction rule: run.induct) (auto intro: invar_step)

lemma reachable_invar: "start s \<Longrightarrow> run step s es s' \<Longrightarrow> invar s'"
  by (blast intro: invar_run invar_start)

end

text \<open>
  Refinement of an abstract system by a concrete one: every concrete step from a state that satisfies the invariant is, seen
  through the abstraction, a step of the abstract system with the corresponding label. Then so is every run.
\<close>

locale refinement = step_invariant start cstep invar
  for start :: "'s \<Rightarrow> bool" and cstep :: "'s \<Rightarrow> 'e \<Rightarrow> 's \<Rightarrow> bool" and invar :: "'s \<Rightarrow> bool" +
  fixes astep :: "'a \<Rightarrow> 'f \<Rightarrow> 'a \<Rightarrow> bool"
    and abs_state :: "'s \<Rightarrow> 'a"
    and abs_label :: "'e \<Rightarrow> 'f"
  assumes simulates: "invar s \<Longrightarrow> cstep s e s' \<Longrightarrow> astep (abs_state s) (abs_label e) (abs_state s')"
begin

lemma run_simulates: "run cstep s es s' \<Longrightarrow> invar s \<Longrightarrow> run astep (abs_state s) (map abs_label es) (abs_state s')"
proof (induction rule: run.induct)
  case (run_cons s e s1 es s2)
  have "invar s1" using invar_step [OF run_cons.prems run_cons.hyps(1)] .
  then have "run astep (abs_state s1) (map abs_label es) (abs_state s2)" by (rule run_cons.IH)
  with simulates [OF run_cons.prems run_cons.hyps(1)] show ?case by (auto intro: run.run_cons)
qed (simp add: run_nil)

lemma reachable_refines:
  "start s \<Longrightarrow> run cstep s es s' \<Longrightarrow> run astep (abs_state s) (map abs_label es) (abs_state s')"
  by (blast intro: run_simulates invar_start)

end

end
