(* ===== verification/Schema.thy ===== *)
theory Schema
  imports Prelude
begin

text \<open>
  The PostgreSQL schema of \<open>internal/store/postgres/migrations\<close>: the two enum types, one record
  per table, the database as a record of tables, the transaction brackets the stores use
  (\<open>pgx.BeginFunc\<close> and single auto-committed statements), and the well-formedness invariant of
  the database. A table is the list of its rows in storage order; every theorem quantifies over
  the tables, so over every storage order. Instants are integers (nanoseconds).
\<close>

section \<open>Enum types (migration 000001)\<close>

datatype worker_status = REGISTERING | READY | BUSY | DRAINING | OFFLINE | DEAD

datatype job_status = QUEUED | ASSIGNED | RUNNING | SUCCESS | FAILED | RETRYING | CANCELLED

fun worker_status_str :: "worker_status \<Rightarrow> string" where
  "worker_status_str REGISTERING = ''REGISTERING''"
| "worker_status_str READY = ''READY''"
| "worker_status_str BUSY = ''BUSY''"
| "worker_status_str DRAINING = ''DRAINING''"
| "worker_status_str OFFLINE = ''OFFLINE''"
| "worker_status_str DEAD = ''DEAD''"

fun job_status_str :: "job_status \<Rightarrow> string" where
  "job_status_str QUEUED = ''QUEUED''"
| "job_status_str ASSIGNED = ''ASSIGNED''"
| "job_status_str RUNNING = ''RUNNING''"
| "job_status_str SUCCESS = ''SUCCESS''"
| "job_status_str FAILED = ''FAILED''"
| "job_status_str RETRYING = ''RETRYING''"
| "job_status_str CANCELLED = ''CANCELLED''"

text \<open>The casts \<open>::worker_status\<close> and \<open>::job_status\<close> of a text parameter.\<close>

definition all_worker_statuses :: "worker_status list" where
  "all_worker_statuses = [REGISTERING, READY, BUSY, DRAINING, OFFLINE, DEAD]"

definition all_job_statuses :: "job_status list" where
  "all_job_statuses = [QUEUED, ASSIGNED, RUNNING, SUCCESS, FAILED, RETRYING, CANCELLED]"

text \<open>Both are enumerations, so that a statement about every status is decided by evaluation.\<close>

instantiation worker_status :: enum
begin

definition enum_worker_status :: "worker_status list" where
  "enum_worker_status = all_worker_statuses"

definition enum_all_worker_status :: "(worker_status \<Rightarrow> bool) \<Rightarrow> bool" where
  "enum_all_worker_status P \<longleftrightarrow> list_all P all_worker_statuses"

definition enum_ex_worker_status :: "(worker_status \<Rightarrow> bool) \<Rightarrow> bool" where
  "enum_ex_worker_status P \<longleftrightarrow> list_ex P all_worker_statuses"

instance
proof
  show U: "(UNIV :: worker_status set) = set enum_class.enum"
    unfolding enum_worker_status_def all_worker_statuses_def by (auto intro: worker_status.exhaust)
  show "distinct (enum_class.enum :: worker_status list)"
    by (simp add: enum_worker_status_def all_worker_statuses_def)
  show "enum_class.enum_all P \<longleftrightarrow> Ball UNIV P" "enum_class.enum_ex P \<longleftrightarrow> Bex UNIV P" for P :: "worker_status \<Rightarrow> bool"
    unfolding U enum_worker_status_def enum_all_worker_status_def enum_ex_worker_status_def list_all_iff list_ex_iff by (rule refl)+
qed

end

instantiation job_status :: enum
begin

definition enum_job_status :: "job_status list" where
  "enum_job_status = all_job_statuses"

definition enum_all_job_status :: "(job_status \<Rightarrow> bool) \<Rightarrow> bool" where
  "enum_all_job_status P \<longleftrightarrow> list_all P all_job_statuses"

definition enum_ex_job_status :: "(job_status \<Rightarrow> bool) \<Rightarrow> bool" where
  "enum_ex_job_status P \<longleftrightarrow> list_ex P all_job_statuses"

instance
proof
  show U: "(UNIV :: job_status set) = set enum_class.enum"
    unfolding enum_job_status_def all_job_statuses_def by (auto intro: job_status.exhaust)
  show "distinct (enum_class.enum :: job_status list)"
    by (simp add: enum_job_status_def all_job_statuses_def)
  show "enum_class.enum_all P \<longleftrightarrow> Ball UNIV P" "enum_class.enum_ex P \<longleftrightarrow> Bex UNIV P" for P :: "job_status \<Rightarrow> bool"
    unfolding U enum_job_status_def enum_all_job_status_def enum_ex_job_status_def list_all_iff list_ex_iff by (rule refl)+
qed

end

lemma all_statuses [simp]: "set all_worker_statuses = UNIV" "set all_job_statuses = UNIV"
  using UNIV_enum [where 'a = worker_status] UNIV_enum [where 'a = job_status]
  by (simp_all add: enum_worker_status_def enum_job_status_def)

definition to_worker_status :: "string \<Rightarrow> worker_status option" where
  "to_worker_status s = find (\<lambda>st. worker_status_str st = s) all_worker_statuses"

definition to_job_status :: "string \<Rightarrow> job_status option" where
  "to_job_status s = find (\<lambda>st. job_status_str st = s) all_job_statuses"

lemma to_worker_status_str [simp]: "to_worker_status (worker_status_str st) = Some st"
  by (cases st) (simp_all add: to_worker_status_def all_worker_statuses_def)

lemma to_job_status_str [simp]: "to_job_status (job_status_str st) = Some st"
  by (cases st) (simp_all add: to_job_status_def all_job_statuses_def)

lemma worker_status_str_inj [simp]: "worker_status_str a = worker_status_str b \<longleftrightarrow> a = b"
  by (metis option.inject to_worker_status_str)

lemma job_status_str_inj [simp]: "job_status_str a = job_status_str b \<longleftrightarrow> a = b"
  by (metis option.inject to_job_status_str)

lemma worker_status_str_eq [simp]:
  "worker_status_str st = ''READY'' \<longleftrightarrow> st = READY"
  "worker_status_str st = ''BUSY'' \<longleftrightarrow> st = BUSY"
  "worker_status_str st = ''DRAINING'' \<longleftrightarrow> st = DRAINING"
  "worker_status_str st = ''OFFLINE'' \<longleftrightarrow> st = OFFLINE"
  "worker_status_str st = ''DEAD'' \<longleftrightarrow> st = DEAD"
  by (cases st; simp)+

lemma job_status_str_eq [simp]:
  "job_status_str st = ''QUEUED'' \<longleftrightarrow> st = QUEUED"
  "job_status_str st = ''ASSIGNED'' \<longleftrightarrow> st = ASSIGNED"
  by (cases st; simp)+

section \<open>Tables (migrations 000002 to 000006)\<close>

type_synonym labels = "(string \<times> string) list"

record worker_row =
  w_id :: string
  w_hostname :: string
  w_instance_id :: string
  w_os :: string
  w_cpu_cores :: int
  w_memory_mb :: int
  w_labels :: labels
  w_capabilities :: "string list"
  w_status :: worker_status
  w_current_job_id :: "string option"
  w_current_job_created_at :: "int option"
  w_last_heartbeat :: "int option"
  w_version :: string
  w_capacity_slots :: int
  w_available_capacity :: int
  w_epoch :: int
  w_registered_at :: int
  w_updated_at :: int
  w_drain_requested :: bool

record job_row =
  j_id :: string
  j_priority :: int
  j_repository :: string
  j_branch :: string
  j_commit_sha :: string
  j_labels :: labels
  j_required_capabilities :: "string list"
  j_retries :: int
  j_max_retries :: int
  j_status :: job_status
  j_worker_id :: "string option"
  j_assignment_epoch :: "int option"
  j_idempotency_key :: "string option"
  j_retry_at :: "int option"
  j_log_ref :: "string option"
  j_created_at :: int
  j_started_at :: "int option"
  j_finished_at :: "int option"

record retry_row =
  r_job_id :: string
  r_job_created_at :: int
  r_attempt_number :: int
  r_status :: job_status
  r_worker_id :: "string option"
  r_error_message :: "string option"
  r_started_at :: int
  r_finished_at :: "int option"

datatype payload = PInt int | PText string

record worker_event =
  e_worker_id :: string
  e_event_type :: string
  e_payload :: "(string \<times> payload) list"
  e_created_at :: int

record db =
  workers :: "worker_row list"
  jobs :: "job_row list"
  job_retry_history :: "retry_row list"
  worker_events :: "worker_event list"

definition empty_db :: db where
  "empty_db = \<lparr>workers = [], jobs = [], job_retry_history = [], worker_events = []\<rparr>"

text \<open>The trigger \<open>trg_workers_updated_at\<close> of every \<open>UPDATE workers\<close>.\<close>

definition set_updated_at :: "int \<Rightarrow> worker_row \<Rightarrow> worker_row" where
  "set_updated_at now w = w\<lparr>w_updated_at := now\<rparr>"

section \<open>Statements and transactions\<close>

text \<open>One name per SQL statement of the stores; a parameter says which of them fail.\<close>

datatype stmt =
    S_begin | S_commit
  | S_register_upsert | S_register_event | S_register_promote
  | S_count_by_status | S_pick_drain | S_list_workers | S_get_epoch
  | S_heartbeat_job | S_heartbeat_update | S_list_stale
  | S_dead_mark | S_dead_jobs | S_dead_requeue string | S_dead_count string
  | S_dead_history string | S_dead_event
  | S_candidates | S_assign_worker | S_assign_job | S_free
  | S_drain | S_drain_event | S_resume | S_resume_event
  | S_create_lookup | S_create_insert | S_get_job | S_count_queued | S_list_jobs
  | S_mark_running | S_complete
  | S_retry_lookup | S_retry_count | S_retry_mark | S_retry_fail | S_retry_history
  | S_list_due | S_mark_queued

type_synonym faults = "stmt \<Rightarrow> fault"

definition no_faults :: faults where
  "no_faults s = NoFault"

type_synonym 'a tx = "db \<Rightarrow> pg_error + 'a \<times> db"

definition tx_return :: "'a \<Rightarrow> 'a tx" where
  "tx_return a d = Inr (a, d)"

definition tx_bind :: "'a tx \<Rightarrow> ('a \<Rightarrow> 'b tx) \<Rightarrow> 'b tx" where
  "tx_bind m f d = (case m d of Inl e \<Rightarrow> Inl e | Inr (a, d') \<Rightarrow> f a d')"

text \<open>A statement inside a transaction: a failure makes the surrounding body return an error.\<close>

definition in_tx :: "faults \<Rightarrow> stmt \<Rightarrow> 'a tx \<Rightarrow> 'a tx" where
  "in_tx flt s m d = (if flt s = NoFault then m d else Inl Unavailable)"

text \<open>A read-only query.\<close>

definition query :: "faults \<Rightarrow> stmt \<Rightarrow> (db \<Rightarrow> pg_error + 'a) \<Rightarrow> db \<Rightarrow> pg_error + 'a" where
  "query flt s q d = (if flt s = NoFault then q d else Inl Unavailable)"

text \<open>A single statement outside a transaction commits on its own.\<close>

definition exec :: "faults \<Rightarrow> stmt \<Rightarrow> 'a tx \<Rightarrow> db \<Rightarrow> (pg_error + 'a) \<times> db" where
  "exec flt s m d =
     (case flt s of
        NotApplied \<Rightarrow> (Inl Unavailable, d)
      | NoFault \<Rightarrow> (case m d of Inl e \<Rightarrow> (Inl e, d) | Inr (a, d') \<Rightarrow> (Inr a, d'))
      | AckLost \<Rightarrow> (case m d of Inl e \<Rightarrow> (Inl Unavailable, d) | Inr (a, d') \<Rightarrow> (Inl Unavailable, d')))"

text \<open>\<open>pgx.BeginFunc\<close>: commit when the body returns nil, roll back when it returns an error.\<close>

definition BeginFunc :: "faults \<Rightarrow> 'a tx \<Rightarrow> db \<Rightarrow> (pg_error + 'a) \<times> db" where
  "BeginFunc flt m d =
     (if flt S_begin \<noteq> NoFault then (Inl Unavailable, d)
      else case m d of
        Inl e \<Rightarrow> (Inl e, d)
      | Inr (a, d') \<Rightarrow>
          (case flt S_commit of
             NoFault \<Rightarrow> (Inr a, d')
           | NotApplied \<Rightarrow> (Inl Unavailable, d)
           | AckLost \<Rightarrow> (Inl Unavailable, d')))"

lemma no_faults_tx [simp]:
  "in_tx no_faults s m d = m d"
  "query no_faults s q d = q d"
  "exec no_faults s m d = (case m d of Inl e \<Rightarrow> (Inl e, d) | Inr (a, d') \<Rightarrow> (Inr a, d'))"
  "BeginFunc no_faults m d = (case m d of Inl e \<Rightarrow> (Inl e, d) | Inr (a, d') \<Rightarrow> (Inr a, d'))"
  by (simp_all add: in_tx_def query_def exec_def BeginFunc_def no_faults_def cong: sum.case_cong)

lemmas tx_defs = tx_return_def tx_bind_def in_tx_def

lemma exec_cases:
  obtains e where "exec flt s m d = (Inl e, d)"
  | a d' where "m d = Inr (a, d')" "exec flt s m d = (Inr a, d')"
  | a d' where "m d = Inr (a, d')" "exec flt s m d = (Inl Unavailable, d')"
  by (cases "flt s"; cases "m d") (auto simp: exec_def)

lemma BeginFunc_cases:
  obtains e where "BeginFunc flt m d = (Inl e, d)"
  | a d' where "m d = Inr (a, d')" "BeginFunc flt m d = (Inr a, d')"
  | a d' where "m d = Inr (a, d')" "BeginFunc flt m d = (Inl Unavailable, d')"
  by (cases "flt S_begin = NoFault"; cases "m d"; cases "flt S_commit")
     (auto simp: BeginFunc_def)

text \<open>What the body establishes of every result holds after the bracket, if it held before.\<close>

lemma exec_invariant:
  assumes "P d" and "\<And>a d'. m d = Inr (a, d') \<Longrightarrow> P d'"
  shows "P (snd (exec flt s m d))"
  by (rule exec_cases [of flt s m d]) (use assms in auto)

lemma BeginFunc_invariant:
  assumes "P d" and "\<And>a d'. m d = Inr (a, d') \<Longrightarrow> P d'"
  shows "P (snd (BeginFunc flt m d))"
  by (rule BeginFunc_cases [of flt m d]) (use assms in auto)

lemma exec_ok: "fst (exec flt s m d) = Inr a \<longleftrightarrow> flt s = NoFault \<and> (\<exists>d'. m d = Inr (a, d'))"
  by (cases "flt s") (auto simp: exec_def split: sum.splits)

lemma BeginFunc_ok:
  "fst (BeginFunc flt m d) = Inr a \<longleftrightarrow>
     flt S_begin = NoFault \<and> flt S_commit = NoFault \<and> (\<exists>d'. m d = Inr (a, d'))"
  by (cases "flt S_commit") (auto simp: BeginFunc_def split: sum.splits)

lemma exec_snd_ok: "fst (exec flt s m d) = Inr a \<Longrightarrow> m d = Inr (a, snd (exec flt s m d))"
  by (cases "flt s") (auto simp: exec_def split: sum.splits)

lemma BeginFunc_snd_ok:
  "fst (BeginFunc flt m d) = Inr a \<Longrightarrow> m d = Inr (a, snd (BeginFunc flt m d))"
  by (cases "flt S_commit") (auto simp: BeginFunc_def split: sum.splits if_splits)

lemma tx_bind_Inr:
  "tx_bind m f d = Inr (b, d2) \<longleftrightarrow> (\<exists>a d1. m d = Inr (a, d1) \<and> f a d1 = Inr (b, d2))"
  by (auto simp: tx_bind_def split: sum.splits)

lemma in_tx_Inr: "in_tx flt s m d = Inr r \<longleftrightarrow> flt s = NoFault \<and> m d = Inr r"
  by (simp add: in_tx_def)

lemma tx_return_Inr [simp]: "tx_return a d = Inr (b, d') \<longleftrightarrow> b = a \<and> d' = d"
  by (auto simp: tx_return_def)

section \<open>The invariant of the database\<close>

definition active :: "job_row \<Rightarrow> bool" where
  "active j \<longleftrightarrow> j_status j \<in> {ASSIGNED, RUNNING}"

definition terminal :: "job_row \<Rightarrow> bool" where
  "terminal j \<longleftrightarrow> j_status j \<in> {SUCCESS, FAILED, CANCELLED}"

definition worker_ok :: "worker_row \<Rightarrow> bool" where
  "worker_ok w \<longleftrightarrow>
     0 < w_cpu_cores w \<and> 0 < w_memory_mb w \<and> 0 < w_capacity_slots w \<and>
     0 \<le> w_available_capacity w \<and> w_available_capacity w \<le> w_capacity_slots w \<and>
     1 \<le> w_epoch w \<and> w_epoch w \<le> max_int64"

definition job_ok :: "job_row \<Rightarrow> bool" where
  "job_ok j \<longleftrightarrow>
     0 \<le> j_priority j \<and> j_priority j \<le> 9 \<and>
     0 \<le> j_retries j \<and> j_retries j \<le> j_max_retries j \<and>
     0 < j_max_retries j \<and> j_max_retries j < max_int32 \<and>
     (active j \<longrightarrow> j_worker_id j \<noteq> None \<and> j_assignment_epoch j \<noteq> None) \<and>
     (j_status j \<in> {QUEUED, RETRYING} \<longrightarrow> j_worker_id j = None \<and> j_assignment_epoch j = None) \<and>
     (j_retry_at j \<noteq> None \<longleftrightarrow> j_status j = RETRYING) \<and>
     (j_finished_at j \<noteq> None \<longleftrightarrow> terminal j) \<and>
     (j_status j = RUNNING \<longrightarrow> j_started_at j \<noteq> None) \<and>
     (j_status j \<in> {QUEUED, ASSIGNED, RETRYING} \<longrightarrow> j_started_at j = None)"

text \<open>
  An active job belongs to a registered worker, under an epoch that worker has already had; a
  dead worker owns no active job; the attempts recorded for a job are numbered 1, 2, 3, \<open>\<dots>\<close>
\<close>

definition owner_ok :: "worker_row list \<Rightarrow> job_row \<Rightarrow> bool" where
  "owner_ok ws j \<longleftrightarrow>
     (active j \<longrightarrow> (\<exists>w\<in>set ws. j_worker_id j = Some (w_id w) \<and> w_status w \<noteq> DEAD \<and>
                     (\<exists>e. j_assignment_epoch j = Some e \<and> 1 \<le> e \<and> e \<le> w_epoch w)))"

definition attempts :: "string \<Rightarrow> retry_row list \<Rightarrow> int list" where
  "attempts jid h = map r_attempt_number (filter (\<lambda>r. r_job_id r = jid) h)"

definition history_ok :: "retry_row list \<Rightarrow> bool" where
  "history_ok h \<longleftrightarrow> (\<forall>jid. attempts jid h = map int [1..<Suc (length (attempts jid h))])"

definition db_inv :: "db \<Rightarrow> bool" where
  "db_inv d \<longleftrightarrow>
     distinct (map w_id (workers d)) \<and> distinct (map w_instance_id (workers d)) \<and>
     distinct (map j_id (jobs d)) \<and>
     (\<forall>w\<in>set (workers d). worker_ok w) \<and>
     (\<forall>j\<in>set (jobs d). job_ok j \<and> owner_ok (workers d) j) \<and>
     history_ok (job_retry_history d)"

lemma db_inv_empty: "db_inv empty_db"
  by (simp add: db_inv_def empty_db_def history_ok_def attempts_def)

lemma db_invI:
  assumes "distinct (map w_id (workers d))" "distinct (map w_instance_id (workers d))"
    "distinct (map j_id (jobs d))" "\<And>w. w \<in> set (workers d) \<Longrightarrow> worker_ok w"
    "\<And>j. j \<in> set (jobs d) \<Longrightarrow> job_ok j" "\<And>j. j \<in> set (jobs d) \<Longrightarrow> owner_ok (workers d) j"
    "history_ok (job_retry_history d)"
  shows "db_inv d"
  using assms by (simp add: db_inv_def)

lemma db_invD:
  assumes "db_inv d"
  shows "distinct (map w_id (workers d))" "distinct (map w_instance_id (workers d))"
    "distinct (map j_id (jobs d))" "w \<in> set (workers d) \<Longrightarrow> worker_ok w"
    "j \<in> set (jobs d) \<Longrightarrow> job_ok j" "j \<in> set (jobs d) \<Longrightarrow> owner_ok (workers d) j"
    "history_ok (job_retry_history d)"
  using assms by (auto simp: db_inv_def)

lemma history_ok_snoc:
  assumes "history_ok h" and "r_attempt_number r = int (length (attempts (r_job_id r) h)) + 1"
  shows "history_ok (h @ [r])"
proof -
  have "attempts jid (h @ [r]) = map int [1..<Suc (length (attempts jid (h @ [r])))]" for jid
  proof (cases "r_job_id r = jid")
    case True
    then have "attempts jid (h @ [r]) = attempts jid h @ [int (length (attempts jid h)) + 1]"
      using assms(2) by (simp add: attempts_def)
    moreover have "attempts jid h = map int [1..<Suc (length (attempts jid h))]"
      using assms(1) by (simp add: history_ok_def del: upt_Suc)
    ultimately show ?thesis by (metis length_append_singleton list.simps(8,9) map_append
        of_nat_Suc add.commute upt_Suc_append le_add1 plus_1_eq_Suc)
  next
    case False
    then have "attempts jid (h @ [r]) = attempts jid h" by (simp add: attempts_def)
    with assms(1) show ?thesis by (simp add: history_ok_def del: upt_Suc)
  qed
  then show ?thesis by (simp add: history_ok_def del: upt_Suc)
qed

lemma history_ok_fresh:
  assumes "history_ok h" and "r \<in> set h" and "r_job_id r = jid"
  shows "r_attempt_number r \<noteq> int (length (attempts jid h)) + 1"
proof -
  have "r_attempt_number r \<in> set (attempts jid h)"
    using assms(2,3) by (auto simp: attempts_def)
  also have "set (attempts jid h) = int ` {1..<Suc (length (attempts jid h))}"
    using assms(1) by (metis history_ok_def list.set_map set_upt)
  finally show ?thesis by auto
qed

section \<open>Statements both stores use\<close>

text \<open>\<open>SELECT COUNT(*) + 1 FROM job_retry_history WHERE job_id = $1\<close>\<close>

definition next_attempt :: "string \<Rightarrow> int tx" where
  "next_attempt jid d =
     Inr (int (rows_affected (\<lambda>r. r_job_id r = jid) (job_retry_history d)) + 1, d)"

text \<open>
  \<open>INSERT INTO job_retry_history\<close>, with the constraints \<open>uq_retry_attempt\<close> and
  \<open>fk_retry_job\<close> and the reference to \<open>workers\<close> of migration 000004.
\<close>

definition insert_retry_history :: "retry_row \<Rightarrow> unit tx" where
  "insert_retry_history r d =
     (if list_ex (\<lambda>h. r_job_id h = r_job_id r \<and> r_attempt_number h = r_attempt_number r)
           (job_retry_history d) then Inl UniqueViolation
      else if \<not> list_ex (\<lambda>j. j_id j = r_job_id r \<and> j_created_at j = r_job_created_at r) (jobs d)
        then Inl ForeignKeyViolation
      else if \<not> (case r_worker_id r of None \<Rightarrow> True
                   | Some wid \<Rightarrow> list_ex (\<lambda>w. w_id w = wid) (workers d)) then Inl ForeignKeyViolation
      else Inr ((), d\<lparr>job_retry_history := job_retry_history d @ [r]\<rparr>))"

definition insert_worker_event :: "worker_event \<Rightarrow> unit tx" where
  "insert_worker_event e d = Inr ((), d\<lparr>worker_events := worker_events d @ [e]\<rparr>)"

lemma rows_affected_attempts:
  "rows_affected (\<lambda>r. r_job_id r = jid) h = length (attempts jid h)"
  by (simp add: rows_affected_def attempts_def)

text \<open>
  Under the invariant the number read by \<open>COUNT(*) + 1\<close> is not taken, so recording an attempt of
  an existing job violates no constraint, and the numbering stays contiguous.
\<close>

lemma record_attempt:
  assumes "history_ok (job_retry_history d)"
    and "r_attempt_number r = int (rows_affected (\<lambda>h. r_job_id h = r_job_id r) (job_retry_history d)) + 1"
    and "j \<in> set (jobs d)" "j_id j = r_job_id r" "j_created_at j = r_job_created_at r"
    and "\<And>wid. r_worker_id r = Some wid \<Longrightarrow> wid \<in> w_id ` set (workers d)"
  shows "insert_retry_history r d =
           Inr ((), d\<lparr>job_retry_history := job_retry_history d @ [r]\<rparr>)"
    and "history_ok (job_retry_history d @ [r])"
proof -
  have n: "r_attempt_number r = int (length (attempts (r_job_id r) (job_retry_history d))) + 1"
    using assms(2) by (simp add: rows_affected_attempts)
  show "insert_retry_history r d =
          Inr ((), d\<lparr>job_retry_history := job_retry_history d @ [r]\<rparr>)"
    using history_ok_fresh [OF assms(1)] assms(3-6) n
    by (auto simp: insert_retry_history_def list_ex_iff split: option.splits)
  show "history_ok (job_retry_history d @ [r])"
    using assms(1) n by (rule history_ok_snoc)
qed

end
