(* ===== verification/WorkerStore.thy ===== *)
theory WorkerStore
  imports Schema
begin

text \<open>
  \<open>internal/store/postgres/workers.go\<close>: every method of \<open>WorkerStore\<close>. Each SQL statement is
  a pair of a \<open>_where\<close> and a \<open>_set\<close> clause over its arguments; the compare-and-swap interfaces of
  the prelude are interpreted on them. A method takes the faults of its statements and the
  database's \<open>now()\<close>.
\<close>

section \<open>Register\<close>

record RegisterWorkerParams =
  rp_Hostname :: string
  rp_InstanceID :: string
  rp_OS :: string
  rp_CPUCores :: int
  rp_MemoryMB :: int
  rp_Labels :: "labels option"           \<comment> \<open>\<open>None\<close> is the nil map\<close>
  rp_Capabilities :: "string list option"
  rp_Version :: string
  rp_CapacitySlots :: int

record RegisteredWorker =
  rw_ID :: string
  rw_Epoch :: int

definition Register_defaults :: "RegisterWorkerParams \<Rightarrow> RegisterWorkerParams" where
  "Register_defaults p =
     p\<lparr>rp_CapacitySlots := (if rp_CapacitySlots p \<le> 0 then 1 else rp_CapacitySlots p),
       rp_Labels := (case rp_Labels p of None \<Rightarrow> Some [] | Some m \<Rightarrow> Some m),
       rp_Capabilities := (case rp_Capabilities p of None \<Rightarrow> Some [] | Some c \<Rightarrow> Some c)\<rparr>"

definition Register_insert_row :: "int \<Rightarrow> string \<Rightarrow> RegisterWorkerParams \<Rightarrow> worker_row" where
  "Register_insert_row now uuid p =
     \<lparr>w_id = uuid, w_hostname = rp_Hostname p, w_instance_id = rp_InstanceID p, w_os = rp_OS p,
      w_cpu_cores = rp_CPUCores p, w_memory_mb = rp_MemoryMB p,
      w_labels = (case rp_Labels p of None \<Rightarrow> [] | Some m \<Rightarrow> m),
      w_capabilities = (case rp_Capabilities p of None \<Rightarrow> [] | Some c \<Rightarrow> c),
      w_status = REGISTERING, w_current_job_id = None, w_current_job_created_at = None,
      w_last_heartbeat = None, w_version = rp_Version p,
      w_capacity_slots = rp_CapacitySlots p, w_available_capacity = rp_CapacitySlots p,
      w_epoch = 1, w_registered_at = now, w_updated_at = now, w_drain_requested = False\<rparr>"

fun Register_conflict_where :: "RegisterWorkerParams \<times> int \<Rightarrow> worker_row \<Rightarrow> bool" where
  "Register_conflict_where (p, now) w \<longleftrightarrow> w_instance_id w = rp_InstanceID p"

fun Register_conflict_set :: "RegisterWorkerParams \<times> int \<Rightarrow> worker_row \<Rightarrow> worker_row" where
  "Register_conflict_set (p, now) w =
     set_updated_at now
       (w\<lparr>w_hostname := rp_Hostname p, w_os := rp_OS p, w_cpu_cores := rp_CPUCores p,
          w_memory_mb := rp_MemoryMB p,
          w_labels := (case rp_Labels p of None \<Rightarrow> [] | Some m \<Rightarrow> m),
          w_capabilities := (case rp_Capabilities p of None \<Rightarrow> [] | Some c \<Rightarrow> c),
          w_status := REGISTERING, w_version := rp_Version p,
          w_capacity_slots := rp_CapacitySlots p, w_available_capacity := rp_CapacitySlots p,
          w_current_job_id := None, w_current_job_created_at := None,
          w_last_heartbeat := None, w_epoch := w_epoch w + 1\<rparr>)"

text \<open>\<open>INSERT \<dots> ON CONFLICT (instance_id) DO UPDATE \<dots> RETURNING id, epoch\<close>\<close>

definition Register_upsert ::
    "int \<Rightarrow> string \<Rightarrow> RegisterWorkerParams \<Rightarrow> RegisteredWorker tx" where
  "Register_upsert now uuid p d =
     (if \<not> (0 < rp_CPUCores p \<and> 0 < rp_MemoryMB p \<and> 0 < rp_CapacitySlots p) then Inl CheckViolation
      else case sql_first (Register_conflict_where (p, now)) (workers d) of
        None \<Rightarrow>
          if list_ex (\<lambda>w. w_id w = uuid) (workers d) then Inl UniqueViolation
          else Inr (\<lparr>rw_ID = uuid, rw_Epoch = 1\<rparr>,
                    d\<lparr>workers := workers d @ [Register_insert_row now uuid p]\<rparr>)
      | Some w \<Rightarrow>
          if max_int64 < w_epoch w + 1 then Inl NumericOutOfRange
          else Inr (\<lparr>rw_ID = w_id w, rw_Epoch = w_epoch w + 1\<rparr>,
                    d\<lparr>workers := sql_update (Register_conflict_where (p, now))
                                    (Register_conflict_set (p, now)) (workers d)\<rparr>))"

fun Register_promote_where :: "string \<times> int \<Rightarrow> worker_row \<Rightarrow> bool" where
  "Register_promote_where (wid, now) w \<longleftrightarrow> w_id w = wid"

fun Register_promote_set :: "string \<times> int \<Rightarrow> worker_row \<Rightarrow> worker_row" where
  "Register_promote_set (wid, now) w =
     set_updated_at now (w\<lparr>w_status := READY, w_last_heartbeat := Some now\<rparr>)"

definition Register_promote :: "int \<Rightarrow> string \<Rightarrow> unit tx" where
  "Register_promote now wid d =
     Inr ((), d\<lparr>workers := sql_update (Register_promote_where (wid, now))
                              (Register_promote_set (wid, now)) (workers d)\<rparr>)"

definition Register_body ::
    "faults \<Rightarrow> int \<Rightarrow> string \<Rightarrow> RegisterWorkerParams \<Rightarrow> RegisteredWorker tx" where
  "Register_body flt now uuid p =
     tx_bind (in_tx flt S_register_upsert (Register_upsert now uuid p)) (\<lambda>result.
     tx_bind (in_tx flt S_register_event
                (insert_worker_event
                   \<lparr>e_worker_id = rw_ID result, e_event_type = ''REGISTERED'',
                    e_payload = [(''epoch'', PInt (rw_Epoch result)),
                                 (''instance_id'', PText (rp_InstanceID p))],
                    e_created_at = now\<rparr>)) (\<lambda>_.
     tx_bind (in_tx flt S_register_promote (Register_promote now (rw_ID result))) (\<lambda>_.
     tx_return result)))"

definition Register ::
    "faults \<Rightarrow> int \<Rightarrow> string \<Rightarrow> RegisterWorkerParams \<Rightarrow> db \<Rightarrow> (pg_error + RegisteredWorker) \<times> db" where
  "Register flt now uuid p d = BeginFunc flt (Register_body flt now uuid (Register_defaults p)) d"

section \<open>Reads\<close>

record WorkerRow =
  wr_ID :: string
  wr_Hostname :: string
  wr_OS :: string
  wr_CPUCores :: int
  wr_MemoryMB :: int
  wr_Labels :: labels
  wr_Capabilities :: "string list"
  wr_Status :: string
  wr_CurrentJobID :: "string option"
  wr_LastHeartbeat :: "int option"
  wr_Version :: string
  wr_CapacitySlots :: int
  wr_AvailableCapacity :: int
  wr_Epoch :: int
  wr_RegisteredAt :: int
  wr_DrainRequested :: bool

definition to_WorkerRow :: "worker_row \<Rightarrow> WorkerRow" where
  "to_WorkerRow w =
     \<lparr>wr_ID = w_id w, wr_Hostname = w_hostname w, wr_OS = w_os w, wr_CPUCores = w_cpu_cores w,
      wr_MemoryMB = w_memory_mb w, wr_Labels = w_labels w, wr_Capabilities = w_capabilities w,
      wr_Status = worker_status_str (w_status w), wr_CurrentJobID = w_current_job_id w,
      wr_LastHeartbeat = w_last_heartbeat w, wr_Version = w_version w,
      wr_CapacitySlots = w_capacity_slots w, wr_AvailableCapacity = w_available_capacity w,
      wr_Epoch = w_epoch w, wr_RegisteredAt = w_registered_at w,
      wr_DrainRequested = w_drain_requested w\<rparr>"

text \<open>
  \<open>SELECT status, COUNT(*) \<dots> GROUP BY status\<close>, scanned into a \<open>map[string]int32\<close>: a status with
  no worker has no key, a count beyond \<open>int32\<close> fails the scan.
\<close>

definition CountByStatus :: "faults \<Rightarrow> db \<Rightarrow> pg_error + (string \<Rightarrow> int option)" where
  "CountByStatus flt =
     query flt S_count_by_status (\<lambda>d.
       let count = (\<lambda>st. int (rows_affected (\<lambda>w. w_status w = st) (workers d)))
       in if list_ex (\<lambda>st. max_int32 < count st) all_worker_statuses then Inl ScanError
          else Inr (\<lambda>s. case to_worker_status s of
                           None \<Rightarrow> None
                         | Some st \<Rightarrow> if count st = 0 then None else Some (count st)))"

definition drain_candidate :: "worker_row \<Rightarrow> bool" where
  "drain_candidate w \<longleftrightarrow>
     w_status w = READY \<and> w_available_capacity w = w_capacity_slots w \<and> \<not> w_drain_requested w"

definition PickDrainCandidate :: "faults \<Rightarrow> db \<Rightarrow> pg_error + string" where
  "PickDrainCandidate flt =
     query flt S_pick_drain (\<lambda>d.
       case sort_key w_registered_at (filter drain_candidate (workers d)) of
         [] \<Rightarrow> Inr ''''
       | w # _ \<Rightarrow> Inr (w_id w))"

definition clamp_limit :: "int \<Rightarrow> int" where
  "clamp_limit limit = (if limit \<le> 0 \<or> 1000 < limit then 100 else limit)"

definition WorkerStore_List :: "faults \<Rightarrow> string \<Rightarrow> int \<Rightarrow> db \<Rightarrow> pg_error + WorkerRow list" where
  "WorkerStore_List flt statusFilter limit =
     query flt S_list_workers (\<lambda>d.
       let page = (\<lambda>ws. map to_WorkerRow (take (nat (clamp_limit limit))
                           (sort_key (\<lambda>w. - w_registered_at w) ws)))
       in if statusFilter = '''' then Inr (page (workers d))
          else case to_worker_status statusFilter of
            None \<Rightarrow> Inl InvalidEnum
          | Some st \<Rightarrow> Inr (page (filter (\<lambda>w. w_status w = st) (workers d))))"

definition GetEpochAndStatus :: "faults \<Rightarrow> string \<Rightarrow> db \<Rightarrow> pg_error + int \<times> string \<times> bool" where
  "GetEpochAndStatus flt wid =
     query flt S_get_epoch (\<lambda>d.
       case sql_first (\<lambda>w. w_id w = wid) (workers d) of
         None \<Rightarrow> Inl NoRows
       | Some w \<Rightarrow> Inr (w_epoch w, worker_status_str (w_status w), w_drain_requested w))"

section \<open>UpdateHeartbeat\<close>

type_synonym heartbeat_args =
  "string \<times> int \<times> worker_status \<times> string option \<times> int option \<times> int"

fun UpdateHeartbeat_where :: "heartbeat_args \<Rightarrow> worker_row \<Rightarrow> bool" where
  "UpdateHeartbeat_where (wid, epoch, st, jid, jca, now) w \<longleftrightarrow> w_id w = wid \<and> w_epoch w = epoch"

fun UpdateHeartbeat_set :: "heartbeat_args \<Rightarrow> worker_row \<Rightarrow> worker_row" where
  "UpdateHeartbeat_set (wid, epoch, st, jid, jca, now) w =
     set_updated_at now
       (w\<lparr>w_status := st, w_current_job_id := jid, w_current_job_created_at := jca,
          w_last_heartbeat := Some now\<rparr>)"

definition UpdateHeartbeat_stmt ::
    "int \<Rightarrow> string \<Rightarrow> int \<Rightarrow> string \<Rightarrow> string option \<Rightarrow> int option \<Rightarrow> bool tx" where
  "UpdateHeartbeat_stmt now wid epoch dbStatus jid jca d =
     (case to_worker_status dbStatus of
        None \<Rightarrow> Inl InvalidEnum
      | Some st \<Rightarrow>
          let a = (wid, epoch, st, jid, jca, now)
          in Inr (rows_affected (UpdateHeartbeat_where a) (workers d) = 1,
                  d\<lparr>workers := sql_update (UpdateHeartbeat_where a) (UpdateHeartbeat_set a)
                                  (workers d)\<rparr>))"

definition UpdateHeartbeat ::
    "faults \<Rightarrow> int \<Rightarrow> string \<Rightarrow> int \<Rightarrow> string \<Rightarrow> string option \<Rightarrow> db \<Rightarrow> (pg_error + bool) \<times> db" where
  "UpdateHeartbeat flt now wid epoch dbStatus currentJobID d =
     (case currentJobID of
        None \<Rightarrow>
          exec flt S_heartbeat_update
            (UpdateHeartbeat_stmt now wid epoch dbStatus None None) d
      | Some jid \<Rightarrow>
          (case query flt S_heartbeat_job
                  (\<lambda>d. case sql_first (\<lambda>j. j_id j = jid) (jobs d) of
                          None \<Rightarrow> Inl NoRows | Some j \<Rightarrow> Inr (j_created_at j)) d of
             Inl e \<Rightarrow> (Inl e, d)
           | Inr jca \<Rightarrow>
               exec flt S_heartbeat_update
                 (UpdateHeartbeat_stmt now wid epoch dbStatus (Some jid) (Some jca)) d))"

section \<open>The reaper's two operations\<close>

record StaleWorker =
  sw_ID :: string
  sw_Epoch :: int

definition stale :: "int \<Rightarrow> int \<Rightarrow> worker_row \<Rightarrow> bool" where
  "stale now timeoutSeconds w \<longleftrightarrow>
     w_status w \<notin> {OFFLINE, DEAD} \<and>
     (case w_last_heartbeat w of None \<Rightarrow> False | Some t \<Rightarrow> t < now - timeoutSeconds * second)"

definition ListStale :: "faults \<Rightarrow> int \<Rightarrow> int \<Rightarrow> db \<Rightarrow> pg_error + StaleWorker list" where
  "ListStale flt now timeoutSeconds =
     query flt S_list_stale (\<lambda>d.
       Inr (map (\<lambda>w. \<lparr>sw_ID = w_id w, sw_Epoch = w_epoch w\<rparr>)
              (filter (stale now timeoutSeconds) (workers d))))"

fun MarkDead_where :: "string \<times> int \<times> int \<Rightarrow> worker_row \<Rightarrow> bool" where
  "MarkDead_where (wid, epoch, now) w \<longleftrightarrow>
     w_id w = wid \<and> w_epoch w = epoch \<and> w_status w \<notin> {OFFLINE, DEAD}"

fun MarkDead_set :: "string \<times> int \<times> int \<Rightarrow> worker_row \<Rightarrow> worker_row" where
  "MarkDead_set (wid, epoch, now) w =
     set_updated_at now (w\<lparr>w_status := DEAD, w_available_capacity := w_capacity_slots w\<rparr>)"

definition MarkDead_update :: "int \<Rightarrow> string \<Rightarrow> int \<Rightarrow> nat tx" where
  "MarkDead_update now wid epoch d =
     Inr (rows_affected (MarkDead_where (wid, epoch, now)) (workers d),
          d\<lparr>workers := sql_update (MarkDead_where (wid, epoch, now))
                          (MarkDead_set (wid, epoch, now)) (workers d)\<rparr>)"

definition held_by :: "string \<Rightarrow> job_row \<Rightarrow> bool" where
  "held_by wid j \<longleftrightarrow> j_worker_id j = Some wid \<and> active j"

definition jobs_held :: "string \<Rightarrow> job_row list tx" where
  "jobs_held wid d = Inr (filter (held_by wid) (jobs d), d)"

fun Requeue_where :: "string \<times> int \<Rightarrow> job_row \<Rightarrow> bool" where
  "Requeue_where (jid, jca) j \<longleftrightarrow> j_id j = jid \<and> j_created_at j = jca"

fun Requeue_set :: "string \<times> int \<Rightarrow> job_row \<Rightarrow> job_row" where
  "Requeue_set (jid, jca) j =
     j\<lparr>j_status := QUEUED, j_worker_id := None, j_assignment_epoch := None, j_started_at := None\<rparr>"

definition Requeue_update :: "string \<Rightarrow> int \<Rightarrow> unit tx" where
  "Requeue_update jid jca d =
     Inr ((), d\<lparr>jobs := sql_update (Requeue_where (jid, jca)) (Requeue_set (jid, jca)) (jobs d)\<rparr>)"

text \<open>The loop over the rows the \<open>SELECT\<close> returned.\<close>

fun requeue_jobs :: "faults \<Rightarrow> int \<Rightarrow> string \<Rightarrow> job_row list \<Rightarrow> unit tx" where
  "requeue_jobs flt now wid [] = tx_return ()"
| "requeue_jobs flt now wid (j # js) =
     tx_bind (in_tx flt (S_dead_requeue (j_id j)) (Requeue_update (j_id j) (j_created_at j))) (\<lambda>_.
     tx_bind (in_tx flt (S_dead_count (j_id j)) (next_attempt (j_id j))) (\<lambda>n.
     tx_bind (in_tx flt (S_dead_history (j_id j))
                (insert_retry_history
                   \<lparr>r_job_id = j_id j, r_job_created_at = j_created_at j, r_attempt_number = n,
                    r_status = FAILED, r_worker_id = Some wid,
                    r_error_message = Some ''worker_dead'',
                    r_started_at = now, r_finished_at = Some now\<rparr>)) (\<lambda>_.
     requeue_jobs flt now wid js)))"

definition MarkDeadAndRequeue_body :: "faults \<Rightarrow> int \<Rightarrow> string \<Rightarrow> int \<Rightarrow> unit tx" where
  "MarkDeadAndRequeue_body flt now wid epoch =
     tx_bind (in_tx flt S_dead_mark (MarkDead_update now wid epoch)) (\<lambda>n.
     if n = 0 then tx_return ()
     else tx_bind (in_tx flt S_dead_jobs (jobs_held wid)) (\<lambda>js.
          tx_bind (requeue_jobs flt now wid js) (\<lambda>_.
          in_tx flt S_dead_event
            (insert_worker_event
               \<lparr>e_worker_id = wid, e_event_type = ''MARKED_DEAD'',
                e_payload = [(''epoch'', PInt epoch), (''requeued_jobs'', PInt (int (length js)))],
                e_created_at = now\<rparr>))))"

definition MarkDeadAndRequeue ::
    "faults \<Rightarrow> int \<Rightarrow> string \<Rightarrow> int \<Rightarrow> db \<Rightarrow> (pg_error + unit) \<times> db" where
  "MarkDeadAndRequeue flt now wid epoch d =
     BeginFunc flt (MarkDeadAndRequeue_body flt now wid epoch) d"

section \<open>Scheduling candidates and assignment\<close>

record Candidate =
  c_ID :: string
  c_Epoch :: int
  c_Capabilities :: "string list"
  c_Labels :: labels
  c_AvailableCapacity :: int
  c_CapacitySlots :: int

definition to_Candidate :: "worker_row \<Rightarrow> Candidate" where
  "to_Candidate w =
     \<lparr>c_ID = w_id w, c_Epoch = w_epoch w, c_Capabilities = w_capabilities w, c_Labels = w_labels w,
      c_AvailableCapacity = w_available_capacity w, c_CapacitySlots = w_capacity_slots w\<rparr>"

definition ready_candidate :: "string list \<Rightarrow> worker_row \<Rightarrow> bool" where
  "ready_candidate caps w \<longleftrightarrow>
     w_status w = READY \<and> 0 < w_available_capacity w \<and>
     list_all (\<lambda>c. c \<in> set (w_capabilities w)) caps"

definition ListReadyCandidates ::
    "faults \<Rightarrow> string list option \<Rightarrow> db \<Rightarrow> pg_error + Candidate list" where
  "ListReadyCandidates flt requiredCapabilities =
     query flt S_candidates (\<lambda>d.
       let caps = (case requiredCapabilities of None \<Rightarrow> [] | Some cs \<Rightarrow> cs)
       in Inr (map to_Candidate (filter (ready_candidate caps) (workers d))))"

type_synonym assign_args = "string \<times> int \<times> string \<times> int \<times> int"

fun AssignWorker_where :: "assign_args \<Rightarrow> worker_row \<Rightarrow> bool" where
  "AssignWorker_where (jid, jca, wid, epoch, now) w \<longleftrightarrow>
     w_id w = wid \<and> w_epoch w = epoch \<and> w_status w = READY \<and> 0 < w_available_capacity w"

fun AssignWorker_set :: "assign_args \<Rightarrow> worker_row \<Rightarrow> worker_row" where
  "AssignWorker_set (jid, jca, wid, epoch, now) w =
     set_updated_at now
       (w\<lparr>w_status := BUSY, w_current_job_id := Some jid, w_current_job_created_at := Some jca,
          w_available_capacity := w_available_capacity w - 1\<rparr>)"

fun AssignJob_where :: "assign_args \<Rightarrow> job_row \<Rightarrow> bool" where
  "AssignJob_where (jid, jca, wid, epoch, now) j \<longleftrightarrow>
     j_id j = jid \<and> j_created_at j = jca \<and> j_status j = QUEUED"

fun AssignJob_set :: "assign_args \<Rightarrow> job_row \<Rightarrow> job_row" where
  "AssignJob_set (jid, jca, wid, epoch, now) j =
     j\<lparr>j_status := ASSIGNED, j_worker_id := Some wid, j_assignment_epoch := Some epoch\<rparr>"

text \<open>The update of the worker row must satisfy \<open>fk_workers_current_job\<close> (migration 000003).\<close>

definition AssignWorker_update :: "assign_args \<Rightarrow> nat tx" where
  "AssignWorker_update a d =
     (case a of (jid, jca, wid, epoch, now) \<Rightarrow>
        if list_ex (AssignWorker_where a) (workers d) \<and>
           \<not> list_ex (\<lambda>j. j_id j = jid \<and> j_created_at j = jca) (jobs d)
        then Inl ForeignKeyViolation
        else Inr (rows_affected (AssignWorker_where a) (workers d),
                  d\<lparr>workers := sql_update (AssignWorker_where a) (AssignWorker_set a) (workers d)\<rparr>))"

definition AssignJob_update :: "assign_args \<Rightarrow> nat tx" where
  "AssignJob_update a d =
     Inr (rows_affected (AssignJob_where a) (jobs d),
          d\<lparr>jobs := sql_update (AssignJob_where a) (AssignJob_set a) (jobs d)\<rparr>)"

definition AssignJob_body :: "faults \<Rightarrow> assign_args \<Rightarrow> bool tx" where
  "AssignJob_body flt a =
     tx_bind (in_tx flt S_assign_worker (AssignWorker_update a)) (\<lambda>n.
     if n \<noteq> 1 then tx_return False
     else tx_bind (in_tx flt S_assign_job (AssignJob_update a)) (\<lambda>m.
          if m \<noteq> 1 then (\<lambda>_. Inl ErrJobAssignRaceLost)
          else tx_return True))"

definition AssignJob ::
    "faults \<Rightarrow> int \<Rightarrow> string \<Rightarrow> int \<Rightarrow> string \<Rightarrow> int \<Rightarrow> db \<Rightarrow> (pg_error + bool) \<times> db" where
  "AssignJob flt now jid jca wid epoch d =
     (case BeginFunc flt (AssignJob_body flt (jid, jca, wid, epoch, now)) d of
        (Inl ErrJobAssignRaceLost, d') \<Rightarrow> (Inr False, d')
      | r \<Rightarrow> r)"

section \<open>FreeWorker\<close>

fun FreeWorker_where :: "string \<times> int \<times> int \<Rightarrow> worker_row \<Rightarrow> bool" where
  "FreeWorker_where (wid, epoch, now) w \<longleftrightarrow> w_id w = wid \<and> w_epoch w = epoch"

fun FreeWorker_set :: "string \<times> int \<times> int \<Rightarrow> worker_row \<Rightarrow> worker_row" where
  "FreeWorker_set (wid, epoch, now) w =
     set_updated_at now
       (w\<lparr>w_status := (if w_drain_requested w then DRAINING else READY),
          w_current_job_id := None, w_current_job_created_at := None,
          w_available_capacity := min (w_available_capacity w + 1) (w_capacity_slots w)\<rparr>)"

definition FreeWorker_update :: "string \<times> int \<times> int \<Rightarrow> (int \<times> string) tx" where
  "FreeWorker_update a d =
     (case sql_first (FreeWorker_where a) (workers d) of
        None \<Rightarrow> Inl NoRows
      | Some w \<Rightarrow>
          Inr ((w_available_capacity (FreeWorker_set a w),
                worker_status_str (w_status (FreeWorker_set a w))),
               d\<lparr>workers := sql_update (FreeWorker_where a) (FreeWorker_set a) (workers d)\<rparr>))"

definition FreeWorker ::
    "faults \<Rightarrow> int \<Rightarrow> string \<Rightarrow> int \<Rightarrow> db \<Rightarrow> (pg_error + bool \<times> int \<times> string) \<times> db" where
  "FreeWorker flt now wid epoch d =
     (case exec flt S_free (FreeWorker_update (wid, epoch, now)) d of
        (Inl NoRows, d') \<Rightarrow> (Inr (False, 0, ''''), d')
      | (Inl e, d') \<Rightarrow> (Inl e, d')
      | (Inr (availableCapacity, newStatus), d') \<Rightarrow> (Inr (True, availableCapacity, newStatus), d'))"

section \<open>Drain and resume\<close>

record DrainResult =
  dr_Epoch :: int
  dr_Status :: string
  dr_CurrentJobID :: "string option"
  dr_AvailableCapacity :: int

definition to_DrainResult :: "worker_row \<Rightarrow> DrainResult" where
  "to_DrainResult w =
     \<lparr>dr_Epoch = w_epoch w, dr_Status = worker_status_str (w_status w),
      dr_CurrentJobID = w_current_job_id w, dr_AvailableCapacity = w_available_capacity w\<rparr>"

fun Drain_where :: "string \<times> int \<Rightarrow> worker_row \<Rightarrow> bool" where
  "Drain_where (wid, now) w \<longleftrightarrow> w_id w = wid \<and> w_status w \<notin> {OFFLINE, DEAD}"

fun RequestDrain_set :: "string \<times> int \<Rightarrow> worker_row \<Rightarrow> worker_row" where
  "RequestDrain_set (wid, now) w =
     set_updated_at now
       (w\<lparr>w_drain_requested := True,
          w_status := (if w_status w = READY then DRAINING else w_status w)\<rparr>)"

fun ResumeDrain_set :: "string \<times> int \<Rightarrow> worker_row \<Rightarrow> worker_row" where
  "ResumeDrain_set (wid, now) w =
     set_updated_at now
       (w\<lparr>w_drain_requested := False,
          w_status := (if w_status w = DRAINING then READY else w_status w)\<rparr>)"

definition drain_update ::
    "(string \<times> int \<Rightarrow> worker_row \<Rightarrow> worker_row) \<Rightarrow> string \<times> int \<Rightarrow> DrainResult tx" where
  "drain_update set_clause a d =
     (case sql_first (Drain_where a) (workers d) of
        None \<Rightarrow> Inl NoRows
      | Some w \<Rightarrow>
          Inr (to_DrainResult (set_clause a w),
               d\<lparr>workers := sql_update (Drain_where a) (set_clause a) (workers d)\<rparr>))"

definition drain_event :: "string \<Rightarrow> int \<Rightarrow> string \<Rightarrow> DrainResult \<Rightarrow> worker_event" where
  "drain_event wid now etype r =
     \<lparr>e_worker_id = wid, e_event_type = etype, e_payload = [(''epoch'', PInt (dr_Epoch r))],
      e_created_at = now\<rparr>"

definition RequestDrain ::
    "faults \<Rightarrow> int \<Rightarrow> string \<Rightarrow> db \<Rightarrow> (pg_error + DrainResult option) \<times> db" where
  "RequestDrain flt now wid d =
     (case BeginFunc flt
             (tx_bind (in_tx flt S_drain (drain_update RequestDrain_set (wid, now))) (\<lambda>r.
              tx_bind (in_tx flt S_drain_event
                         (insert_worker_event (drain_event wid now ''DRAIN_REQUESTED'' r))) (\<lambda>_.
              tx_return r))) d of
        (Inl NoRows, d') \<Rightarrow> (Inr None, d')
      | (Inl e, d') \<Rightarrow> (Inl e, d')
      | (Inr r, d') \<Rightarrow> (Inr (Some r), d'))"

definition ResumeDrain ::
    "faults \<Rightarrow> int \<Rightarrow> string \<Rightarrow> db \<Rightarrow> (pg_error + DrainResult option) \<times> db" where
  "ResumeDrain flt now wid d =
     (case BeginFunc flt
             (tx_bind (in_tx flt S_resume (drain_update ResumeDrain_set (wid, now))) (\<lambda>r.
              tx_bind (in_tx flt S_resume_event
                         (insert_worker_event (drain_event wid now ''DRAIN_RESUMED'' r))) (\<lambda>_.
              tx_return r))) d of
        (Inl NoRows, d') \<Rightarrow> (Inr None, d')
      | (Inl e, d') \<Rightarrow> (Inl e, d')
      | (Inr r, d') \<Rightarrow> (Inr (Some r), d'))"

section \<open>The updates as compare-and-swaps\<close>

interpretation promote_w: row_cas w_id fst Register_promote_where Register_promote_set
  by unfold_locales (auto simp: set_updated_at_def)

interpretation conflict_w: row_cas w_instance_id "rp_InstanceID \<circ> fst" Register_conflict_where Register_conflict_set
  by unfold_locales (auto simp: set_updated_at_def)

interpretation heartbeat_w: fenced_cas w_id fst UpdateHeartbeat_where UpdateHeartbeat_set
    w_epoch "fst \<circ> snd"
  by unfold_locales (auto simp: set_updated_at_def)

interpretation dead_w: fenced_cas w_id fst MarkDead_where MarkDead_set w_epoch "fst \<circ> snd"
  by unfold_locales (auto simp: set_updated_at_def)

interpretation dead_once: one_shot_cas w_id fst MarkDead_where MarkDead_set
  by unfold_locales (auto simp: set_updated_at_def)

interpretation requeue_j: row_cas "\<lambda>j. (j_id j, j_created_at j)" id Requeue_where Requeue_set
  by unfold_locales auto

interpretation assign_w: fenced_cas w_id "fst \<circ> snd \<circ> snd" AssignWorker_where AssignWorker_set
    w_epoch "fst \<circ> snd \<circ> snd \<circ> snd"
  by unfold_locales (auto simp: set_updated_at_def)

interpretation assign_w_once: one_shot_cas w_id "fst \<circ> snd \<circ> snd" AssignWorker_where AssignWorker_set
  by unfold_locales (auto simp: set_updated_at_def)

interpretation assign_j_once: one_shot_cas j_id fst AssignJob_where AssignJob_set
  by unfold_locales auto

interpretation free_w: fenced_cas w_id fst FreeWorker_where FreeWorker_set w_epoch "fst \<circ> snd"
  by unfold_locales (auto simp: set_updated_at_def)

interpretation drain_w: row_cas w_id fst Drain_where RequestDrain_set
  by unfold_locales (auto simp: set_updated_at_def)

interpretation resume_w: row_cas w_id fst Drain_where ResumeDrain_set
  by unfold_locales (auto simp: set_updated_at_def)

end
