(* ===== verification/JobStore.thy ===== *)
theory JobStore
  imports WorkerStore
begin

text \<open>
  \<open>internal/store/postgres/jobs.go\<close>: every method of \<open>JobStore\<close>, in the form of
  \<open>WorkerStore\<close>. \<open>retryBackoff\<close> is computed on 64-bit words, as Go computes it.
\<close>

section \<open>Create and the reads\<close>

record CreateJobParams =
  cj_Priority :: int
  cj_Repository :: string
  cj_Branch :: string
  cj_CommitSHA :: string
  cj_Labels :: "labels option"
  cj_RequiredCapabilities :: "string list option"
  cj_MaxRetries :: int
  cj_IdempotencyKey :: string

record Job =
  jb_ID :: string
  jb_Priority :: int
  jb_Repository :: string
  jb_Branch :: string
  jb_CommitSHA :: string
  jb_Labels :: labels
  jb_RequiredCapabilities :: "string list"
  jb_Retries :: int
  jb_MaxRetries :: int
  jb_Status :: string
  jb_WorkerID :: "string option"
  jb_LogRef :: "string option"
  jb_CreatedAt :: int
  jb_StartedAt :: "int option"
  jb_FinishedAt :: "int option"

definition scanJob :: "job_row \<Rightarrow> Job" where
  "scanJob j =
     \<lparr>jb_ID = j_id j, jb_Priority = j_priority j, jb_Repository = j_repository j,
      jb_Branch = j_branch j, jb_CommitSHA = j_commit_sha j, jb_Labels = j_labels j,
      jb_RequiredCapabilities = j_required_capabilities j, jb_Retries = j_retries j,
      jb_MaxRetries = j_max_retries j, jb_Status = job_status_str (j_status j),
      jb_WorkerID = j_worker_id j, jb_LogRef = j_log_ref j, jb_CreatedAt = j_created_at j,
      jb_StartedAt = j_started_at j, jb_FinishedAt = j_finished_at j\<rparr>"

text \<open>\<open>WHERE idempotency_key = $1 ORDER BY created_at DESC LIMIT 1\<close>\<close>

definition getByIdempotencyKey :: "faults \<Rightarrow> string \<Rightarrow> db \<Rightarrow> pg_error + Job" where
  "getByIdempotencyKey flt key =
     query flt S_create_lookup (\<lambda>d.
       case sort_key (\<lambda>j. - j_created_at j) (filter (\<lambda>j. j_idempotency_key j = Some key) (jobs d)) of
         [] \<Rightarrow> Inl ErrJobNotFound
       | j # _ \<Rightarrow> Inr (scanJob j))"

definition Create_defaults :: "CreateJobParams \<Rightarrow> CreateJobParams" where
  "Create_defaults p =
     p\<lparr>cj_Labels := (case cj_Labels p of None \<Rightarrow> Some [] | Some m \<Rightarrow> Some m),
       cj_RequiredCapabilities :=
         (case cj_RequiredCapabilities p of None \<Rightarrow> Some [] | Some c \<Rightarrow> Some c),
       cj_MaxRetries := (if cj_MaxRetries p \<le> 0 then 3 else cj_MaxRetries p)\<rparr>"

definition Create_row :: "int \<Rightarrow> string \<Rightarrow> CreateJobParams \<Rightarrow> job_row" where
  "Create_row now uuid p =
     \<lparr>j_id = uuid, j_priority = cj_Priority p, j_repository = cj_Repository p,
      j_branch = cj_Branch p, j_commit_sha = cj_CommitSHA p,
      j_labels = (case cj_Labels p of None \<Rightarrow> [] | Some m \<Rightarrow> m),
      j_required_capabilities = (case cj_RequiredCapabilities p of None \<Rightarrow> [] | Some c \<Rightarrow> c),
      j_retries = 0, j_max_retries = cj_MaxRetries p, j_status = QUEUED, j_worker_id = None,
      j_assignment_epoch = None,
      j_idempotency_key = (if cj_IdempotencyKey p \<noteq> '''' then Some (cj_IdempotencyKey p) else None),
      j_retry_at = None, j_log_ref = None, j_created_at = now, j_started_at = None,
      j_finished_at = None\<rparr>"

text \<open>
  \<open>INSERT INTO jobs\<close>, with the check on \<open>priority\<close>, the primary key \<open>(id, created_at)\<close> and the
  partial unique index \<open>uq_jobs_idempotency_key (idempotency_key, created_at)\<close>.
\<close>

definition Create_insert :: "int \<Rightarrow> string \<Rightarrow> CreateJobParams \<Rightarrow> Job tx" where
  "Create_insert now uuid p d =
     (let r = Create_row now uuid p in
      if \<not> (0 \<le> cj_Priority p \<and> cj_Priority p \<le> 9) then Inl CheckViolation
      else if list_ex (\<lambda>j. j_id j = uuid \<and> j_created_at j = now) (jobs d) then Inl UniqueViolation
      else if j_idempotency_key r \<noteq> None \<and>
              list_ex (\<lambda>j. j_idempotency_key j = j_idempotency_key r \<and> j_created_at j = now) (jobs d)
        then Inl UniqueViolation
      else Inr (scanJob r, d\<lparr>jobs := jobs d @ [r]\<rparr>))"

definition JobStore_Create ::
    "faults \<Rightarrow> int \<Rightarrow> string \<Rightarrow> CreateJobParams \<Rightarrow> db \<Rightarrow> (pg_error + Job \<times> bool) \<times> db" where
  "JobStore_Create flt now uuid p0 d =
     (let p = Create_defaults p0;
          insert = (case exec flt S_create_insert (Create_insert now uuid p) d of
                      (Inl e, d') \<Rightarrow> (Inl e, d')
                    | (Inr j, d') \<Rightarrow> (Inr (j, False), d'))
      in if cj_IdempotencyKey p \<noteq> '''' then
           (case getByIdempotencyKey flt (cj_IdempotencyKey p) d of
              Inr existing \<Rightarrow> (Inr (existing, True), d)
            | Inl ErrJobNotFound \<Rightarrow> insert
            | Inl e \<Rightarrow> (Inl e, d))
         else insert)"

definition JobStore_Get :: "faults \<Rightarrow> string \<Rightarrow> db \<Rightarrow> pg_error + Job" where
  "JobStore_Get flt jid =
     query flt S_get_job (\<lambda>d.
       case sql_first (\<lambda>j. j_id j = jid) (jobs d) of
         None \<Rightarrow> Inl ErrJobNotFound
       | Some j \<Rightarrow> Inr (scanJob j))"

definition CountQueuedByPriority :: "faults \<Rightarrow> db \<Rightarrow> pg_error + (int \<Rightarrow> int option)" where
  "CountQueuedByPriority flt =
     query flt S_count_queued (\<lambda>d.
       let count = (\<lambda>p. int (rows_affected (\<lambda>j. j_status j = QUEUED \<and> j_priority j = p) (jobs d)))
       in if list_ex (\<lambda>j. max_int32 < count (j_priority j)) (jobs d) then Inl ScanError
          else Inr (\<lambda>p. if count p = 0 then None else Some (count p)))"

record ListJobsFilter =
  lf_Status :: string
  lf_Repository :: string
  lf_WorkerID :: string
  lf_Limit :: int

definition JobStore_List :: "faults \<Rightarrow> ListJobsFilter \<Rightarrow> db \<Rightarrow> pg_error + Job list" where
  "JobStore_List flt f =
     query flt S_list_jobs (\<lambda>d.
       let keep = (\<lambda>j. (lf_Status f \<noteq> '''' \<longrightarrow> to_job_status (lf_Status f) = Some (j_status j)) \<and>
                       (lf_Repository f \<noteq> '''' \<longrightarrow> j_repository j = lf_Repository f) \<and>
                       (lf_WorkerID f \<noteq> '''' \<longrightarrow> j_worker_id j = Some (lf_WorkerID f)))
       in if lf_Status f \<noteq> '''' \<and> to_job_status (lf_Status f) = None then Inl InvalidEnum
          else Inr (map scanJob (take (nat (clamp_limit (lf_Limit f)))
                      (sort_key (\<lambda>j. - j_created_at j) (filter keep (jobs d))))))"

section \<open>MarkRunning and Complete\<close>

fun MarkRunning_where :: "string \<times> int \<times> int \<Rightarrow> job_row \<Rightarrow> bool" where
  "MarkRunning_where (jid, epoch, now) j \<longleftrightarrow>
     j_id j = jid \<and> j_assignment_epoch j = Some epoch \<and> j_status j = ASSIGNED"

fun MarkRunning_set :: "string \<times> int \<times> int \<Rightarrow> job_row \<Rightarrow> job_row" where
  "MarkRunning_set (jid, epoch, now) j = j\<lparr>j_status := RUNNING, j_started_at := Some now\<rparr>"

definition MarkRunning ::
    "faults \<Rightarrow> int \<Rightarrow> string \<Rightarrow> int \<Rightarrow> db \<Rightarrow> (pg_error + bool) \<times> db" where
  "MarkRunning flt now jid assignmentEpoch =
     exec flt S_mark_running (\<lambda>d.
       let a = (jid, assignmentEpoch, now)
       in Inr (rows_affected (MarkRunning_where a) (jobs d) = 1,
               d\<lparr>jobs := sql_update (MarkRunning_where a) (MarkRunning_set a) (jobs d)\<rparr>))"

type_synonym complete_args = "string \<times> int \<times> int \<times> job_status \<times> string option \<times> int"

fun Complete_where :: "complete_args \<Rightarrow> job_row \<Rightarrow> bool" where
  "Complete_where (jid, jca, epoch, st, logRef, now) j \<longleftrightarrow>
     j_id j = jid \<and> j_created_at j = jca \<and> j_assignment_epoch j = Some epoch \<and> active j"

fun Complete_set :: "complete_args \<Rightarrow> job_row \<Rightarrow> job_row" where
  "Complete_set (jid, jca, epoch, st, logRef, now) j =
     j\<lparr>j_status := st, j_finished_at := Some now, j_log_ref := logRef\<rparr>"

definition nonempty :: "string \<Rightarrow> string option" where
  "nonempty s = (if s \<noteq> '''' then Some s else None)"

definition Complete ::
    "faults \<Rightarrow> int \<Rightarrow> string \<Rightarrow> int \<Rightarrow> int \<Rightarrow> string \<Rightarrow> string \<Rightarrow> db \<Rightarrow> (pg_error + bool) \<times> db" where
  "Complete flt now jid jca assignmentEpoch finalStatus logRef =
     exec flt S_complete (\<lambda>d.
       case to_job_status finalStatus of
         None \<Rightarrow> Inl InvalidEnum
       | Some st \<Rightarrow>
           let a = (jid, jca, assignmentEpoch, st, nonempty logRef, now)
           in Inr (rows_affected (Complete_where a) (jobs d) = 1,
                   d\<lparr>jobs := sql_update (Complete_where a) (Complete_set a) (jobs d)\<rparr>))"

section \<open>Retries\<close>

text \<open>
  \<open>time.Duration(1<<uint(attempt)) * time.Second\<close> is computed in 64 bits: the shift drops the bit
  for 64 and more, the product wraps around.
\<close>

definition retryBackoff :: "int \<Rightarrow> int" where
  "retryBackoff attempt =
     (let a = (if attempt < 1 then 1 else attempt);
          d = sint (push_bit (nat a) (1 :: 64 word) * word_of_int second)
      in if 60 * second < d then 60 * second else d)"

fun Retry_row_where :: "string \<times> int \<Rightarrow> job_row \<Rightarrow> bool" where
  "Retry_row_where (jid, jca) j \<longleftrightarrow> j_id j = jid \<and> j_created_at j = jca"

fun Retrying_set :: "int \<Rightarrow> int \<Rightarrow> job_row \<Rightarrow> job_row" where
  "Retrying_set nextRetries retryAt j =
     j\<lparr>j_status := RETRYING, j_retries := nextRetries, j_retry_at := Some retryAt,
       j_worker_id := None, j_assignment_epoch := None, j_started_at := None\<rparr>"

fun Failed_set :: "int \<Rightarrow> string option \<Rightarrow> job_row \<Rightarrow> job_row" where
  "Failed_set now logRef j =
     j\<lparr>j_status := FAILED, j_finished_at := Some now, j_log_ref := logRef\<rparr>"

text \<open>\<open>SELECT retries, max_retries \<dots> FOR UPDATE\<close>\<close>

definition Retry_lookup :: "string \<Rightarrow> int \<Rightarrow> int \<Rightarrow> (int \<times> int) option tx" where
  "Retry_lookup jid jca epoch d =
     Inr (map_option (\<lambda>j. (j_retries j, j_max_retries j))
            (sql_first (\<lambda>j. j_id j = jid \<and> j_created_at j = jca \<and>
                            j_assignment_epoch j = Some epoch \<and> active j) (jobs d)), d)"

definition Retry_update :: "string \<Rightarrow> int \<Rightarrow> (job_row \<Rightarrow> job_row) \<Rightarrow> unit tx" where
  "Retry_update jid jca f d =
     Inr ((), d\<lparr>jobs := sql_update (Retry_row_where (jid, jca)) f (jobs d)\<rparr>)"

definition RetryOrFail_body ::
    "faults \<Rightarrow> int \<Rightarrow> int \<Rightarrow> string \<Rightarrow> int \<Rightarrow> int \<Rightarrow> string option \<Rightarrow> string \<Rightarrow> string
       \<Rightarrow> (string \<times> bool) tx" where
  "RetryOrFail_body flt now goNow jid jca epoch workerID errorMessage logRef =
     tx_bind (in_tx flt S_retry_lookup (Retry_lookup jid jca epoch)) (\<lambda>found.
     case found of
       None \<Rightarrow> tx_return ('''', False)
     | Some (retries, maxRetries) \<Rightarrow>
         tx_bind (in_tx flt S_retry_count (next_attempt jid)) (\<lambda>nextAttempt.
         let nextRetries = to_int32 (retries + 1) in
         tx_bind (if nextRetries \<le> maxRetries
                  then in_tx flt S_retry_mark
                         (Retry_update jid jca
                            (Retrying_set nextRetries (goNow + retryBackoff nextRetries)))
                  else in_tx flt S_retry_fail
                         (Retry_update jid jca (Failed_set now (nonempty logRef)))) (\<lambda>_.
         tx_bind (in_tx flt S_retry_history
                    (insert_retry_history
                       \<lparr>r_job_id = jid, r_job_created_at = jca, r_attempt_number = nextAttempt,
                        r_status = FAILED, r_worker_id = workerID,
                        r_error_message = nonempty errorMessage,
                        r_started_at = now, r_finished_at = Some now\<rparr>)) (\<lambda>_.
         tx_return (if nextRetries \<le> maxRetries then ''RETRYING'' else ''FAILED'', True)))))"

definition RetryOrFail ::
    "faults \<Rightarrow> int \<Rightarrow> int \<Rightarrow> string \<Rightarrow> int \<Rightarrow> int \<Rightarrow> string option \<Rightarrow> string \<Rightarrow> string \<Rightarrow> db
       \<Rightarrow> (pg_error + string \<times> bool) \<times> db" where
  "RetryOrFail flt now goNow jid jca assignmentEpoch workerID errorMessage logRef d =
     BeginFunc flt
       (RetryOrFail_body flt now goNow jid jca assignmentEpoch workerID errorMessage logRef) d"

record DueRetry =
  du_ID :: string
  du_CreatedAt :: int
  du_Priority :: int
  du_Repository :: string
  du_Branch :: string
  du_CommitSHA :: string
  du_RequiredCapabilities :: "string list"

definition to_DueRetry :: "job_row \<Rightarrow> DueRetry" where
  "to_DueRetry j =
     \<lparr>du_ID = j_id j, du_CreatedAt = j_created_at j, du_Priority = j_priority j,
      du_Repository = j_repository j, du_Branch = j_branch j, du_CommitSHA = j_commit_sha j,
      du_RequiredCapabilities = j_required_capabilities j\<rparr>"

definition due :: "int \<Rightarrow> job_row \<Rightarrow> bool" where
  "due now j \<longleftrightarrow>
     j_status j = RETRYING \<and> (case j_retry_at j of None \<Rightarrow> False | Some t \<Rightarrow> t \<le> now)"

definition ListDueRetries :: "faults \<Rightarrow> int \<Rightarrow> int \<Rightarrow> db \<Rightarrow> pg_error + DueRetry list" where
  "ListDueRetries flt now limit =
     query flt S_list_due (\<lambda>d.
       Inr (map to_DueRetry (take (nat (clamp_limit limit))
              (sort_key (\<lambda>j. case j_retry_at j of None \<Rightarrow> 0 | Some t \<Rightarrow> t) (filter (due now) (jobs d))))))"

fun MarkQueued_where :: "string \<times> int \<Rightarrow> job_row \<Rightarrow> bool" where
  "MarkQueued_where (jid, jca) j \<longleftrightarrow> j_id j = jid \<and> j_created_at j = jca \<and> j_status j = RETRYING"

fun MarkQueued_set :: "string \<times> int \<Rightarrow> job_row \<Rightarrow> job_row" where
  "MarkQueued_set (jid, jca) j = j\<lparr>j_status := QUEUED, j_retry_at := None\<rparr>"

definition MarkQueuedFromRetry ::
    "faults \<Rightarrow> string \<Rightarrow> int \<Rightarrow> db \<Rightarrow> (pg_error + bool) \<times> db" where
  "MarkQueuedFromRetry flt jid jca =
     exec flt S_mark_queued (\<lambda>d.
       Inr (rows_affected (MarkQueued_where (jid, jca)) (jobs d) = 1,
            d\<lparr>jobs := sql_update (MarkQueued_where (jid, jca)) (MarkQueued_set (jid, jca)) (jobs d)\<rparr>))"

section \<open>The updates as compare-and-swaps\<close>

interpretation running_j: fenced_cas j_id fst MarkRunning_where MarkRunning_set
    j_assignment_epoch "Some \<circ> fst \<circ> snd"
  by unfold_locales auto

interpretation running_once: one_shot_cas j_id fst MarkRunning_where MarkRunning_set
  by unfold_locales auto

interpretation complete_j: fenced_cas j_id fst Complete_where Complete_set
    j_assignment_epoch "Some \<circ> fst \<circ> snd \<circ> snd"
  by unfold_locales auto

interpretation retrying_j: row_cas j_id fst Retry_row_where "\<lambda>_. Retrying_set n t"
  by unfold_locales auto

interpretation failed_j: row_cas j_id fst Retry_row_where "\<lambda>_. Failed_set now l"
  by unfold_locales auto

interpretation queued_once: one_shot_cas j_id fst MarkQueued_where MarkQueued_set
  by unfold_locales auto

end
