(* ===== verification/StoreInvariant.thy ===== *)
theory StoreInvariant
  imports JobStore
begin

text \<open>
  Every operation of the two stores keeps the invariant \<open>db_inv\<close> of the database, whatever
  statements fail. The lemmas on a whole-table update carry the proofs: an operation only has to
  say what its \<open>SET\<close> clause does to one row.
\<close>

section \<open>Updates of a whole table\<close>

definition worker_step :: "worker_row \<Rightarrow> worker_row \<Rightarrow> bool" where
  "worker_step w w' \<longleftrightarrow>
     w_id w' = w_id w \<and> w_instance_id w' = w_instance_id w \<and> w_epoch w \<le> w_epoch w' \<and>
     (w_status w' = DEAD \<longrightarrow> w_status w = DEAD)"

lemma owner_ok_mono:
  assumes "owner_ok ws j"
    and "\<And>w. w \<in> set ws \<Longrightarrow> w_status w \<noteq> DEAD \<Longrightarrow>
           \<exists>w'\<in>set ws'. w_id w' = w_id w \<and> w_status w' \<noteq> DEAD \<and> w_epoch w \<le> w_epoch w'"
  shows "owner_ok ws' j"
  using assms unfolding owner_ok_def by (metis order_trans)

lemma db_inv_update_workers:
  assumes inv: "db_inv d"
    and ok: "\<And>w. w \<in> set (workers d) \<Longrightarrow> P w \<Longrightarrow> worker_ok w \<Longrightarrow> worker_ok (f w)"
    and st: "\<And>w. w \<in> set (workers d) \<Longrightarrow> P w \<Longrightarrow> worker_step w (f w)"
  shows "db_inv (d\<lparr>workers := sql_update P f (workers d)\<rparr>)"
proof (rule db_invI, goal_cases)
  have "map k (sql_update P f (workers d)) = map k (workers d)"
    if "\<And>w. w \<in> set (workers d) \<Longrightarrow> P w \<Longrightarrow> k (f w) = k w" for k :: "worker_row \<Rightarrow> string"
    using that by (simp add: sql_update_def)
  note keys = this
  {
    case 1
    then show ?case using keys [of w_id] st db_invD(1) [OF inv] by (simp add: worker_step_def)
  next
    case 2
    then show ?case
      using keys [of w_instance_id] st db_invD(2) [OF inv] by (simp add: worker_step_def)
  next
    case 3
    then show ?case using db_invD(3) [OF inv] by simp
  next
    case (4 w)
    then show ?case using db_invD(4) [OF inv] ok by (auto simp: in_sql_update)
  next
    case (5 j)
    then show ?case using db_invD(5) [OF inv] by simp
  next
    case (6 j)
    then have "owner_ok (workers d) j" using db_invD(6) [OF inv] by simp
    then have "owner_ok (sql_update P f (workers d)) j"
    proof (rule owner_ok_mono)
      fix w
      assume w: "w \<in> set (workers d)" "w_status w \<noteq> DEAD"
      then have "(if P w then f w else w) \<in> set (sql_update P f (workers d))"
        by (auto simp: in_sql_update)
      then show "\<exists>w'\<in>set (sql_update P f (workers d)).
                   w_id w' = w_id w \<and> w_status w' \<noteq> DEAD \<and> w_epoch w \<le> w_epoch w'"
        using st [OF w(1)] w(2) by (auto simp: worker_step_def split: if_splits)
    qed
    then show ?case by simp
  next
    case 7
    then show ?case using db_invD(7) [OF inv] by simp
  }
qed

lemma db_inv_update_jobs:
  assumes inv: "db_inv d"
    and st: "\<And>j. j \<in> set (jobs d) \<Longrightarrow> P j \<Longrightarrow> job_ok j \<Longrightarrow> owner_ok (workers d) j \<Longrightarrow>
               j_id (f j) = j_id j \<and> job_ok (f j) \<and> owner_ok (workers d) (f j)"
  shows "db_inv (d\<lparr>jobs := sql_update P f (jobs d)\<rparr>)"
proof (rule db_invI)
  have "map j_id (sql_update P f (jobs d)) = map j_id (jobs d)"
    using st db_invD(5,6) [OF inv] by (simp add: sql_update_def)
  then show "distinct (map j_id (jobs (d\<lparr>jobs := sql_update P f (jobs d)\<rparr>)))"
    using db_invD(3) [OF inv] by simp
qed (use db_invD [OF inv] st in \<open>auto simp: in_sql_update\<close>)

lemma db_inv_events [simp]: "db_inv (d\<lparr>worker_events := es\<rparr>) \<longleftrightarrow> db_inv d"
  by (simp add: db_inv_def)

lemma db_inv_history: "db_inv d \<Longrightarrow> history_ok h \<Longrightarrow> db_inv (d\<lparr>job_retry_history := h\<rparr>)"
  by (simp add: db_inv_def)

lemma insert_retry_history_Inr:
  "insert_retry_history r d = Inr (u, d') \<Longrightarrow>
     d' = d\<lparr>job_retry_history := job_retry_history d @ [r]\<rparr>"
  by (auto simp: insert_retry_history_def split: if_splits)

lemma insert_retry_history_ok:
  assumes "insert_retry_history r d = Inr (u, d')" and "history_ok (job_retry_history d)"
    and "r_attempt_number r =
           int (rows_affected (\<lambda>h. r_job_id h = r_job_id r) (job_retry_history d)) + 1"
  shows "history_ok (job_retry_history d')"
  using insert_retry_history_Inr [OF assms(1)] history_ok_snoc [OF assms(2)] assms(3)
  by (simp add: rows_affected_attempts)

section \<open>The worker store\<close>

lemmas set_defs = set_updated_at_def worker_step_def worker_ok_def

lemma UpdateHeartbeat_stmt_inv:
  assumes "db_inv d" and "UpdateHeartbeat_stmt now wid epoch st jid jca d = Inr (b, d')"
    and "st \<noteq> ''DEAD''"
  shows "db_inv d'"
proof -
  from assms(2) obtain s where s: "to_worker_status st = Some s"
    and d': "d' = d\<lparr>workers := sql_update (UpdateHeartbeat_where (wid, epoch, s, jid, jca, now))
                 (UpdateHeartbeat_set (wid, epoch, s, jid, jca, now)) (workers d)\<rparr>"
    by (auto simp: UpdateHeartbeat_stmt_def Let_def split: option.splits)
  have "s \<noteq> DEAD"
    using s assms(3) by (auto simp: to_worker_status_def find_Some_iff)
  then show ?thesis
    unfolding d' by (intro db_inv_update_workers [OF assms(1)]) (auto simp: set_defs)
qed

lemma UpdateHeartbeat_inv:
  assumes "db_inv d" and "st \<noteq> ''DEAD''"
  shows "db_inv (snd (UpdateHeartbeat flt now wid epoch st cur d))"
  unfolding UpdateHeartbeat_def
  by (auto split: option.splits sum.splits intro!: exec_invariant [of db_inv] assms(1)
      intro: UpdateHeartbeat_stmt_inv [OF assms(1) _ assms(2)])

lemma Register_upsert_inv:
  assumes inv: "db_inv d" and up: "Register_upsert now uuid p d = Inr (r, d')"
  shows "db_inv d'"
proof (cases "sql_first (Register_conflict_where (p, now)) (workers d)")
  case None
  with up have ok: "0 < rp_CPUCores p" "0 < rp_MemoryMB p" "0 < rp_CapacitySlots p"
    and fresh: "\<forall>w\<in>set (workers d). w_id w \<noteq> uuid"
    and d': "d' = d\<lparr>workers := workers d @ [Register_insert_row now uuid p]\<rparr>"
    by (auto simp: Register_upsert_def list_ex_iff split: if_splits)
  have "owner_ok (workers d @ [w]) j" if "owner_ok (workers d) j" for w j
    using that by (rule owner_ok_mono) auto
  then show ?thesis
    using db_invD [OF inv] fresh None ok unfolding d'
    by (intro db_invI) (auto simp: Register_insert_row_def worker_ok_def max_int64_def sql_first_None)
next
  case (Some w0)
  with up have ok: "0 < rp_CPUCores p" "0 < rp_MemoryMB p" "0 < rp_CapacitySlots p"
    and room: "w_epoch w0 + 1 \<le> max_int64"
    and d': "d' = d\<lparr>workers := sql_update (Register_conflict_where (p, now))
                     (Register_conflict_set (p, now)) (workers d)\<rparr>"
    by (auto simp: Register_upsert_def split: if_splits)
  show ?thesis
    unfolding d'
  proof (rule db_inv_update_workers [OF inv])
    fix w
    assume w: "w \<in> set (workers d)" "Register_conflict_where (p, now) w" "worker_ok w"
    then have "w = w0"
      using sql_first_SomeD [OF Some] distinct_key_eq [OF db_invD(2) [OF inv], of w w0] by simp
    with w ok room show "worker_ok (Register_conflict_set (p, now) w)"
      by (simp add: set_defs)
  qed (simp add: set_defs)
qed

lemma Register_promote_inv:
  "db_inv d \<Longrightarrow> Register_promote now wid d = Inr (r, d') \<Longrightarrow> db_inv d'"
  by (auto simp: Register_promote_def set_defs intro!: db_inv_update_workers)

lemma Register_body_inv:
  assumes "db_inv d" and "Register_body flt now uuid p d = Inr (r, d')"
  shows "db_inv d'"
proof -
  from assms(2) obtain r1 d1 es where up: "Register_upsert now uuid p d = Inr (r1, d1)"
    and pr: "Register_promote now (rw_ID r1) (d1\<lparr>worker_events := es\<rparr>) = Inr ((), d')"
    by (auto simp: Register_body_def tx_bind_Inr in_tx_Inr insert_worker_event_def)
  from assms(1) up have "db_inv d1" by (rule Register_upsert_inv)
  then have "db_inv (d1\<lparr>worker_events := es\<rparr>)" by simp
  then show ?thesis using pr by (rule Register_promote_inv)
qed

lemma Register_inv: "db_inv d \<Longrightarrow> db_inv (snd (Register flt now uuid p d))"
  unfolding Register_def
  by (rule BeginFunc_invariant [of db_inv]) (auto intro: Register_body_inv)

lemma AssignJob_body_inv:
  assumes inv: "db_inv d" and b: "AssignJob_body flt (jid, jca, wid, epoch, now) d = Inr (r, d')"
  shows "db_inv d'"
proof -
  let ?a = "(jid, jca, wid, epoch, now)"
  let ?d1 = "d\<lparr>workers := sql_update (AssignWorker_where ?a) (AssignWorker_set ?a) (workers d)\<rparr>"
  have inv1: "db_inv ?d1"
    by (intro db_inv_update_workers [OF inv]) (auto simp: set_defs)
  show ?thesis
  proof (cases "rows_affected (AssignWorker_where ?a) (workers d) = 1")
    case False
    with b inv1 show ?thesis
      by (auto simp: AssignJob_body_def AssignWorker_update_def tx_bind_Inr in_tx_Inr split: if_splits)
  next
    case True
    then have "rows_affected (AssignWorker_where ?a) (workers d) \<noteq> 0" by simp
    then obtain w where w: "w \<in> set (workers d)" "AssignWorker_where ?a w"
      unfolding rows_affected_pos by blast
    then have w': "AssignWorker_set ?a w \<in> set (workers ?d1)"
      by (auto simp: in_sql_update)
    have own: "owner_ok (workers ?d1) (AssignJob_set ?a j)" for j
      using w' w db_invD(4) [OF inv w(1)]
      by (auto simp: owner_ok_def set_defs intro!: bexI [of _ "AssignWorker_set ?a w"])
    have "db_inv (?d1\<lparr>jobs := sql_update (AssignJob_where ?a) (AssignJob_set ?a) (jobs ?d1)\<rparr>)"
      using own by (intro db_inv_update_jobs [OF inv1]) (auto simp: job_ok_def active_def terminal_def)
    with b True show ?thesis
      by (auto simp: AssignJob_body_def AssignWorker_update_def AssignJob_update_def
          tx_bind_Inr in_tx_Inr split: if_splits)
  qed
qed

lemma AssignJob_snd:
  "snd (AssignJob flt now jid jca wid epoch d)
     = snd (BeginFunc flt (AssignJob_body flt (jid, jca, wid, epoch, now)) d)"
  by (auto simp: AssignJob_def split: prod.splits sum.splits pg_error.splits)

lemma AssignJob_inv: "db_inv d \<Longrightarrow> db_inv (snd (AssignJob flt now jid jca wid epoch d))"
  unfolding AssignJob_snd by (rule BeginFunc_invariant [of db_inv]) (auto dest: AssignJob_body_inv)

lemma FreeWorker_snd:
  "snd (FreeWorker flt now wid epoch d) = snd (exec flt S_free (FreeWorker_update (wid, epoch, now)) d)"
  by (auto simp: FreeWorker_def split: prod.splits sum.splits pg_error.splits)

lemma FreeWorker_inv: "db_inv d \<Longrightarrow> db_inv (snd (FreeWorker flt now wid epoch d))"
  unfolding FreeWorker_snd
  by (rule exec_invariant [of db_inv])
     (auto simp: FreeWorker_update_def set_defs split: option.splits intro!: db_inv_update_workers)

lemma RequestDrain_snd:
  "snd (RequestDrain flt now wid d) =
     snd (BeginFunc flt
           (tx_bind (in_tx flt S_drain (drain_update RequestDrain_set (wid, now))) (\<lambda>r.
            tx_bind (in_tx flt S_drain_event
                       (insert_worker_event (drain_event wid now ''DRAIN_REQUESTED'' r))) (\<lambda>_.
            tx_return r))) d)"
  by (auto simp: RequestDrain_def split: prod.splits sum.splits pg_error.splits)

lemma ResumeDrain_snd:
  "snd (ResumeDrain flt now wid d) =
     snd (BeginFunc flt
           (tx_bind (in_tx flt S_resume (drain_update ResumeDrain_set (wid, now))) (\<lambda>r.
            tx_bind (in_tx flt S_resume_event
                       (insert_worker_event (drain_event wid now ''DRAIN_RESUMED'' r))) (\<lambda>_.
            tx_return r))) d)"
  by (auto simp: ResumeDrain_def split: prod.splits sum.splits pg_error.splits)

lemma RequestDrain_inv: "db_inv d \<Longrightarrow> db_inv (snd (RequestDrain flt now wid d))"
  unfolding RequestDrain_snd
  by (rule BeginFunc_invariant [of db_inv])
     (auto simp: drain_update_def insert_worker_event_def tx_bind_Inr in_tx_Inr set_defs
       split: option.splits intro!: db_inv_update_workers)

lemma ResumeDrain_inv: "db_inv d \<Longrightarrow> db_inv (snd (ResumeDrain flt now wid d))"
  unfolding ResumeDrain_snd
  by (rule BeginFunc_invariant [of db_inv])
     (auto simp: drain_update_def insert_worker_event_def tx_bind_Inr in_tx_Inr set_defs
       split: option.splits intro!: db_inv_update_workers)

section \<open>MarkDeadAndRequeue\<close>

definition requeued :: "job_row \<Rightarrow> job_row" where
  "requeued j =
     j\<lparr>j_status := QUEUED, j_worker_id := None, j_assignment_epoch := None, j_started_at := None\<rparr>"

definition death_row :: "int \<Rightarrow> string \<Rightarrow> job_row \<Rightarrow> int \<Rightarrow> retry_row" where
  "death_row now wid j n =
     \<lparr>r_job_id = j_id j, r_job_created_at = j_created_at j, r_attempt_number = n,
      r_status = FAILED, r_worker_id = Some wid, r_error_message = Some ''worker_dead'',
      r_started_at = now, r_finished_at = Some now\<rparr>"

text \<open>What the loop does to the tables, whenever it gets through.\<close>

lemma requeue_jobs_effect:
  assumes "requeue_jobs flt now wid js d = Inr (u, d')"
  shows "workers d' = workers d \<and> worker_events d' = worker_events d \<and>
         jobs d' = sql_update (\<lambda>j. \<exists>k\<in>set js. j_id k = j_id j \<and> j_created_at k = j_created_at j)
                     requeued (jobs d) \<and>
         (\<exists>rows. job_retry_history d' = job_retry_history d @ rows \<and>
                 list_all2 (\<lambda>r k. \<exists>n. r = death_row now wid k n) rows js) \<and>
         (history_ok (job_retry_history d) \<longrightarrow> history_ok (job_retry_history d'))"
  using assms
proof (induction js arbitrary: d)
  case Nil
  then show ?case by (auto simp: tx_return_def intro: sql_update_id [symmetric])
next
  case (Cons k js)
  let ?d1 = "d\<lparr>jobs := sql_update (Requeue_where (j_id k, j_created_at k))
                         (Requeue_set (j_id k, j_created_at k)) (jobs d)\<rparr>"
  let ?n = "int (rows_affected (\<lambda>r. r_job_id r = j_id k) (job_retry_history d)) + 1"
  from Cons.prems obtain d2
    where ins: "insert_retry_history (death_row now wid k ?n) ?d1 = Inr ((), d2)"
      and rest: "requeue_jobs flt now wid js d2 = Inr (u, d')"
    by (auto simp: tx_bind_Inr in_tx_Inr Requeue_update_def next_attempt_def death_row_def)
  note d2 = insert_retry_history_Inr [OF ins]
  have hist: "history_ok (job_retry_history d2)" if "history_ok (job_retry_history d)"
    using insert_retry_history_ok [OF ins] that by (simp add: death_row_def)
  have "sql_update (\<lambda>j. \<exists>k\<in>set js. j_id k = j_id j \<and> j_created_at k = j_created_at j) requeued (jobs ?d1)
      = sql_update (\<lambda>j. \<exists>k\<in>set (k # js). j_id k = j_id j \<and> j_created_at k = j_created_at j)
          requeued (jobs d)"
    by (auto simp: sql_update_def requeued_def)
  moreover obtain rows where "job_retry_history d' = job_retry_history d2 @ rows"
    "list_all2 (\<lambda>r k. \<exists>n. r = death_row now wid k n) rows js"
    using Cons.IH [OF rest] by blast
  then have "job_retry_history d' = job_retry_history d @ (death_row now wid k ?n # rows) \<and>
      list_all2 (\<lambda>r k. \<exists>n. r = death_row now wid k n) (death_row now wid k ?n # rows) (k # js)"
    by (auto simp: d2)
  ultimately show ?case
    using Cons.IH [OF rest] hist by (simp add: d2)
qed

lemma jobs_held_all:
  assumes "distinct (map j_id (jobs d))" and "j \<in> set (jobs d)"
  shows "(\<exists>k\<in>set (filter (held_by wid) (jobs d)). j_id k = j_id j \<and> j_created_at k = j_created_at j)
           \<longleftrightarrow> held_by wid j"
  using assms distinct_key_eq [OF assms(1) _ assms(2)] by auto

text \<open>
  The whole body: either the guard missed and nothing changed, or the worker is dead and every
  job it held is queued again, in one step.
\<close>

definition dead_effect :: "int \<Rightarrow> string \<Rightarrow> int \<Rightarrow> db \<Rightarrow> db \<Rightarrow> bool" where
  "dead_effect now wid epoch d d' \<longleftrightarrow>
     workers d' = sql_update (MarkDead_where (wid, epoch, now)) (MarkDead_set (wid, epoch, now))
                    (workers d) \<and>
     jobs d' = sql_update (held_by wid) requeued (jobs d) \<and>
     (\<exists>rows. job_retry_history d' = job_retry_history d @ rows \<and>
             list_all2 (\<lambda>r k. \<exists>n. r = death_row now wid k n) rows (filter (held_by wid) (jobs d)))"

lemma MarkDeadAndRequeue_body_effect:
  assumes dist: "distinct (map j_id (jobs d))"
    and b: "MarkDeadAndRequeue_body flt now wid epoch d = Inr (u, d')"
  shows "(rows_affected (MarkDead_where (wid, epoch, now)) (workers d) = 0 \<and> d' = d) \<or>
         (rows_affected (MarkDead_where (wid, epoch, now)) (workers d) \<noteq> 0 \<and>
          dead_effect now wid epoch d d')"
    and "history_ok (job_retry_history d) \<Longrightarrow> history_ok (job_retry_history d')"
proof -
  let ?a = "(wid, epoch, now)"
  let ?d1 = "d\<lparr>workers := sql_update (MarkDead_where ?a) (MarkDead_set ?a) (workers d)\<rparr>"
  have "((rows_affected (MarkDead_where ?a) (workers d) = 0 \<and> d' = d) \<or>
         (rows_affected (MarkDead_where ?a) (workers d) \<noteq> 0 \<and> dead_effect now wid epoch d d')) \<and>
        (history_ok (job_retry_history d) \<longrightarrow> history_ok (job_retry_history d'))"
  proof (cases "rows_affected (MarkDead_where ?a) (workers d) = 0")
    case True
    then have "?d1 = d" by (simp add: sql_update_none)
    with b True show ?thesis
      by (simp add: MarkDeadAndRequeue_body_def MarkDead_update_def tx_bind_Inr in_tx_Inr)
  next
    case False
    with b obtain d2 es
      where loop: "requeue_jobs flt now wid (filter (held_by wid) (jobs d)) ?d1 = Inr ((), d2)"
        and d': "d' = d2\<lparr>worker_events := es\<rparr>"
      by (auto simp: MarkDeadAndRequeue_body_def MarkDead_update_def jobs_held_def
            insert_worker_event_def tx_bind_Inr in_tx_Inr)
    have "sql_update (\<lambda>j. \<exists>k\<in>set (filter (held_by wid) (jobs d)).
              j_id k = j_id j \<and> j_created_at k = j_created_at j) requeued (jobs d)
          = sql_update (held_by wid) requeued (jobs d)"
      unfolding sql_update_def
      by (rule map_cong [OF refl]) (simp only: jobs_held_all [OF dist])
    with requeue_jobs_effect [OF loop] False show ?thesis
      by (simp add: d' dead_effect_def)
  qed
  then show "(rows_affected (MarkDead_where ?a) (workers d) = 0 \<and> d' = d) \<or>
         (rows_affected (MarkDead_where ?a) (workers d) \<noteq> 0 \<and> dead_effect now wid epoch d d')"
    and "history_ok (job_retry_history d) \<Longrightarrow> history_ok (job_retry_history d')"
    by blast+
qed

lemma MarkDead_set_ok: "worker_ok w \<Longrightarrow> worker_ok (MarkDead_set a w)"
  by (cases a) (simp add: set_defs)

lemma requeued_not_active [simp]: "owner_ok ws (requeued j)"
  by (simp add: owner_ok_def active_def requeued_def)

lemma requeued_ok: "job_ok j \<Longrightarrow> active j \<Longrightarrow> job_ok (requeued j)"
  by (cases "j_status j") (simp_all add: requeued_def job_ok_def active_def terminal_def)

lemma dead_effect_inv:
  assumes inv: "db_inv d" and eff: "dead_effect now wid epoch d d'"
    and hist: "history_ok (job_retry_history d')"
  shows "db_inv d'"
proof -
  let ?a = "(wid, epoch, now)"
  from eff have ws: "workers d' = sql_update (MarkDead_where ?a) (MarkDead_set ?a) (workers d)"
    and js: "jobs d' = sql_update (held_by wid) requeued (jobs d)"
    by (auto simp: dead_effect_def)
  have own: "owner_ok (workers d') j" if j: "j \<in> set (jobs d)" "\<not> held_by wid j" for j
  proof (cases "active j")
    case True
    from db_invD(6) [OF inv j(1)] True obtain w where w: "w \<in> set (workers d)"
      "j_worker_id j = Some (w_id w)" "w_status w \<noteq> DEAD"
      "\<exists>e. j_assignment_epoch j = Some e \<and> 1 \<le> e \<and> e \<le> w_epoch w"
      by (auto simp: owner_ok_def)
    then have "w_id w \<noteq> wid" using j(2) True by (auto simp: held_by_def)
    then have "w \<in> set (workers d')"
      unfolding ws using w(1) dead_w.other_rows_kept [of w ?a "workers d"] by simp
    with w show ?thesis by (auto simp: owner_ok_def)
  qed (simp add: owner_ok_def)
  show ?thesis
  proof (rule db_invI)
    show "distinct (map w_id (workers d'))"
      unfolding ws dead_w.keys_kept by (rule db_invD(1) [OF inv])
    show "distinct (map w_instance_id (workers d'))"
      unfolding ws using db_invD(2) [OF inv] by (subst map_sql_update) (auto simp: set_updated_at_def)
    show "distinct (map j_id (jobs d'))"
      unfolding js using db_invD(3) [OF inv] by (subst map_sql_update) (auto simp: requeued_def)
    show "worker_ok w" if "w \<in> set (workers d')" for w
      using that db_invD(4) [OF inv] by (auto simp: ws in_sql_update MarkDead_set_ok simp del: MarkDead_set.simps)
    show "job_ok j" if "j \<in> set (jobs d')" for j
      using that db_invD(5) [OF inv]
      by (auto simp: js in_sql_update held_by_def requeued_ok)
    show "owner_ok (workers d') j" if "j \<in> set (jobs d')" for j
      using that own by (auto simp: js in_sql_update)
  qed (fact hist)
qed

lemma MarkDeadAndRequeue_inv: "db_inv d \<Longrightarrow> db_inv (snd (MarkDeadAndRequeue flt now wid epoch d))"
  unfolding MarkDeadAndRequeue_def
proof (rule BeginFunc_invariant [of db_inv])
  fix u d'
  assume inv: "db_inv d" and b: "MarkDeadAndRequeue_body flt now wid epoch d = Inr (u, d')"
  show "db_inv d'"
    using MarkDeadAndRequeue_body_effect [OF db_invD(3) [OF inv] b] db_invD(7) [OF inv] inv
    by (auto intro: dead_effect_inv)
qed

section \<open>The job store\<close>

lemma JobStore_Create_inv:
  assumes inv: "db_inv d" and "cj_MaxRetries p < max_int32"
    and fresh: "\<And>j. j \<in> set (jobs d) \<Longrightarrow> j_id j \<noteq> uuid"
  shows "db_inv (snd (JobStore_Create flt now uuid p d))"
proof -
  have "db_inv d'" if ins: "Create_insert now uuid (Create_defaults p) d = Inr (j, d')" for j d'
  proof -
    let ?r = "Create_row now uuid (Create_defaults p)"
    from ins have d': "d' = d\<lparr>jobs := jobs d @ [?r]\<rparr>" and prio: "0 \<le> j_priority ?r" "j_priority ?r \<le> 9"
      by (auto simp: Create_insert_def Let_def Create_row_def split: if_splits)
    have r: "job_ok ?r" "owner_ok (workers d) ?r" "j_id ?r = uuid"
      using prio assms(2) by (auto simp: Create_row_def Create_defaults_def job_ok_def
          owner_ok_def active_def terminal_def max_int32_def)
    show ?thesis
      unfolding d' by (rule db_invI) (use db_invD [OF inv] r fresh in auto)
  qed
  then have "db_inv (snd (exec flt S_create_insert (Create_insert now uuid (Create_defaults p)) d))"
    by (intro exec_invariant [of db_inv] inv)
  with inv show ?thesis
    by (auto simp: JobStore_Create_def Let_def split: prod.splits sum.splits pg_error.splits)
qed

lemmas job_defs = job_ok_def owner_ok_def active_def terminal_def

lemma MarkRunning_inv: "db_inv d \<Longrightarrow> db_inv (snd (MarkRunning flt now jid epoch d))"
  unfolding MarkRunning_def
  by (rule exec_invariant [of db_inv])
     (auto simp: Let_def job_defs intro!: db_inv_update_jobs)

lemma Complete_inv:
  assumes "db_inv d" and "st \<in> {''SUCCESS'', ''FAILED'', ''CANCELLED''}"
  shows "db_inv (snd (Complete flt now jid jca epoch st logRef d))"
proof -
  obtain s where s: "to_job_status st = Some s" "s \<in> {SUCCESS, FAILED, CANCELLED}"
    using assms(2) by (auto simp: to_job_status_def all_job_statuses_def)
  show ?thesis
    unfolding Complete_def
    by (rule exec_invariant [of db_inv])
       (use s assms(1) in \<open>auto simp: Let_def job_defs intro!: db_inv_update_jobs\<close>)
qed

text \<open>The job a failure report names, and what the report makes of it.\<close>

definition reported :: "string \<Rightarrow> int \<Rightarrow> int \<Rightarrow> job_row \<Rightarrow> bool" where
  "reported jid jca epoch j \<longleftrightarrow>
     j_id j = jid \<and> j_created_at j = jca \<and> j_assignment_epoch j = Some epoch \<and> active j"

definition fail_set :: "int \<Rightarrow> int \<Rightarrow> string option \<Rightarrow> job_row \<Rightarrow> job_row" where
  "fail_set now goNow logRef j =
     (let n = to_int32 (j_retries j + 1)
      in if n \<le> j_max_retries j then Retrying_set n (goNow + retryBackoff n) j
         else Failed_set now logRef j)"

definition retry_row_of :: "int \<Rightarrow> string \<Rightarrow> int \<Rightarrow> int \<Rightarrow> string option \<Rightarrow> string \<Rightarrow> retry_row" where
  "retry_row_of now jid jca n workerID errorMessage =
     \<lparr>r_job_id = jid, r_job_created_at = jca, r_attempt_number = n, r_status = FAILED,
      r_worker_id = workerID, r_error_message = nonempty errorMessage,
      r_started_at = now, r_finished_at = Some now\<rparr>"

lemma Retry_lookup_reported:
  "Retry_lookup jid jca epoch d =
     Inr (map_option (\<lambda>j. (j_retries j, j_max_retries j)) (sql_first (reported jid jca epoch) (jobs d)), d)"
  by (simp add: Retry_lookup_def reported_def [abs_def])

lemma RetryOrFail_body_effect:
  assumes dist: "distinct (map j_id (jobs d))"
    and b: "RetryOrFail_body flt now goNow jid jca epoch wid msg logRef d = Inr ((st, ok), d')"
  shows "(\<not> ok \<and> st = '''' \<and> d' = d \<and> (\<forall>j\<in>set (jobs d). \<not> reported jid jca epoch j)) \<or>
         (ok \<and> (\<exists>j0\<in>set (jobs d). reported jid jca epoch j0 \<and>
                  st = job_status_str (j_status (fail_set now goNow (nonempty logRef) j0))) \<and>
          insert_retry_history
            (retry_row_of now jid jca
               (int (rows_affected (\<lambda>r. r_job_id r = jid) (job_retry_history d)) + 1) wid msg)
            (d\<lparr>jobs := sql_update (reported jid jca epoch) (fail_set now goNow (nonempty logRef)) (jobs d)\<rparr>)
            = Inr ((), d'))"
proof (cases "sql_first (reported jid jca epoch) (jobs d)")
  case None
  with b show ?thesis
    by (auto simp: RetryOrFail_body_def Retry_lookup_reported tx_bind_Inr in_tx_Inr sql_first_None)
next
  case (Some j0)
  note j0 = sql_first_SomeD [OF Some]
  have upd: "sql_update (Retry_row_where (jid, jca)) f (jobs d)
      = sql_update (reported jid jca epoch) (fail_set now goNow (nonempty logRef)) (jobs d)"
    if f: "f j0 = fail_set now goNow (nonempty logRef) j0" for f
    unfolding sql_update_def
  proof (rule map_cong [OF refl])
    fix j
    assume j: "j \<in> set (jobs d)"
    have eq: "j = j0" if "j_id j = jid"
      using distinct_key_eq [OF dist j, of j0] j0 that by (simp add: reported_def)
    have "Retry_row_where (jid, jca) j \<longleftrightarrow> reported jid jca epoch j"
      using eq j0 by (auto simp: reported_def)
    moreover have "f j = fail_set now goNow (nonempty logRef) j" if "reported jid jca epoch j"
      using eq that f by (simp add: reported_def)
    ultimately show "(if Retry_row_where (jid, jca) j then f j else j)
        = (if reported jid jca epoch j then fail_set now goNow (nonempty logRef) j else j)" by simp
  qed
  let ?n = "to_int32 (j_retries j0 + 1)"
  have lk: "Retry_lookup jid jca epoch d = Inr (Some (j_retries j0, j_max_retries j0), d)"
    using Some by (simp add: Retry_lookup_reported)
  show ?thesis
  proof (cases "?n \<le> j_max_retries j0")
    case True
    show ?thesis
      using b j0 True upd [of "Retrying_set ?n (goNow + retryBackoff ?n)"]
      by (auto simp: RetryOrFail_body_def lk tx_bind_Inr in_tx_Inr Let_def next_attempt_def
          Retry_update_def retry_row_of_def fail_set_def intro!: bexI [of _ j0])
  next
    case False
    show ?thesis
      using b j0 False upd [of "Failed_set now (nonempty logRef)"]
      by (auto simp: RetryOrFail_body_def lk tx_bind_Inr in_tx_Inr Let_def next_attempt_def
          Retry_update_def retry_row_of_def fail_set_def intro!: bexI [of _ j0])
  qed
qed

lemma fail_set_ok:
  assumes "job_ok j" and "active j"
  shows "j_id (fail_set now goNow l j) = j_id j \<and> job_ok (fail_set now goNow l j) \<and>
         owner_ok ws (fail_set now goNow l j)"
proof -
  have n: "to_int32 (j_retries j + 1) = j_retries j + 1"
    using assms(1) by (simp add: job_ok_def max_int32_def)
  show ?thesis
  proof (cases "j_retries j + 1 \<le> j_max_retries j")
    case True
    then have "fail_set now goNow l j
        = Retrying_set (j_retries j + 1) (goNow + retryBackoff (j_retries j + 1)) j"
      by (simp add: fail_set_def n Let_def)
    with assms True show ?thesis by (cases "j_status j") (simp_all add: job_defs)
  next
    case False
    then have "fail_set now goNow l j = Failed_set now l j" by (simp add: fail_set_def n Let_def)
    with assms show ?thesis by (cases "j_status j") (simp_all add: job_defs)
  qed
qed

lemma RetryOrFail_inv:
  assumes inv: "db_inv d"
  shows "db_inv (snd (RetryOrFail flt now goNow jid jca epoch wid msg logRef d))"
  unfolding RetryOrFail_def
proof (rule BeginFunc_invariant [of db_inv, OF inv])
  fix a d'
  assume b: "RetryOrFail_body flt now goNow jid jca epoch wid msg logRef d = Inr (a, d')"
  obtain st ok where a: "a = (st, ok)" by (cases a)
  let ?d1 = "d\<lparr>jobs := sql_update (reported jid jca epoch) (fail_set now goNow (nonempty logRef)) (jobs d)\<rparr>"
  have inv1: "db_inv ?d1"
    using fail_set_ok by (intro db_inv_update_jobs [OF inv]) (auto simp: reported_def)
  show "db_inv d'"
  proof (cases ok)
    case False
    with RetryOrFail_body_effect [OF db_invD(3) [OF inv] b [unfolded a]] inv show ?thesis by auto
  next
    case True
    with RetryOrFail_body_effect [OF db_invD(3) [OF inv] b [unfolded a]]
    obtain n where ins: "insert_retry_history (retry_row_of now jid jca n wid msg) ?d1 = Inr ((), d')"
      and n: "n = int (rows_affected (\<lambda>r. r_job_id r = jid) (job_retry_history d)) + 1" by auto
    have "history_ok (job_retry_history d')"
      by (rule insert_retry_history_ok [OF ins]) (simp_all add: db_invD(7) [OF inv] retry_row_of_def n)
    with db_inv_history [OF inv1] show ?thesis
      unfolding insert_retry_history_Inr [OF ins] by simp
  qed
qed

lemma MarkQueuedFromRetry_inv: "db_inv d \<Longrightarrow> db_inv (snd (MarkQueuedFromRetry flt jid jca d))"
  unfolding MarkQueuedFromRetry_def
  by (rule exec_invariant [of db_inv]) (auto simp: job_defs intro!: db_inv_update_jobs)

end
