(* ===== verification/StoreSystem.thy ===== *)
theory StoreSystem
  imports StoreInvariant
begin

text \<open>
  The database as a shared object: the replicas of the scheduler and its background loops call
  the store operations in any order, each of them one transaction or one auto-committed
  statement, with any faults. \<open>store_step\<close> is one such call; the invariant \<open>db_inv\<close> holds in every
  reachable state, and a job moves only along the edges of its state machine.
\<close>

section \<open>Calls of the store\<close>

datatype store_op =
    OpRegister faults int string RegisterWorkerParams
  | OpHeartbeat faults int string int string "string option"
  | OpMarkDead faults int string int
  | OpAssign faults int string int string int
  | OpFree faults int string int
  | OpDrain faults int string
  | OpResume faults int string
  | OpCreate faults int string CreateJobParams
  | OpRunning faults int string int
  | OpComplete faults int string int int string string
  | OpRetryOrFail faults int int string int int "string option" string string
  | OpRequeueRetry faults string int

fun apply_op :: "store_op \<Rightarrow> db \<Rightarrow> db" where
  "apply_op (OpRegister flt now uuid p) d = snd (Register flt now uuid p d)"
| "apply_op (OpHeartbeat flt now wid epoch st cur) d = snd (UpdateHeartbeat flt now wid epoch st cur d)"
| "apply_op (OpMarkDead flt now wid epoch) d = snd (MarkDeadAndRequeue flt now wid epoch d)"
| "apply_op (OpAssign flt now jid jca wid epoch) d = snd (AssignJob flt now jid jca wid epoch d)"
| "apply_op (OpFree flt now wid epoch) d = snd (FreeWorker flt now wid epoch d)"
| "apply_op (OpDrain flt now wid) d = snd (RequestDrain flt now wid d)"
| "apply_op (OpResume flt now wid) d = snd (ResumeDrain flt now wid d)"
| "apply_op (OpCreate flt now uuid p) d = snd (JobStore_Create flt now uuid p d)"
| "apply_op (OpRunning flt now jid epoch) d = snd (MarkRunning flt now jid epoch d)"
| "apply_op (OpComplete flt now jid jca epoch st l) d = snd (Complete flt now jid jca epoch st l d)"
| "apply_op (OpRetryOrFail flt now goNow jid jca epoch wid msg l) d =
     snd (RetryOrFail flt now goNow jid jca epoch wid msg l d)"
| "apply_op (OpRequeueRetry flt jid jca) d = snd (MarkQueuedFromRetry flt jid jca d)"

text \<open>
  What the callers guarantee of the arguments: a worker agent never reports itself \<open>DEAD\<close>,
  \<open>ReportJobResult\<close> completes a job only with a terminal status, \<open>gen_random_uuid()\<close> is fresh, and
  \<open>max_retries\<close> fits an \<open>int32\<close> with room for one more.
\<close>

fun op_allowed :: "store_op \<Rightarrow> db \<Rightarrow> bool" where
  "op_allowed (OpHeartbeat flt now wid epoch st cur) d \<longleftrightarrow> st \<noteq> ''DEAD''"
| "op_allowed (OpComplete flt now jid jca epoch st l) d \<longleftrightarrow>
     st \<in> {''SUCCESS'', ''FAILED'', ''CANCELLED''}"
| "op_allowed (OpCreate flt now uuid p) d \<longleftrightarrow>
     cj_MaxRetries p < max_int32 \<and> list_all (\<lambda>j. j_id j \<noteq> uuid) (jobs d)"
| "op_allowed _ d \<longleftrightarrow> True"

inductive store_step :: "db \<Rightarrow> store_op \<Rightarrow> db \<Rightarrow> bool" where
  call: "op_allowed op d \<Longrightarrow> store_step d op (apply_op op d)"

inductive_simps store_step_iff: "store_step d op d'"

lemmas op_invs = Register_inv UpdateHeartbeat_inv MarkDeadAndRequeue_inv AssignJob_inv FreeWorker_inv
  RequestDrain_inv ResumeDrain_inv JobStore_Create_inv MarkRunning_inv Complete_inv RetryOrFail_inv
  MarkQueuedFromRetry_inv

lemma apply_op_inv:
  assumes "db_inv d" and "op_allowed op d"
  shows "db_inv (apply_op op d)"
  using assms by (cases op) (simp_all add: op_invs list_all_iff)

interpretation store: step_invariant "\<lambda>d. d = empty_db" store_step db_inv
  by unfold_locales (auto simp: db_inv_empty store_step_iff apply_op_inv)

section \<open>The state machine of a job\<close>

definition job_edge :: "job_status \<Rightarrow> job_status \<Rightarrow> bool" where
  "job_edge s s' \<longleftrightarrow>
     (s, s') \<in> {(QUEUED, ASSIGNED), (ASSIGNED, RUNNING), (RETRYING, QUEUED)} \<or>
     (s \<in> {ASSIGNED, RUNNING} \<and> s' \<in> {QUEUED, RETRYING, SUCCESS, FAILED, CANCELLED})"

definition same_job :: "job_row \<Rightarrow> job_row \<Rightarrow> bool" where
  "same_job j j' \<longleftrightarrow>
     j_id j' = j_id j \<and> j_created_at j' = j_created_at j \<and> j_priority j' = j_priority j \<and>
     j_repository j' = j_repository j \<and> j_branch j' = j_branch j \<and>
     j_commit_sha j' = j_commit_sha j \<and> j_labels j' = j_labels j \<and>
     j_required_capabilities j' = j_required_capabilities j \<and>
     j_max_retries j' = j_max_retries j \<and> j_idempotency_key j' = j_idempotency_key j"

definition job_step :: "job_row \<Rightarrow> job_row \<Rightarrow> bool" where
  "job_step j j' \<longleftrightarrow>
     j' = j \<or> (same_job j j' \<and> job_edge (j_status j) (j_status j') \<and> j_retries j \<le> j_retries j')"

definition jobs_evolve :: "db \<Rightarrow> db \<Rightarrow> bool" where
  "jobs_evolve d d' \<longleftrightarrow>
     (\<exists>js new. jobs d' = js @ new \<and> list_all2 job_step (jobs d) js \<and>
               (\<forall>j\<in>set new. j_status j = QUEUED \<and> j_retries j = 0))"

lemma jobs_evolve_refl: "jobs d' = jobs d \<Longrightarrow> jobs_evolve d d'"
  unfolding jobs_evolve_def
  by (rule exI [of _ "jobs d"], rule exI [of _ "[]"])
     (simp add: list_all2_refl job_step_def)

lemma jobs_evolve_update:
  assumes "jobs d' = sql_update P f (jobs d)"
    and "\<And>j. j \<in> set (jobs d) \<Longrightarrow> P j \<Longrightarrow> job_step j (f j)"
  shows "jobs_evolve d d'"
  unfolding jobs_evolve_def
  by (rule exI [of _ "jobs d'"], rule exI [of _ "[]"])
     (use assms in \<open>auto simp: sql_update_def list_all2_map2 list_all2_conv_all_nth job_step_def\<close>)

lemmas job_step_defs = job_step_def same_job_def job_edge_def active_def

lemma exec_same:
  assumes "\<And>a d'. m d = Inr (a, d') \<Longrightarrow> f d' = f d"
  shows "f (snd (exec flt s m d)) = f d"
  by (rule exec_invariant [of "\<lambda>x. f x = f d"]) (use assms in auto)

lemma BeginFunc_same:
  assumes "\<And>a d'. m d = Inr (a, d') \<Longrightarrow> f d' = f d"
  shows "f (snd (BeginFunc flt m d)) = f d"
  by (rule BeginFunc_invariant [of "\<lambda>x. f x = f d"]) (use assms in auto)

lemma worker_ops_jobs:
  "jobs (snd (Register flt now uuid p d)) = jobs d"
  "jobs (snd (UpdateHeartbeat flt now wid epoch st cur d)) = jobs d"
  "jobs (snd (FreeWorker flt now wid epoch d)) = jobs d"
  "jobs (snd (RequestDrain flt now wid d)) = jobs d"
  "jobs (snd (ResumeDrain flt now wid d)) = jobs d"
proof -
  show "jobs (snd (Register flt now uuid p d)) = jobs d"
    unfolding Register_def
    by (rule BeginFunc_same) (auto simp: Register_body_def Register_upsert_def Register_promote_def
        insert_worker_event_def tx_bind_Inr in_tx_Inr split: if_splits option.splits)
  show "jobs (snd (UpdateHeartbeat flt now wid epoch st cur d)) = jobs d"
    unfolding UpdateHeartbeat_def
    by (auto simp: UpdateHeartbeat_stmt_def Let_def split: option.splits sum.splits
        intro!: exec_same [where f = jobs])
  show "jobs (snd (FreeWorker flt now wid epoch d)) = jobs d"
    unfolding FreeWorker_snd
    by (rule exec_same) (auto simp: FreeWorker_update_def split: option.splits)
  show "jobs (snd (RequestDrain flt now wid d)) = jobs d"
    unfolding RequestDrain_snd
    by (rule BeginFunc_same) (auto simp: drain_update_def insert_worker_event_def tx_bind_Inr
        in_tx_Inr split: option.splits)
  show "jobs (snd (ResumeDrain flt now wid d)) = jobs d"
    unfolding ResumeDrain_snd
    by (rule BeginFunc_same) (auto simp: drain_update_def insert_worker_event_def tx_bind_Inr
        in_tx_Inr split: option.splits)
qed

text \<open>The assignment, when the body gets through: nothing, or both rows at once.\<close>

definition assigned :: "assign_args \<Rightarrow> db \<Rightarrow> db" where
  "assigned a d =
     d\<lparr>workers := sql_update (AssignWorker_where a) (AssignWorker_set a) (workers d),
       jobs := sql_update (AssignJob_where a) (AssignJob_set a) (jobs d)\<rparr>"

lemma AssignJob_body_effect:
  assumes "distinct (map w_id (workers d))" and "distinct (map j_id (jobs d))"
    and b: "AssignJob_body flt a d = Inr (ok, d')"
  shows "(\<not> ok \<and> d' = d \<and> (\<forall>w\<in>set (workers d). \<not> AssignWorker_where a w)) \<or>
         (ok \<and> d' = assigned a d \<and> (\<exists>w\<in>set (workers d). AssignWorker_where a w) \<and>
          (\<exists>j\<in>set (jobs d). AssignJob_where a j))"
proof (cases "\<exists>w\<in>set (workers d). AssignWorker_where a w")
  case True
  then have "rows_affected (AssignWorker_where a) (workers d) = 1"
    using assign_w.affected_1_iff [OF assms(1)] by blast
  with b True show ?thesis
    using assign_j_once.affected_1_iff [OF assms(2), of a]
    by (auto simp: AssignJob_body_def AssignWorker_update_def AssignJob_update_def assigned_def
        tx_bind_Inr in_tx_Inr split: if_splits prod.splits)
next
  case False
  then have n: "rows_affected (AssignWorker_where a) (workers d) = 0" by (simp add: rows_affected_0)
  with b False show ?thesis
    by (auto simp: AssignJob_body_def AssignWorker_update_def sql_update_none
        tx_bind_Inr in_tx_Inr split: if_splits prod.splits)
qed

lemma AssignJob_body_total:
  assumes "distinct (map w_id (workers d))" and "distinct (map j_id (jobs d))"
    and w: "w \<in> set (workers d)" "AssignWorker_where a w"
    and j: "j \<in> set (jobs d)" "AssignJob_where a j"
  shows "AssignJob_body no_faults a d = Inr (True, assigned a d)"
proof -
  have "rows_affected (AssignWorker_where a) (workers d) = 1"
    using assign_w.affected_1_iff [OF assms(1)] w by blast
  moreover have "rows_affected (AssignJob_where a) (jobs d) = 1"
    using assign_j_once.affected_1_iff [OF assms(2)] j by blast
  ultimately show ?thesis
    using j by (cases a) (auto simp: AssignJob_body_def AssignWorker_update_def AssignJob_update_def
        assigned_def tx_bind_def tx_return_def list_ex_iff)
qed

definition assignable :: "assign_args \<Rightarrow> db \<Rightarrow> bool" where
  "assignable a d \<longleftrightarrow> list_ex (AssignWorker_where a) (workers d) \<and> list_ex (AssignJob_where a) (jobs d)"

lemma AssignJob_outcome:
  assumes inv: "db_inv d" and r: "AssignJob flt now jid jca wid epoch d = (r, d')"
  shows "d' = d \<or> d' = assigned (jid, jca, wid, epoch, now) d \<and> assignable (jid, jca, wid, epoch, now) d"
    and "r = Inr True \<Longrightarrow>
           d' = assigned (jid, jca, wid, epoch, now) d \<and> assignable (jid, jca, wid, epoch, now) d"
    and "r = Inr False \<Longrightarrow> d' = d"
proof -
  let ?a = "(jid, jca, wid, epoch, now)"
  note eff = AssignJob_body_effect [OF db_invD(1,3) [OF inv], of flt ?a, folded list_ex_iff]
  have "(d' = d \<or> d' = assigned ?a d \<and> assignable ?a d) \<and>
        (r = Inr True \<longrightarrow> d' = assigned ?a d \<and> assignable ?a d) \<and> (r = Inr False \<longrightarrow> d' = d)"
  proof (rule BeginFunc_cases [of flt "AssignJob_body flt ?a" d])
    fix e
    assume "BeginFunc flt (AssignJob_body flt ?a) d = (Inl e, d)"
    then show ?thesis using r by (auto simp: AssignJob_def split: pg_error.splits)
  next
    fix ok d1
    assume "AssignJob_body flt ?a d = Inr (ok, d1)" "BeginFunc flt (AssignJob_body flt ?a) d = (Inr ok, d1)"
    then show ?thesis using r eff [of ok d1] by (auto simp: AssignJob_def assignable_def)
  next
    fix ok d1
    assume "AssignJob_body flt ?a d = Inr (ok, d1)"
      "BeginFunc flt (AssignJob_body flt ?a) d = (Inl Unavailable, d1)"
    then show ?thesis using r eff [of ok d1] by (auto simp: AssignJob_def assignable_def)
  qed
  then show "d' = d \<or> d' = assigned ?a d \<and> assignable ?a d"
    and "r = Inr True \<Longrightarrow> d' = assigned ?a d \<and> assignable ?a d"
    and "r = Inr False \<Longrightarrow> d' = d" by blast+
qed

lemma AssignJob_total:
  assumes "db_inv d" and "assignable (jid, jca, wid, epoch, now) d"
  shows "AssignJob no_faults now jid jca wid epoch d = (Inr True, assigned (jid, jca, wid, epoch, now) d)"
  using AssignJob_body_total [OF db_invD(1,3) [OF assms(1)]] assms(2)
  unfolding AssignJob_def assignable_def list_ex_iff by auto

lemma AssignJob_evolve:
  assumes "db_inv d"
  shows "jobs_evolve d (snd (AssignJob flt now jid jca wid epoch d))"
  unfolding AssignJob_snd
proof (rule BeginFunc_invariant [of "jobs_evolve d"])
  fix ok d'
  assume "AssignJob_body flt (jid, jca, wid, epoch, now) d = Inr (ok, d')"
  from AssignJob_body_effect [OF db_invD(1,3) [OF assms] this] show "jobs_evolve d d'"
  proof (elim disjE conjE)
    assume "d' = assigned (jid, jca, wid, epoch, now) d"
    then show ?thesis
      by (intro jobs_evolve_update [of d' "AssignJob_where (jid, jca, wid, epoch, now)"])
         (auto simp: assigned_def job_step_defs)
  qed (simp add: jobs_evolve_refl)
qed (simp add: jobs_evolve_refl)

text \<open>Nothing in the loop can fail on its own: under the invariant only a fault stops it.\<close>

lemma requeue_jobs_total:
  assumes "history_ok (job_retry_history d)" and "wid \<in> w_id ` set (workers d)"
    and "\<And>k. k \<in> set js \<Longrightarrow> \<exists>j\<in>set (jobs d). j_id j = j_id k \<and> j_created_at j = j_created_at k"
  shows "\<exists>d'. requeue_jobs no_faults now wid js d = Inr ((), d')"
  using assms
proof (induction js arbitrary: d)
  case Nil
  then show ?case by (simp add: tx_return_def)
next
  case (Cons k js)
  let ?n = "int (rows_affected (\<lambda>r. r_job_id r = j_id k) (job_retry_history d)) + 1"
  let ?d1 = "d\<lparr>jobs := sql_update (Requeue_where (j_id k, j_created_at k))
                         (Requeue_set (j_id k, j_created_at k)) (jobs d)\<rparr>"
  let ?d2 = "?d1\<lparr>job_retry_history := job_retry_history d @ [death_row now wid k ?n]\<rparr>"
  have keep: "\<exists>j\<in>set (jobs ?d1). j_id j = j_id x \<and> j_created_at j = j_created_at x"
    if "x \<in> set (k # js)" for x
  proof -
    from Cons.prems(3) [OF that]
    obtain j where "j \<in> set (jobs d)" "j_id j = j_id x" "j_created_at j = j_created_at x" by blast
    then have "(j_id x, j_created_at x) \<in> (\<lambda>j. (j_id j, j_created_at j)) ` set (jobs d)"
      by (auto intro!: rev_image_eqI [of j])
    also have "\<dots> = (\<lambda>j. (j_id j, j_created_at j)) ` set (jobs ?d1)"
      using requeue_j.keys_image [of "(j_id k, j_created_at k)" "jobs d"] by simp
    finally show ?thesis by (elim imageE) (metis prod.inject)
  qed
  obtain j where j: "j \<in> set (jobs ?d1)" "j_id j = j_id k" "j_created_at j = j_created_at k"
    using keep [of k] by auto
  have rec: "insert_retry_history (death_row now wid k ?n) ?d1 = Inr ((), ?d2)"
    and hist: "history_ok (job_retry_history ?d2)"
    using record_attempt [of ?d1 "death_row now wid k ?n" j] Cons.prems(1,2) j
    by (auto simp: death_row_def)
  from Cons.IH [of ?d2] hist Cons.prems(2) keep
  obtain d' where "requeue_jobs no_faults now wid js ?d2 = Inr ((), d')" by auto
  then show ?case
    using rec by (auto simp: tx_bind_def Requeue_update_def next_attempt_def death_row_def)
qed

lemma MarkDeadAndRequeue_total:
  assumes inv: "db_inv d" and w: "w \<in> set (workers d)" "MarkDead_where (wid, epoch, now) w"
  obtains d' where "MarkDeadAndRequeue no_faults now wid epoch d = (Inr (), d')"
    and "dead_effect now wid epoch d d'"
proof -
  let ?d1 = "d\<lparr>workers := sql_update (MarkDead_where (wid, epoch, now))
                            (MarkDead_set (wid, epoch, now)) (workers d)\<rparr>"
  let ?js = "filter (held_by wid) (jobs d)"
  have n: "rows_affected (MarkDead_where (wid, epoch, now)) (workers d) \<noteq> 0"
    using w by (auto simp: rows_affected_0)
  have "wid \<in> w_id ` set (workers ?d1)"
    using w dead_w.keys_image [of "(wid, epoch, now)" "workers d"] by auto
  then obtain d2 where d2: "requeue_jobs no_faults now wid ?js ?d1 = Inr ((), d2)"
    using requeue_jobs_total [of ?d1 wid ?js now] db_invD(7) [OF inv] by fastforce
  then have b: "\<exists>d'. MarkDeadAndRequeue_body no_faults now wid epoch d = Inr ((), d')"
    using n by (simp add: MarkDeadAndRequeue_body_def MarkDead_update_def jobs_held_def
        insert_worker_event_def tx_bind_def)
  then obtain d' where d': "MarkDeadAndRequeue_body no_faults now wid epoch d = Inr ((), d')" ..
  have "MarkDeadAndRequeue no_faults now wid epoch d = (Inr (), d')"
    using d' by (simp add: MarkDeadAndRequeue_def)
  moreover have "dead_effect now wid epoch d d'"
    using MarkDeadAndRequeue_body_effect(1) [OF db_invD(3) [OF inv] d'] n by auto
  ultimately show thesis by (rule that)
qed

lemma MarkDeadAndRequeue_outcome:
  assumes "db_inv d" and "MarkDeadAndRequeue flt now wid epoch d = (r, d')"
  shows "d' = d \<or> dead_effect now wid epoch d d' \<and> (\<exists>w\<in>set (workers d). MarkDead_where (wid, epoch, now) w)"
    and "r = Inr () \<Longrightarrow> \<exists>w\<in>set (workers d). MarkDead_where (wid, epoch, now) w \<Longrightarrow>
           dead_effect now wid epoch d d'"
proof -
  let ?b = "MarkDeadAndRequeue_body flt now wid epoch"
  note eff = MarkDeadAndRequeue_body_effect(1) [OF db_invD(3) [OF assms(1)], of flt now wid epoch,
      unfolded rows_affected_pos rows_affected_0]
  have "(d' = d \<or> dead_effect now wid epoch d d' \<and> (\<exists>w\<in>set (workers d). MarkDead_where (wid, epoch, now) w)) \<and>
    (r = Inr () \<longrightarrow> (\<exists>w\<in>set (workers d). MarkDead_where (wid, epoch, now) w) \<longrightarrow>
       dead_effect now wid epoch d d')"
    by (rule BeginFunc_cases [of flt ?b d]) (use assms(2) eff in \<open>auto simp: MarkDeadAndRequeue_def\<close>)
  then show "d' = d \<or> dead_effect now wid epoch d d' \<and> (\<exists>w\<in>set (workers d). MarkDead_where (wid, epoch, now) w)"
    and "r = Inr () \<Longrightarrow> \<exists>w\<in>set (workers d). MarkDead_where (wid, epoch, now) w \<Longrightarrow>
           dead_effect now wid epoch d d'" by blast+
qed

lemma MarkDeadAndRequeue_evolve:
  assumes "db_inv d"
  shows "jobs_evolve d (snd (MarkDeadAndRequeue flt now wid epoch d))"
  unfolding MarkDeadAndRequeue_def
proof (rule BeginFunc_invariant [of "jobs_evolve d"])
  fix u d'
  assume "MarkDeadAndRequeue_body flt now wid epoch d = Inr (u, d')"
  from MarkDeadAndRequeue_body_effect(1) [OF db_invD(3) [OF assms] this] show "jobs_evolve d d'"
  proof (elim disjE conjE)
    assume "dead_effect now wid epoch d d'"
    then show ?thesis
      by (intro jobs_evolve_update [of d' "held_by wid" requeued])
         (auto simp: dead_effect_def job_step_defs held_by_def requeued_def)
  qed (simp add: jobs_evolve_refl)
qed (simp add: jobs_evolve_refl)

lemma JobStore_Create_evolve: "jobs_evolve d (snd (JobStore_Create flt now uuid p d))"
proof -
  have new: "jobs_evolve d (d\<lparr>jobs := jobs d @ [Create_row now uuid q]\<rparr>)" for q
    unfolding jobs_evolve_def
    by (rule exI [of _ "jobs d"], rule exI [of _ "[Create_row now uuid q]"])
       (simp add: list_all2_refl job_step_def Create_row_def)
  have "jobs_evolve d (snd (exec flt S_create_insert (Create_insert now uuid q) d))" for q
    by (rule exec_invariant [of "jobs_evolve d"])
       (auto simp: jobs_evolve_refl Create_insert_def Let_def new split: if_splits)
  then show ?thesis
    by (auto simp: JobStore_Create_def Let_def jobs_evolve_refl
        split: prod.splits sum.splits pg_error.splits) (metis snd_conv)+
qed

lemma MarkRunning_evolve: "jobs_evolve d (snd (MarkRunning flt now jid epoch d))"
  unfolding MarkRunning_def
  by (rule exec_invariant [of "jobs_evolve d"])
     (auto simp: jobs_evolve_refl Let_def job_step_defs
       intro!: jobs_evolve_update [of _ "MarkRunning_where (jid, epoch, now)"])

lemma Complete_evolve:
  assumes "st \<in> {''SUCCESS'', ''FAILED'', ''CANCELLED''}"
  shows "jobs_evolve d (snd (Complete flt now jid jca epoch st l d))"
proof -
  obtain s where s: "to_job_status st = Some s" "s \<in> {SUCCESS, FAILED, CANCELLED}"
    using assms by (auto simp: to_job_status_def all_job_statuses_def)
  show ?thesis
    unfolding Complete_def
    by (rule exec_invariant [of "jobs_evolve d"])
       (use s in \<open>auto simp: jobs_evolve_refl Let_def job_step_defs
         intro!: jobs_evolve_update [of _ "Complete_where (jid, jca, epoch, s, nonempty l, now)"
                   "Complete_set (jid, jca, epoch, s, nonempty l, now)"]\<close>)
qed

lemma fail_set_step: "job_ok j \<Longrightarrow> active j \<Longrightarrow> job_step j (fail_set now goNow l j)"
  by (auto simp: fail_set_def Let_def job_step_defs job_ok_def max_int32_def)

lemma RetryOrFail_evolve:
  assumes "db_inv d"
  shows "jobs_evolve d (snd (RetryOrFail flt now goNow jid jca epoch wid msg l d))"
  unfolding RetryOrFail_def
proof (rule BeginFunc_invariant [of "jobs_evolve d"])
  fix a d'
  assume b: "RetryOrFail_body flt now goNow jid jca epoch wid msg l d = Inr (a, d')"
  obtain st ok where a: "a = (st, ok)" by (cases a)
  from RetryOrFail_body_effect [OF db_invD(3) [OF assms] b [unfolded a]]
  consider "d' = d"
    | "jobs d' = sql_update (reported jid jca epoch) (fail_set now goNow (nonempty l)) (jobs d)"
    by (auto dest!: insert_retry_history_Inr)
  then show "jobs_evolve d d'"
  proof cases
    case 2
    then show ?thesis
      by (rule jobs_evolve_update) (auto simp: reported_def intro: fail_set_step db_invD(5) [OF assms])
  qed (simp add: jobs_evolve_refl)
qed (simp add: jobs_evolve_refl)

lemma MarkQueuedFromRetry_evolve: "jobs_evolve d (snd (MarkQueuedFromRetry flt jid jca d))"
  unfolding MarkQueuedFromRetry_def
  by (rule exec_invariant [of "jobs_evolve d"])
     (auto simp: jobs_evolve_refl job_step_defs
       intro!: jobs_evolve_update [of _ "MarkQueued_where (jid, jca)"])

lemmas op_evolves = worker_ops_jobs AssignJob_evolve MarkDeadAndRequeue_evolve JobStore_Create_evolve
  MarkRunning_evolve Complete_evolve RetryOrFail_evolve MarkQueuedFromRetry_evolve

lemma apply_op_evolve:
  assumes "db_inv d" and "op_allowed op d"
  shows "jobs_evolve d (apply_op op d)"
  using assms by (cases op) (simp_all add: op_evolves jobs_evolve_refl)

end
