(* ===== verification/ExampleData.thy ===== *)
theory ExampleData
  imports StoreInvariant
begin

text \<open>
  A small database and parameters on which the concrete instances of the theorems are evaluated,
  and the bundle of definitions that evaluates store calls.
\<close>

definition ex_worker :: worker_row where
  "ex_worker =
     \<lparr>w_id = ''w1'', w_hostname = ''h'', w_instance_id = ''i1'', w_os = ''linux'', w_cpu_cores = 4,
      w_memory_mb = 1024, w_labels = [], w_capabilities = [''docker''], w_status = READY,
      w_current_job_id = None, w_current_job_created_at = None, w_last_heartbeat = Some 0,
      w_version = ''1'', w_capacity_slots = 2, w_available_capacity = 2, w_epoch = 3,
      w_registered_at = 0, w_updated_at = 0, w_drain_requested = False\<rparr>"

definition ex_job :: job_row where
  "ex_job =
     \<lparr>j_id = ''j1'', j_priority = 5, j_repository = ''r'', j_branch = ''main'', j_commit_sha = ''c'',
      j_labels = [], j_required_capabilities = [''docker''], j_retries = 0, j_max_retries = 1,
      j_status = QUEUED, j_worker_id = None, j_assignment_epoch = None,
      j_idempotency_key = Some ''k1'', j_retry_at = None, j_log_ref = None, j_created_at = 7,
      j_started_at = None, j_finished_at = None\<rparr>"

definition ex_running :: job_row where
  "ex_running =
     ex_job\<lparr>j_id := ''j2'', j_status := RUNNING, j_worker_id := Some ''w1'',
            j_assignment_epoch := Some 3, j_idempotency_key := None, j_started_at := Some 8\<rparr>"

definition ex_db :: db where
  "ex_db = \<lparr>workers = [ex_worker], jobs = [ex_job, ex_running], job_retry_history = [],
            worker_events = []\<rparr>"

lemmas ex_defs = ex_db_def ex_worker_def ex_job_def ex_running_def

lemmas eval_defs = ex_defs tx_bind_def tx_return_def Let_def
  set_updated_at_def insert_worker_event_def insert_retry_history_def next_attempt_def active_def

lemma ex_db_inv [simp]: "db_inv ex_db"
  by (rule db_invI)
     (auto simp: ex_defs worker_ok_def job_ok_def owner_ok_def active_def terminal_def
       max_int32_def max_int64_def history_ok_def attempts_def)

definition ex_params :: RegisterWorkerParams where
  "ex_params = \<lparr>rp_Hostname = ''h'', rp_InstanceID = ''i1'', rp_OS = ''linux'', rp_CPUCores = 4,
     rp_MemoryMB = 512, rp_Labels = None, rp_Capabilities = None, rp_Version = ''2'',
     rp_CapacitySlots = 0\<rparr>"

definition ex_create :: CreateJobParams where
  "ex_create = \<lparr>cj_Priority = 5, cj_Repository = ''r'', cj_Branch = ''b'', cj_CommitSHA = ''c'',
     cj_Labels = None, cj_RequiredCapabilities = None, cj_MaxRetries = 0, cj_IdempotencyKey = ''k9''\<rparr>"

end
