(* ===== verification/StoreProperties.thy ===== *)
theory StoreProperties
  imports StoreSystem ExampleData
begin

text \<open>
  What the operations of the two stores promise their callers, over every state the invariant
  allows and every fault of the statements: atomicity, fencing, the single assignment of a job,
  retries, drain and resume, idempotent creation.
\<close>

section \<open>Assignment\<close>

text \<open>
  C4. \<open>AssignJob\<close> is atomic: whatever statements fail, the database is either untouched or has
  both the worker row and the job row of the assignment, the second only when the worker was
  \<open>READY\<close> with a free slot in exactly the epoch the caller saw and the job was \<open>QUEUED\<close>. A caller
  told \<open>true\<close> has the assignment, a caller told \<open>false\<close> has changed nothing, and without faults the
  answer is \<open>true\<close> exactly when those conditions hold.
\<close>

theorem AssignJob_atomic:
  assumes "db_inv d" and "AssignJob flt now jid jca wid epoch d = (r, d')"
  defines "a \<equiv> (jid, jca, wid, epoch, now)"
  defines "can \<equiv> (\<exists>w\<in>set (workers d). w_id w = wid \<and> w_epoch w = epoch \<and> w_status w = READY \<and>
                     0 < w_available_capacity w) \<and>
                 (\<exists>j\<in>set (jobs d). j_id j = jid \<and> j_created_at j = jca \<and> j_status j = QUEUED)"
  shows "(d' = d \<or> d' = assigned a d \<and> can) \<and>
         (r = Inr True \<longrightarrow> d' = assigned a d \<and> can) \<and>
         (r = Inr False \<longrightarrow> d' = d) \<and>
         (flt = no_faults \<longrightarrow> (r = Inr True \<longleftrightarrow> can))"
proof -
  have can: "can \<longleftrightarrow> assignable a d"
    by (auto simp: can_def a_def assignable_def list_ex_iff)
  show ?thesis
    using AssignJob_outcome [OF assms(1,2)] AssignJob_total [OF assms(1)] assms(2)
    unfolding can a_def by auto
qed

theorem AssignJob_atomic_witness:
  "db_inv ex_db \<and> fst (AssignJob no_faults 9 ''j1'' 7 ''w1'' 3 ex_db) = Inr True \<and>
   snd (AssignJob no_faults 9 ''j1'' 7 ''w1'' 3 ex_db) = assigned (''j1'', 7, ''w1'', 3, 9) ex_db"
proof -
  have r: "fst (AssignJob no_faults 9 ''j1'' 7 ''w1'' 3 ex_db) = Inr True"
    by (simp add: AssignJob_def AssignJob_body_def AssignWorker_update_def AssignJob_update_def eval_defs)
  then show ?thesis
    using AssignJob_atomic [of ex_db no_faults 9 "''j1''" 7 "''w1''" 3, OF ex_db_inv surjective_pairing]
      ex_db_inv by blast
qed

text \<open>
  C3. No job is assigned twice: once a call has returned \<open>true\<close>, every other call for the same
  job, for any worker, under any faults, is refused and changes nothing.
\<close>

theorem no_double_assignment:
  assumes "db_inv d" and "AssignJob flt now jid jca wid epoch d = (Inr True, d')"
  shows "fst (AssignJob flt' now' jid jca' wid' epoch' d') \<noteq> Inr True \<and>
         snd (AssignJob flt' now' jid jca' wid' epoch' d') = d'"
proof -
  let ?a = "(jid, jca, wid, epoch, now)"
  have d': "d' = assigned ?a d" and ok: "assignable ?a d"
    using AssignJob_outcome(2) [OF assms refl] by auto
  have inv': "db_inv d'" using AssignJob_inv [OF assms(1), of flt now jid jca wid epoch] assms(2) by simp
  from ok obtain j where j: "j \<in> set (jobs d)" "j_id j = jid" "AssignJob_where ?a j"
    by (auto simp: assignable_def list_ex_iff)
  then have "AssignJob_set ?a j \<in> set (jobs d')"
    unfolding d' assigned_def by (auto simp: in_sql_update)
  then have "x = AssignJob_set ?a j" if "x \<in> set (jobs d')" "j_id x = jid" for x
    using distinct_key_eq [OF db_invD(3) [OF inv'], of x "AssignJob_set ?a j"] that j(2) by simp
  then have "\<not> assignable (jid, jca', wid', epoch', now') d'"
    by (fastforce simp: assignable_def list_ex_iff)
  then show ?thesis
    using AssignJob_outcome [OF inv' surjective_pairing, of flt' now' jid jca' wid' epoch'] by blast
qed

theorem no_double_assignment_witness:
  "fst (AssignJob no_faults 9 ''j1'' 7 ''w1'' 3 ex_db) = Inr True \<and>
   snd (AssignJob no_faults 10 ''j1'' 7 ''w1'' 3 (snd (AssignJob no_faults 9 ''j1'' 7 ''w1'' 3 ex_db)))
     = snd (AssignJob no_faults 9 ''j1'' 7 ''w1'' 3 ex_db)"
proof -
  have r: "fst (AssignJob no_faults 9 ''j1'' 7 ''w1'' 3 ex_db) = Inr True"
    by (simp add: AssignJob_def AssignJob_body_def AssignWorker_update_def AssignJob_update_def eval_defs)
  then have "AssignJob no_faults 9 ''j1'' 7 ''w1'' 3 ex_db
      = (Inr True, snd (AssignJob no_faults 9 ''j1'' 7 ''w1'' 3 ex_db))" by (metis prod.collapse)
  from no_double_assignment [OF ex_db_inv this] r show ?thesis by blast
qed

section \<open>Dead workers\<close>

text \<open>
  C18. \<open>MarkDeadAndRequeue\<close> is all or nothing: under every fault the database is either unchanged or
  has the worker \<open>DEAD\<close>, every job it held back to \<open>QUEUED\<close> without owner, and one history row
  per such job. When the guard matches and the call returns nil the second is the case and the
  worker holds no job; and without faults the call does return nil: no constraint of the schema can
  stop it.
\<close>

theorem MarkDeadAndRequeue_all_or_nothing:
  assumes "db_inv d" and "MarkDeadAndRequeue flt now wid epoch d = (r, d')"
  defines "hit \<equiv> \<exists>w\<in>set (workers d). w_id w = wid \<and> w_epoch w = epoch \<and> w_status w \<notin> {OFFLINE, DEAD}"
  shows "(d' = d \<or> hit \<and> dead_effect now wid epoch d d') \<and>
         (hit \<longrightarrow> r = Inr () \<longrightarrow>
            dead_effect now wid epoch d d' \<and> (\<forall>j\<in>set (jobs d'). \<not> held_by wid j)) \<and>
         (flt = no_faults \<longrightarrow> r = Inr ())"
proof -
  have hit: "hit \<longleftrightarrow> (\<exists>w\<in>set (workers d). MarkDead_where (wid, epoch, now) w)"
    by (simp add: hit_def)
  have free: "\<forall>j\<in>set (jobs d'). \<not> held_by wid j" if "dead_effect now wid epoch d d'"
  proof -
    have "\<not> held_by wid (requeued j)" for j by (simp add: held_by_def requeued_def)
    with that show ?thesis unfolding dead_effect_def by (metis (full_types) in_sql_update)
  qed
  have nil: "r = Inr ()" if "flt = no_faults"
  proof (cases hit)
    case True
    then obtain w where w: "w \<in> set (workers d)" "MarkDead_where (wid, epoch, now) w"
      unfolding hit by blast
    obtain d2 where "MarkDeadAndRequeue no_faults now wid epoch d = (Inr (), d2)"
      using MarkDeadAndRequeue_total [OF assms(1) w] by blast
    with assms(2) that show ?thesis by simp
  next
    case False
    then have "rows_affected (MarkDead_where (wid, epoch, now)) (workers d) = 0"
      unfolding hit rows_affected_0 by blast
    then show ?thesis
      using assms(2) that
      by (simp add: MarkDeadAndRequeue_def MarkDeadAndRequeue_body_def MarkDead_update_def
          tx_bind_def tx_return_def)
  qed
  show ?thesis
    using MarkDeadAndRequeue_outcome [OF assms(1,2)] free nil unfolding hit by blast
qed

theorem MarkDeadAndRequeue_all_or_nothing_witness:
  "ex_worker \<in> set (workers ex_db) \<and> w_epoch ex_worker = 3 \<and>
   fst (MarkDeadAndRequeue no_faults 9 ''w1'' 3 ex_db) = Inr () \<and>
   dead_effect 9 ''w1'' 3 ex_db (snd (MarkDeadAndRequeue no_faults 9 ''w1'' 3 ex_db))"
proof -
  have w: "ex_worker \<in> set (workers ex_db)" "w_id ex_worker = ''w1''" "w_epoch ex_worker = 3"
    "w_status ex_worker \<notin> {OFFLINE, DEAD}"
    by (simp_all add: ex_defs)
  from MarkDeadAndRequeue_all_or_nothing
    [of ex_db no_faults 9 "''w1''" 3, OF ex_db_inv surjective_pairing] w
  show ?thesis by blast
qed

section \<open>Fencing\<close>

lemma workers_noop [simp]: "d\<lparr>workers := workers d\<rparr> = d"
  by simp

lemma UpdateHeartbeat_stale:
  assumes "\<And>w. w \<in> set (workers d) \<Longrightarrow> w_id w = wid \<Longrightarrow> w_epoch w \<noteq> epoch"
  shows "snd (UpdateHeartbeat flt now wid epoch st cur d) = d \<and>
         fst (UpdateHeartbeat flt now wid epoch st cur d) \<noteq> Inr True"
proof -
  have noop: "b = False \<and> d' = d"
    if "UpdateHeartbeat_stmt now wid epoch st jid jca d = Inr (b, d')" for jid jca b d'
    using that assms heartbeat_w.stale_none [of "workers d"] heartbeat_w.stale_is_noop [of "workers d"]
    by (auto simp: UpdateHeartbeat_stmt_def Let_def split: option.splits)
  have ex: "snd (exec flt s (UpdateHeartbeat_stmt now wid epoch st jid jca) d) = d \<and>
            fst (exec flt s (UpdateHeartbeat_stmt now wid epoch st jid jca) d) \<noteq> Inr True" for s jid jca
    by (rule exec_cases [of flt s "UpdateHeartbeat_stmt now wid epoch st jid jca" d])
       (use noop in auto)
  show ?thesis
    using ex by (auto simp: UpdateHeartbeat_def split: option.splits sum.splits)
qed

lemma FreeWorker_stale:
  assumes "\<And>w. w \<in> set (workers d) \<Longrightarrow> w_id w = wid \<Longrightarrow> w_epoch w \<noteq> epoch"
  shows "snd (FreeWorker flt now wid epoch d) = d \<and>
         (\<forall>cap st. fst (FreeWorker flt now wid epoch d) \<noteq> Inr (True, cap, st))"
proof -
  have "sql_first (FreeWorker_where (wid, epoch, now)) (workers d) = None"
    using assms by (auto simp: sql_first_None)
  then show ?thesis
    by (cases "flt S_free") (simp_all add: FreeWorker_def FreeWorker_update_def exec_def)
qed

text \<open>
  C15. Fencing. A caller that holds an epoch other than the worker's current one changes nothing in
  the database with any of the four epoch-guarded operations, and none of them tells it that it
  succeeded, whatever the faults.
\<close>

theorem stale_epoch_fenced:
  assumes "db_inv d" and "w \<in> set (workers d)" and "w_epoch w \<noteq> epoch"
  shows "snd (UpdateHeartbeat flt now (w_id w) epoch st cur d) = d \<and>
         fst (UpdateHeartbeat flt now (w_id w) epoch st cur d) \<noteq> Inr True \<and>
         snd (FreeWorker flt now (w_id w) epoch d) = d \<and>
         (\<forall>cap s. fst (FreeWorker flt now (w_id w) epoch d) \<noteq> Inr (True, cap, s)) \<and>
         snd (MarkDeadAndRequeue flt now (w_id w) epoch d) = d \<and>
         snd (AssignJob flt now jid jca (w_id w) epoch d) = d \<and>
         fst (AssignJob flt now jid jca (w_id w) epoch d) \<noteq> Inr True"
proof -
  have other: "w_epoch w' \<noteq> epoch" if "w' \<in> set (workers d)" "w_id w' = w_id w" for w'
    using distinct_key_eq [OF db_invD(1) [OF assms(1)] that(1) assms(2) that(2)] assms(3) by simp
  then have "\<not> (\<exists>w'\<in>set (workers d). MarkDead_where (w_id w, epoch, now) w')"
    and "\<not> assignable (jid, jca, w_id w, epoch, now) d"
    by (auto simp: assignable_def list_ex_iff)
  with UpdateHeartbeat_stale [of d "w_id w" epoch flt now st cur]
    FreeWorker_stale [of d "w_id w" epoch flt now]
    MarkDeadAndRequeue_outcome(1) [OF assms(1) surjective_pairing, of flt now "w_id w" epoch]
    AssignJob_outcome [OF assms(1) surjective_pairing, of flt now jid jca "w_id w" epoch] other
  show ?thesis by blast
qed

theorem stale_epoch_fenced_witness:
  "ex_worker \<in> set (workers ex_db) \<and> w_epoch ex_worker \<noteq> 2 \<and>
   snd (MarkDeadAndRequeue no_faults 9 (w_id ex_worker) 2 ex_db) = ex_db"
proof -
  have w: "ex_worker \<in> set (workers ex_db)" "w_epoch ex_worker \<noteq> 2" by (simp_all add: ex_defs)
  from stale_epoch_fenced [OF ex_db_inv this, of no_faults 9] w show ?thesis by blast
qed

section \<open>Registration\<close>

lemma Register_success:
  assumes "Register flt now uuid p d = (Inr r, d')"
  obtains d1 es where "Register_upsert now uuid (Register_defaults p) d = Inr (r, d1)"
    and "d' = d1\<lparr>worker_events := es,
                 workers := sql_update (Register_promote_where (rw_ID r, now))
                              (Register_promote_set (rw_ID r, now)) (workers d1)\<rparr>"
proof -
  have "Register_body flt now uuid (Register_defaults p) d = Inr (r, d')"
    using BeginFunc_snd_ok [of flt "Register_body flt now uuid (Register_defaults p)" d r] assms
    by (simp add: Register_def)
  then show thesis
    using that by (auto simp: Register_body_def Register_promote_def insert_worker_event_def
        tx_bind_Inr in_tx_Inr)
qed

definition registered_row :: "int \<Rightarrow> RegisterWorkerParams \<Rightarrow> RegisteredWorker \<Rightarrow> worker_row \<Rightarrow> bool" where
  "registered_row now p r w \<longleftrightarrow>
     w_id w = rw_ID r \<and> w_instance_id w = rp_InstanceID p \<and> w_epoch w = rw_Epoch r \<and>
     w_hostname w = rp_Hostname p \<and> w_os w = rp_OS p \<and> w_version w = rp_Version p \<and>
     w_cpu_cores w = rp_CPUCores p \<and> w_memory_mb w = rp_MemoryMB p \<and>
     w_status w = READY \<and> w_last_heartbeat w = Some now \<and> w_current_job_id w = None \<and>
     w_capacity_slots w = max 1 (rp_CapacitySlots p) \<and>
     w_available_capacity w = w_capacity_slots w"

lemma Register_defaults_simps [simp]:
  "rp_InstanceID (Register_defaults p) = rp_InstanceID p"
  "rp_Hostname (Register_defaults p) = rp_Hostname p"
  "rp_OS (Register_defaults p) = rp_OS p" "rp_Version (Register_defaults p) = rp_Version p"
  "rp_CPUCores (Register_defaults p) = rp_CPUCores p"
  "rp_MemoryMB (Register_defaults p) = rp_MemoryMB p"
  "rp_CapacitySlots (Register_defaults p) = max 1 (rp_CapacitySlots p)"
  by (auto simp: Register_defaults_def)

lemma Register_effect:
  assumes inv: "db_inv d" and reg: "Register flt now uuid p d = (Inr r, d')"
  shows "(case sql_first (\<lambda>w. w_instance_id w = rp_InstanceID p) (workers d) of
            None \<Rightarrow> rw_ID r = uuid \<and> rw_Epoch r = 1
          | Some w \<Rightarrow> rw_ID r = w_id w \<and> rw_Epoch r = w_epoch w + 1) \<and>
         (\<exists>w\<in>set (workers d'). registered_row now p r w) \<and>
         (\<forall>w. w_id w \<noteq> rw_ID r \<longrightarrow> (w \<in> set (workers d') \<longleftrightarrow> w \<in> set (workers d))) \<and>
         jobs d' = jobs d"
proof -
  let ?q = "Register_defaults p"
  obtain d1 es where up: "Register_upsert now uuid ?q d = Inr (r, d1)"
    and d': "d' = d1\<lparr>worker_events := es,
                     workers := sql_update (Register_promote_where (rw_ID r, now))
                                  (Register_promote_set (rw_ID r, now)) (workers d1)\<rparr>"
    using reg by (rule Register_success)
  have first: "sql_first (Register_conflict_where (?q, now)) (workers d)
      = sql_first (\<lambda>w. w_instance_id w = rp_InstanceID p) (workers d)"
    by (rule arg_cong2 [of _ _ _ _ sql_first]) auto
  have promoted: "\<exists>w\<in>set (workers d'). registered_row now p r w"
    if "w1 \<in> set (workers d1)" "w_id w1 = rw_ID r"
       "registered_row now p r (Register_promote_set (rw_ID r, now) w1)" for w1
    using that(3)
    by (rule bexI) (use that(1,2) in \<open>auto simp: d' in_sql_update intro!: bexI [of _ w1]\<close>)
  have others: "w \<in> set (workers d') \<longleftrightarrow> w \<in> set (workers d1)" if "w_id w \<noteq> rw_ID r" for w
    using promote_w.other_rows_kept [of w "(rw_ID r, now)" "workers d1"] that unfolding d' by simp
  show ?thesis
  proof (cases "sql_first (\<lambda>w. w_instance_id w = rp_InstanceID p) (workers d)")
    case None
    with up have r: "r = \<lparr>rw_ID = uuid, rw_Epoch = 1\<rparr>"
      and d1: "d1 = d\<lparr>workers := workers d @ [Register_insert_row now uuid ?q]\<rparr>"
      by (auto simp: Register_upsert_def first split: if_splits)
    have "\<exists>w\<in>set (workers d'). registered_row now p r w"
      by (rule promoted [of "Register_insert_row now uuid ?q"])
         (auto simp: d1 r registered_row_def Register_insert_row_def set_updated_at_def)
    with None others show ?thesis
      by (auto simp: r d1 d' Register_insert_row_def)
  next
    case (Some w0)
    note w0 = sql_first_SomeD [OF Some]
    from Some up have r: "r = \<lparr>rw_ID = w_id w0, rw_Epoch = w_epoch w0 + 1\<rparr>"
      and d1: "d1 = d\<lparr>workers := sql_update (Register_conflict_where (?q, now))
                                   (Register_conflict_set (?q, now)) (workers d)\<rparr>"
      by (auto simp: Register_upsert_def first split: if_splits)
    have "\<exists>w\<in>set (workers d'). registered_row now p r w"
      by (rule promoted [of "Register_conflict_set (?q, now) w0"])
         (use w0 in \<open>auto simp: d1 r registered_row_def in_sql_update set_updated_at_def\<close>)
    moreover have "w \<in> set (workers d1) \<longleftrightarrow> w \<in> set (workers d)" if w: "w_id w \<noteq> rw_ID r" for w
    proof -
      have "w_id x \<noteq> rw_ID r \<Longrightarrow> x \<in> set (workers d) \<Longrightarrow> w_instance_id x \<noteq> rp_InstanceID p" for x
        using distinct_key_eq [OF db_invD(2) [OF inv], of x w0] w0 r by auto
      with w show ?thesis
        by (auto simp: d1 in_sql_update set_updated_at_def)
    qed
    ultimately show ?thesis using Some others by (simp add: r d1 d')
  qed
qed

text \<open>
  A registration that returns leaves exactly one changed row: the worker of that instance id,
  under the parameters given, \<open>READY\<close>, holding no job, with every slot free and a fresh heartbeat.
  A known instance keeps its id and gets the next epoch; an unknown one starts at epoch 1. Jobs are
  not touched.
\<close>

theorem Register_correct:
  assumes "db_inv d" and "Register flt now uuid p d = (Inr r, d')"
  shows "(case sql_first (\<lambda>w. w_instance_id w = rp_InstanceID p) (workers d) of
            None \<Rightarrow> rw_ID r = uuid \<and> rw_Epoch r = 1
          | Some w \<Rightarrow> rw_ID r = w_id w \<and> rw_Epoch r = w_epoch w + 1) \<and>
         (\<exists>w\<in>set (workers d'). registered_row now p r w) \<and>
         (\<forall>w. w_id w \<noteq> rw_ID r \<longrightarrow> (w \<in> set (workers d') \<longleftrightarrow> w \<in> set (workers d))) \<and>
         jobs d' = jobs d"
  using assms by (rule Register_effect)

lemma ex_register:
  "Register no_faults 9 ''w9'' ex_params ex_db
     = (Inr \<lparr>rw_ID = ''w1'', rw_Epoch = 4\<rparr>, snd (Register no_faults 9 ''w9'' ex_params ex_db))"
  by (simp add: Register_def Register_body_def Register_upsert_def Register_promote_def
      Register_defaults_def ex_params_def eval_defs max_int64_def)

theorem Register_correct_witness:
  "\<exists>w\<in>set (workers (snd (Register no_faults 9 ''w9'' ex_params ex_db))).
     w_id w = ''w1'' \<and> w_epoch w = 4 \<and> w_status w = READY \<and> w_last_heartbeat w = Some 9"
  using Register_correct [OF ex_db_inv ex_register] by (auto simp: registered_row_def)

text \<open>
  Re-registration fences the previous session: once an instance has registered again, the
  epoch of its earlier session is refused by the heartbeat, the release and the assignment, under
  every fault.
\<close>

theorem reregistration_fences:
  assumes "db_inv d" and "w \<in> set (workers d)" and "w_instance_id w = rp_InstanceID p"
    and "Register flt now uuid p d = (Inr r, d')"
  shows "rw_ID r = w_id w \<and> w_epoch w < rw_Epoch r \<and>
         snd (UpdateHeartbeat flt' now' (w_id w) (w_epoch w) st cur d') = d' \<and>
         snd (FreeWorker flt' now' (w_id w) (w_epoch w) d') = d' \<and>
         fst (AssignJob flt' now' jid jca (w_id w) (w_epoch w) d') \<noteq> Inr True"
proof -
  have inv': "db_inv d'" using Register_inv [OF assms(1), of flt now uuid p] assms(4) by simp
  have "sql_first (\<lambda>x. w_instance_id x = rp_InstanceID p) (workers d) = Some w"
    using sql_first_key [OF db_invD(2) [OF assms(1)] assms(2)] assms(3) by simp
  with Register_effect [OF assms(1,4)] obtain w' where r: "rw_ID r = w_id w" "rw_Epoch r = w_epoch w + 1"
    and w': "w' \<in> set (workers d')" "w_id w' = w_id w" "w_epoch w' = w_epoch w + 1"
    by (auto simp: registered_row_def)
  have other: "w_epoch x \<noteq> w_epoch w" if "x \<in> set (workers d')" "w_id x = w_id w" for x
    using distinct_key_eq [OF db_invD(1) [OF inv'] that(1) w'(1)] that w' by simp
  then have "\<not> assignable (jid, jca, w_id w, w_epoch w, now') d'"
    by (auto simp: assignable_def list_ex_iff)
  with UpdateHeartbeat_stale [of d' "w_id w" "w_epoch w" flt' now' st cur]
    FreeWorker_stale [of d' "w_id w" "w_epoch w" flt' now']
    AssignJob_outcome(2) [OF inv' surjective_pairing, of flt' now' jid jca "w_id w" "w_epoch w"] other r
  show ?thesis by auto
qed

theorem reregistration_fences_witness:
  "ex_worker \<in> set (workers ex_db) \<and>
   snd (FreeWorker no_faults 10 ''w1'' 3 (snd (Register no_faults 9 ''w9'' ex_params ex_db)))
     = snd (Register no_faults 9 ''w9'' ex_params ex_db)"
proof -
  have w: "ex_worker \<in> set (workers ex_db)" "w_instance_id ex_worker = rp_InstanceID ex_params"
    and k: "w_id ex_worker = ''w1''" "w_epoch ex_worker = 3"
    by (simp_all add: ex_defs ex_params_def)
  from reregistration_fences [OF ex_db_inv w ex_register, of no_faults 10] w(1)
  show ?thesis unfolding k by blast
qed

section \<open>Retries\<close>

lemma backoff_word:
  "sint (push_bit n (1 :: 64 word) * word_of_int second) = signed_take_bit 63 (2 ^ n * second)"
proof -
  have "push_bit n (1 :: 64 word) * word_of_int second = word_of_int (2 ^ n * second)"
    by (simp add: push_bit_eq_mult)
  then show ?thesis by (simp only: sint_sbintrunc') simp
qed

lemma retryBackoff_int:
  "retryBackoff n =
     (if 60 * second < signed_take_bit 63 (2 ^ nat (max 1 n) * second) then 60 * second
      else signed_take_bit 63 (2 ^ nat (max 1 n) * second))"
  unfolding retryBackoff_def backoff_word Let_def by (simp add: max_def)

lemma retryBackoff_exact:
  assumes "1 \<le> n" and "n \<le> 33"
  shows "retryBackoff n = min (2 ^ nat n * second) (60 * second)"
proof -
  have "(2 :: int) ^ nat n \<le> 2 ^ 33" by (rule power_increasing) (use assms in auto)
  then have b: "2 ^ nat n * second < 2 ^ 63" and "0 \<le> 2 ^ nat n * second"
    by (simp_all add: second_def)
  then have "signed_take_bit 63 (2 ^ nat n * second) = 2 ^ nat n * second"
    by (intro signed_take_bit_int_eq_self) simp_all
  then show ?thesis using assms by (simp add: retryBackoff_int min_def)
qed

lemma retryBackoff_overflow:
  "retryBackoff 34 < 0 \<and> (\<forall>n\<ge>55. retryBackoff n = 0)"
proof -
  have "2 ^ n * second = 2 ^ 64 * (2 ^ (n - 55) * 1953125)" if "55 \<le> n" for n
  proof -
    from le_Suc_ex [OF that] obtain k where "n = 55 + k" ..
    then show ?thesis by (simp add: power_add second_def)
  qed
  moreover have "(signed_take_bit 63 (2 ^ 64 * k) :: int) = 0" for k
    by (simp add: signed_take_bit_eq_take_bit_shift take_bit_eq_mod)
  ultimately have "signed_take_bit 63 (2 ^ n * second) = 0" if "55 \<le> n" for n
    using that by metis
  then have "retryBackoff n = 0" if "55 \<le> n" for n
    using that by (simp add: retryBackoff_int le_nat_iff) (simp add: second_def)
  moreover have "retryBackoff 34 < 0"
    by (simp add: retryBackoff_int second_def signed_take_bit_int_eq_self_iff
        signed_take_bit_eq_take_bit_shift take_bit_eq_mod)
  ultimately show ?thesis by blast
qed



lemma RetryOrFail_success:
  assumes "RetryOrFail flt now goNow jid jca epoch wid msg l d = (Inr a, d')"
  shows "RetryOrFail_body flt now goNow jid jca epoch wid msg l d = Inr (a, d')"
  using BeginFunc_snd_ok [of flt "RetryOrFail_body flt now goNow jid jca epoch wid msg l" d a] assms
  by (simp add: RetryOrFail_def)

text \<open>
  C21. A failure report for the job the caller still owns is decided by the retry budget: with
  budget left the job becomes \<open>RETRYING\<close>, one retry more, due after the backoff, and without owner;
  with none left it becomes \<open>FAILED\<close> for good. Exactly one history row is appended, numbered after
  those already there, and no other job changes. A report whose epoch the job does not carry, or
  for a job no longer active, is discarded without any effect.
\<close>

theorem RetryOrFail_decides:
  assumes inv: "db_inv d"
    and r: "RetryOrFail flt now goNow jid jca epoch wid msg l d = (Inr (st, ok), d')"
  shows "ok = (\<exists>j\<in>set (jobs d). reported jid jca epoch j) \<and>
         (\<not> ok \<longrightarrow> st = '''' \<and> d' = d) \<and>
         (\<forall>j\<in>set (jobs d). reported jid jca epoch j \<longrightarrow>
            (let j' = if j_retries j < j_max_retries j
                      then j\<lparr>j_status := RETRYING, j_retries := j_retries j + 1,
                             j_retry_at := Some (goNow + retryBackoff (j_retries j + 1)),
                             j_worker_id := None, j_assignment_epoch := None, j_started_at := None\<rparr>
                      else j\<lparr>j_status := FAILED, j_finished_at := Some now, j_log_ref := nonempty l\<rparr>
             in st = job_status_str (j_status j') \<and>
                jobs d' = map (\<lambda>x. if x = j then j' else x) (jobs d) \<and>
                job_retry_history d' = job_retry_history d @
                  [retry_row_of now jid jca
                     (int (length (attempts jid (job_retry_history d))) + 1) wid msg]))"
proof -
  let ?h = "job_retry_history d @ [retry_row_of now jid jca
              (int (rows_affected (\<lambda>r. r_job_id r = jid) (job_retry_history d)) + 1) wid msg]"
  have eff: "(\<not> ok \<and> st = '''' \<and> d' = d \<and> (\<forall>j\<in>set (jobs d). \<not> reported jid jca epoch j)) \<or>
       (ok \<and> (\<exists>j\<in>set (jobs d). reported jid jca epoch j \<and>
                  st = job_status_str (j_status (fail_set now goNow (nonempty l) j))) \<and>
        jobs d' = sql_update (reported jid jca epoch) (fail_set now goNow (nonempty l)) (jobs d) \<and>
        job_retry_history d' = ?h)"
    using RetryOrFail_body_effect [OF db_invD(3) [OF inv] RetryOrFail_success [OF r]]
    by (auto dest!: insert_retry_history_Inr)
  have uniq: "x = j" if "x \<in> set (jobs d)" "reported jid jca epoch x" "j \<in> set (jobs d)"
    "reported jid jca epoch j" for x j
    using distinct_key_eq [OF db_invD(3) [OF inv], of x j] that by (simp add: reported_def)
  have upd: "sql_update (reported jid jca epoch) f (jobs d) = map (\<lambda>x. if x = j then f j else x) (jobs d)"
    if "j \<in> set (jobs d)" "reported jid jca epoch j" for f j
    unfolding sql_update_def using uniq that by (intro map_cong) auto
  have set_eq: "fail_set now goNow (nonempty l) j
      = (if j_retries j < j_max_retries j
         then j\<lparr>j_status := RETRYING, j_retries := j_retries j + 1,
                j_retry_at := Some (goNow + retryBackoff (j_retries j + 1)),
                j_worker_id := None, j_assignment_epoch := None, j_started_at := None\<rparr>
         else j\<lparr>j_status := FAILED, j_finished_at := Some now, j_log_ref := nonempty l\<rparr>)"
    if "j \<in> set (jobs d)" for j
    using db_invD(5) [OF inv that] by (simp add: fail_set_def Let_def job_ok_def max_int32_def)
  have concl: "st = job_status_str (j_status (fail_set now goNow (nonempty l) j)) \<and>
      jobs d' = map (\<lambda>x. if x = j then fail_set now goNow (nonempty l) j else x) (jobs d) \<and>
      job_retry_history d' = ?h" if j: "j \<in> set (jobs d)" "reported jid jca epoch j" for j
  proof -
    from eff j obtain j0 where j0: "j0 \<in> set (jobs d)" "reported jid jca epoch j0"
      and st: "st = job_status_str (j_status (fail_set now goNow (nonempty l) j0))"
      and js: "jobs d' = sql_update (reported jid jca epoch) (fail_set now goNow (nonempty l)) (jobs d)"
      and h: "job_retry_history d' = ?h" by blast
    have "j0 = j" by (rule uniq [OF j0 j])
    with st js h upd [OF j] show ?thesis by simp
  qed
  have ok: "ok = (\<exists>j\<in>set (jobs d). reported jid jca epoch j)" and no: "\<not> ok \<longrightarrow> st = '''' \<and> d' = d"
    using eff by blast+
  show ?thesis
    unfolding Let_def
    by (intro conjI [OF ok] conjI [OF no] ballI impI)
       (frule (1) concl, simp only: set_eq rows_affected_attempts)
qed

theorem RetryOrFail_decides_witness:
  "fst (RetryOrFail no_faults 9 9 ''j2'' 7 3 (Some ''w1'') ''boom'' '''' ex_db) = Inr (''RETRYING'', True) \<and>
   (\<exists>j\<in>set (jobs (snd (RetryOrFail no_faults 9 9 ''j2'' 7 3 (Some ''w1'') ''boom'' '''' ex_db))).
      j_id j = ''j2'' \<and> j_status j = RETRYING \<and> j_retries j = 1)"
proof -
  let ?r = "RetryOrFail no_faults 9 9 ''j2'' 7 3 (Some ''w1'') ''boom'' '''' ex_db"
  have r: "fst ?r = Inr (''RETRYING'', True)"
    by (simp add: RetryOrFail_def RetryOrFail_body_def Retry_lookup_def Retry_update_def eval_defs
        max_int32_def)
  then have "?r = (Inr (''RETRYING'', True), snd ?r)" by (metis prod.collapse)
  note c = RetryOrFail_decides [OF ex_db_inv this]
  have j: "ex_running \<in> set (jobs ex_db)" "reported ''j2'' 7 3 ex_running"
    "j_retries ex_running < j_max_retries ex_running" "j_retries ex_running = 0" "j_id ex_running = ''j2''"
    by (simp_all add: ex_defs reported_def active_def)
  with c have "jobs (snd ?r) = map (\<lambda>x. if x = ex_running then
      ex_running\<lparr>j_status := RETRYING, j_retries := 1, j_retry_at := Some (9 + retryBackoff 1),
        j_worker_id := None, j_assignment_epoch := None, j_started_at := None\<rparr> else x) (jobs ex_db)"
    by (simp add: Let_def)
  with r j show ?thesis by (auto intro!: rev_bexI [OF imageI [OF j(1)]])
qed

section \<open>Completion\<close>

lemma Complete_inactive:
  assumes "\<And>j. j \<in> set (jobs d) \<Longrightarrow> j_id j = jid \<Longrightarrow> \<not> active j"
  shows "snd (Complete flt now jid jca epoch st l d) = d \<and>
         fst (Complete flt now jid jca epoch st l d) \<noteq> Inr True"
proof -
  have "rows_affected (Complete_where (jid, jca, epoch, s, l', now)) (jobs d) = 0" for s l'
    using assms by (auto simp: rows_affected_0)
  then show ?thesis
    by (cases "flt S_complete")
       (auto simp: Complete_def exec_def Let_def sql_update_none split: option.splits)
qed

lemma RetryOrFail_inactive:
  assumes "\<And>j. j \<in> set (jobs d) \<Longrightarrow> j_id j = jid \<Longrightarrow> \<not> active j"
  shows "snd (RetryOrFail flt now goNow jid jca epoch wid msg l d) = d \<and>
         fst (RetryOrFail flt now goNow jid jca epoch wid msg l d) \<noteq> Inr (st, True)"
proof -
  have "sql_first (reported jid jca epoch) (jobs d) = None"
    using assms by (auto simp: sql_first_None reported_def)
  then have "RetryOrFail_body flt now goNow jid jca epoch wid msg l d = Inr (a, d') \<Longrightarrow>
      a = ('''', False) \<and> d' = d" for a d'
    by (auto simp: RetryOrFail_body_def Retry_lookup_reported tx_bind_Inr in_tx_Inr)
  then show ?thesis
    unfolding RetryOrFail_def
    by (cases rule: BeginFunc_cases [of flt "RetryOrFail_body flt now goNow jid jca epoch wid msg l" d])
       auto
qed

lemma Complete_success:
  assumes inv: "db_inv d" and c: "Complete flt now jid jca epoch st l d = (Inr True, d')"
  obtains j s where "j \<in> set (jobs d)" and "j_id j = jid" and "j_assignment_epoch j = Some epoch"
    and "active j" and "to_job_status st = Some s"
    and "jobs d' = map (\<lambda>x. if x = j then j\<lparr>j_status := s, j_finished_at := Some now,
                                            j_log_ref := nonempty l\<rparr> else x) (jobs d)"
proof -
  let ?m = "\<lambda>d. case to_job_status st of None \<Rightarrow> Inl InvalidEnum
      | Some s \<Rightarrow> let a = (jid, jca, epoch, s, nonempty l, now)
                 in Inr (rows_affected (Complete_where a) (jobs d) = 1,
                         d\<lparr>jobs := sql_update (Complete_where a) (Complete_set a) (jobs d)\<rparr>)"
  have "?m d = Inr (True, d')"
    using exec_snd_ok [of flt S_complete ?m d True] c unfolding Complete_def by simp
  then obtain s where s: "to_job_status st = Some s"
    and n: "rows_affected (Complete_where (jid, jca, epoch, s, nonempty l, now)) (jobs d) = 1"
    and d': "d' = d\<lparr>jobs := sql_update (Complete_where (jid, jca, epoch, s, nonempty l, now))
                     (Complete_set (jid, jca, epoch, s, nonempty l, now)) (jobs d)\<rparr>"
    by (auto simp: Let_def split: option.splits)
  from n obtain j where j: "j \<in> set (jobs d)" "Complete_where (jid, jca, epoch, s, nonempty l, now) j"
    unfolding complete_j.affected_1_iff [OF db_invD(3) [OF inv]] by blast
  have "jobs d' = map (\<lambda>x. if x = j then j\<lparr>j_status := s, j_finished_at := Some now,
                                            j_log_ref := nonempty l\<rparr> else x) (jobs d)"
    using complete_j.update_one [OF db_invD(3) [OF inv] j] by (simp add: d')
  with j s show thesis by (intro that) auto
qed

text \<open>
  The first report wins: after \<open>Complete\<close> has returned \<open>true\<close>, the job carries the reported
  terminal status, and every later completion or failure report for it, under any epoch and any
  faults, is discarded and changes nothing.
\<close>

theorem first_report_wins:
  assumes "db_inv d" and "st \<in> {''SUCCESS'', ''FAILED'', ''CANCELLED''}"
    and "Complete flt now jid jca epoch st l d = (Inr True, d')"
  shows "(\<exists>j\<in>set (jobs d'). j_id j = jid \<and> terminal j \<and> job_status_str (j_status j) = st \<and>
                            j_finished_at j = Some now) \<and>
         snd (Complete flt' now' jid jca' epoch' st' l' d') = d' \<and>
         fst (Complete flt' now' jid jca' epoch' st' l' d') \<noteq> Inr True \<and>
         snd (RetryOrFail flt' now' goNow jid jca' epoch' wid msg l' d') = d' \<and>
         fst (RetryOrFail flt' now' goNow jid jca' epoch' wid msg l' d') \<noteq> Inr (st', True)"
proof -
  obtain j s where j: "j \<in> set (jobs d)" "j_id j = jid" and s: "to_job_status st = Some s"
    and js: "jobs d' = map (\<lambda>x. if x = j then j\<lparr>j_status := s, j_finished_at := Some now,
                                            j_log_ref := nonempty l\<rparr> else x) (jobs d)"
    by (rule Complete_success [OF assms(1,3)]) blast
  have st: "s \<in> {SUCCESS, FAILED, CANCELLED}" "job_status_str s = st"
    using s assms(2) by (auto simp: to_job_status_def all_job_statuses_def split: if_splits)
  let ?j' = "j\<lparr>j_status := s, j_finished_at := Some now, j_log_ref := nonempty l\<rparr>"
  have in': "?j' \<in> set (jobs d')" unfolding js using j(1) by force
  have "\<not> active x" if x: "x \<in> set (jobs d')" "j_id x = jid" for x
  proof -
    have "db_inv d'" using Complete_inv [OF assms(1,2), of flt now jid jca epoch l] assms(3) by simp
    then have "x = ?j'"
      using distinct_key_eq [OF db_invD(3) x(1) in'] x(2) j(2) by simp
    with st show ?thesis by (auto simp: active_def)
  qed
  note quiet = Complete_inactive [of d' jid flt' now' jca' epoch' st' l', OF this]
    RetryOrFail_inactive [of d' jid flt' now' goNow jca' epoch' wid msg l' st', OF this]
  have "\<exists>j\<in>set (jobs d'). j_id j = jid \<and> terminal j \<and> job_status_str (j_status j) = st \<and>
          j_finished_at j = Some now"
    by (rule bexI [OF _ in']) (use st j(2) in \<open>auto simp: terminal_def\<close>)
  with quiet show ?thesis by blast
qed

theorem first_report_wins_witness:
  "fst (Complete no_faults 9 ''j2'' 7 3 ''SUCCESS'' ''log'' ex_db) = Inr True \<and>
   (\<exists>j\<in>set (jobs (snd (Complete no_faults 9 ''j2'' 7 3 ''SUCCESS'' ''log'' ex_db))).
      j_id j = ''j2'' \<and> terminal j)"
proof -
  let ?r = "Complete no_faults 9 ''j2'' 7 3 ''SUCCESS'' ''log'' ex_db"
  have r: "fst ?r = Inr True"
    by (simp add: Complete_def to_job_status_def all_job_statuses_def eval_defs)
  then have "?r = (Inr True, snd ?r)" by (metis prod.collapse)
  from first_report_wins [OF ex_db_inv _ this] r show ?thesis by blast
qed

section \<open>Releasing a worker\<close>

lemma FreeWorker_exact:
  assumes inv: "db_inv d" and w: "w \<in> set (workers d)"
  defines "a now \<equiv> (w_id w, w_epoch w, now)"
  shows "FreeWorker no_faults now (w_id w) (w_epoch w) d =
           (Inr (True, min (w_available_capacity w + 1) (w_capacity_slots w),
                 if w_drain_requested w then ''DRAINING'' else ''READY''),
            d\<lparr>workers := map (\<lambda>x. if x = w then FreeWorker_set (a now) w else x) (workers d)\<rparr>)"
proof -
  have "FreeWorker_where (a now) = (\<lambda>x. w_id x = w_id w \<and> w_epoch x = w_epoch w)"
    by (auto simp: a_def)
  moreover have "sql_first (\<lambda>x. w_id x = w_id w \<and> w_epoch x = w_epoch w) (workers d) = Some w"
    using sql_first_key [of "\<lambda>x. (w_id x, w_epoch x)" "workers d" w] w db_invD(1) [OF inv]
    by (auto simp: distinct_map inj_on_def)
  moreover have "FreeWorker_where (a now) w" by (simp add: a_def)
  note free_w.update_one [OF db_invD(1) [OF inv] w this]
  ultimately show ?thesis
    by (simp add: FreeWorker_def FreeWorker_update_def a_def set_updated_at_def)
qed

text \<open>
  \<open>FreeWorker\<close> of a worker under its current epoch returns one slot, never more than the worker
  has, clears its current job, and routes it by the drain flag: \<open>DRAINING\<close> when a drain is pending,
  \<open>READY\<close> otherwise; no other row changes, and the values it reports are those it stored.
\<close>

theorem FreeWorker_correct:
  assumes "db_inv d" and "w \<in> set (workers d)"
  shows "FreeWorker no_faults now (w_id w) (w_epoch w) d =
           (let cap = min (w_available_capacity w + 1) (w_capacity_slots w);
                st = if w_drain_requested w then DRAINING else READY
            in (Inr (True, cap, worker_status_str st),
                d\<lparr>workers := map (\<lambda>x. if x = w then w\<lparr>w_status := st, w_current_job_id := None,
                                     w_current_job_created_at := None, w_available_capacity := cap,
                                     w_updated_at := now\<rparr> else x) (workers d)\<rparr>))"
  unfolding FreeWorker_exact [OF assms] Let_def
  by (auto simp: set_updated_at_def intro!: arg_cong [of _ _ "\<lambda>f. d\<lparr>workers := map f (workers d)\<rparr>"])

theorem FreeWorker_correct_witness:
  "ex_worker \<in> set (workers ex_db) \<and>
   fst (FreeWorker no_faults 9 (w_id ex_worker) (w_epoch ex_worker) ex_db) = Inr (True, 2, ''READY'')"
proof -
  have w: "ex_worker \<in> set (workers ex_db)" by (simp add: ex_defs)
  from FreeWorker_correct [OF ex_db_inv this, of 9] w show ?thesis
    by (simp add: Let_def) (simp add: ex_worker_def)
qed

text \<open>
  Assignment and release are inverse on the capacity: releasing the worker right after a
  successful assignment gives back exactly the capacity it had, and makes it \<open>READY\<close> again when no
  drain was requested.
\<close>

theorem assign_then_free:
  assumes "db_inv d" and "w \<in> set (workers d)" and "\<not> w_drain_requested w"
    and "AssignJob flt now jid jca (w_id w) (w_epoch w) d = (Inr True, d')"
  shows "fst (FreeWorker no_faults now' (w_id w) (w_epoch w) d')
           = Inr (True, w_available_capacity w, ''READY'')"
proof -
  let ?a = "(jid, jca, w_id w, w_epoch w, now)"
  have d': "d' = assigned ?a d" and ok: "assignable ?a d"
    using AssignJob_outcome(2) [OF assms(1,4) refl] by auto
  have inv': "db_inv d'"
    using AssignJob_inv [OF assms(1), of flt now jid jca "w_id w" "w_epoch w"] assms(4) by simp
  from ok have "AssignWorker_where ?a w"
    using distinct_key_eq [OF db_invD(1) [OF assms(1)] _ assms(2)]
    by (auto simp: assignable_def list_ex_iff)
  then have in': "AssignWorker_set ?a w \<in> set (workers d')"
    unfolding d' assigned_def using assms(2) by (auto simp: in_sql_update)
  have "w_available_capacity w \<le> w_capacity_slots w"
    using db_invD(4) [OF assms(1,2)] by (simp add: worker_ok_def)
  with FreeWorker_exact [OF inv' in', of now'] assms(3) show ?thesis
    by (simp add: set_updated_at_def)
qed

theorem assign_then_free_witness:
  "fst (AssignJob no_faults 9 ''j1'' 7 (w_id ex_worker) (w_epoch ex_worker) ex_db) = Inr True \<and>
   fst (FreeWorker no_faults 10 (w_id ex_worker) (w_epoch ex_worker)
          (snd (AssignJob no_faults 9 ''j1'' 7 (w_id ex_worker) (w_epoch ex_worker) ex_db)))
     = Inr (True, w_available_capacity ex_worker, ''READY'')"
proof -
  let ?r = "AssignJob no_faults 9 ''j1'' 7 (w_id ex_worker) (w_epoch ex_worker) ex_db"
  have r: "fst ?r = Inr True"
    by (simp add: AssignJob_def AssignJob_body_def AssignWorker_update_def AssignJob_update_def eval_defs)
  then have "?r = (Inr True, snd ?r)" by (metis prod.collapse)
  from assign_then_free [OF ex_db_inv _ _ this, of 10] r show ?thesis by (simp add: ex_db_def ex_worker_def)
qed

section \<open>Draining\<close>

lemma drain_first:
  assumes "db_inv d" and "w \<in> set (workers d)" and "w_status w \<notin> {OFFLINE, DEAD}"
  shows "sql_first (Drain_where (w_id w, now)) (workers d) = Some w"
proof -
  have "x = w" if "x \<in> set (workers d)" "Drain_where (w_id w, now) x" for x
    using distinct_key_eq [OF db_invD(1) [OF assms(1)] that(1) assms(2)] that(2) by simp
  moreover have "Drain_where (w_id w, now) w" using assms(3) by simp
  ultimately show ?thesis
    using sql_first_SomeD [of "Drain_where (w_id w, now)" "workers d"]
      sql_first_None [of "Drain_where (w_id w, now)" "workers d"] assms(2)
    by (metis not_Some_eq)
qed

lemma RequestDrain_exact:
  assumes inv: "db_inv d" and w: "w \<in> set (workers d)" "w_status w \<notin> {OFFLINE, DEAD}"
  shows "RequestDrain no_faults now (w_id w) d =
    (Inr (Some (to_DrainResult (RequestDrain_set (w_id w, now) w))),
     d\<lparr>workers := map (\<lambda>x. if x = w then RequestDrain_set (w_id w, now) w else x) (workers d),
       worker_events := worker_events d @
         [drain_event (w_id w) now ''DRAIN_REQUESTED'' (to_DrainResult (RequestDrain_set (w_id w, now) w))]\<rparr>)"
proof -
  have hit: "Drain_where (w_id w, now) w" using w by simp
  show ?thesis
    unfolding RequestDrain_def
    by (simp add: drain_first [OF inv w] drain_w.update_one [OF db_invD(1) [OF inv] w(1) hit]
        drain_update_def insert_worker_event_def tx_bind_def tx_return_def del: RequestDrain_set.simps)
qed

lemma ResumeDrain_exact:
  assumes inv: "db_inv d" and w: "w \<in> set (workers d)" "w_status w \<notin> {OFFLINE, DEAD}"
  shows "ResumeDrain no_faults now (w_id w) d =
    (Inr (Some (to_DrainResult (ResumeDrain_set (w_id w, now) w))),
     d\<lparr>workers := map (\<lambda>x. if x = w then ResumeDrain_set (w_id w, now) w else x) (workers d),
       worker_events := worker_events d @
         [drain_event (w_id w) now ''DRAIN_RESUMED'' (to_DrainResult (ResumeDrain_set (w_id w, now) w))]\<rparr>)"
proof -
  have hit: "Drain_where (w_id w, now) w" using w by simp
  show ?thesis
    unfolding ResumeDrain_def
    by (simp add: drain_first [OF inv w] resume_w.update_one [OF db_invD(1) [OF inv] w(1) hit]
        drain_update_def insert_worker_event_def tx_bind_def tx_return_def del: ResumeDrain_set.simps)
qed

text \<open>
  Draining and resuming a worker is a round trip: the drain takes a live worker out of the
  candidates for new work at once, a busy one keeps its status until it is released, and resuming
  gives back the row as it was, but for its \<open>updated_at\<close>.
\<close>

theorem drain_resume_roundtrip:
  fixes now now' :: int
  assumes "db_inv d" and "w \<in> set (workers d)" and "w_status w \<notin> {OFFLINE, DEAD, DRAINING}"
    and "\<not> w_drain_requested w"
  defines "d1 \<equiv> snd (RequestDrain no_faults now (w_id w) d)"
  shows "(\<forall>x\<in>set (workers d1). w_id x = w_id w \<longrightarrow>
            w_drain_requested x \<and> \<not> ready_candidate caps x \<and>
            w_status x = (if w_status w = READY then DRAINING else w_status w)) \<and>
         workers (snd (ResumeDrain no_faults now' (w_id w) d1))
           = map (\<lambda>x. if x = w then w\<lparr>w_updated_at := now'\<rparr> else x) (workers d) \<and>
         jobs (snd (ResumeDrain no_faults now' (w_id w) d1)) = jobs d"
proof -
  let ?w1 = "RequestDrain_set (w_id w, now) w"
  have live: "w_status w \<notin> {OFFLINE, DEAD}" using assms(3) by simp
  note ex = RequestDrain_exact [OF assms(1,2) live, of now]
  have ws: "workers d1 = map (\<lambda>x. if x = w then ?w1 else x) (workers d)" and js: "jobs d1 = jobs d"
    unfolding d1_def ex by simp_all
  have inv1: "db_inv d1" unfolding d1_def by (rule RequestDrain_inv [OF assms(1)])
  have w1: "?w1 \<in> set (workers d1)" unfolding ws using assms(2) by force
  have live1: "w_status ?w1 \<notin> {OFFLINE, DEAD}" using live by (simp add: set_updated_at_def)
  have id1: "w_id ?w1 = w_id w" by (simp add: set_updated_at_def)
  have only: "x = ?w1" if "x \<in> set (workers d1)" "w_id x = w_id w" for x
    using distinct_key_eq [OF db_invD(1) [OF inv1] that(1) w1] that(2) id1 by simp
  have notw1: "x \<noteq> ?w1" if "x \<in> set (workers d)" "x \<noteq> w" for x
    using distinct_key_eq [OF db_invD(1) [OF assms(1)] that(1) assms(2)] that(2) id1 by metis
  have restored: "ResumeDrain_set (w_id w, now') ?w1 = w\<lparr>w_updated_at := now'\<rparr>"
    using assms(3,4) by (cases w) (simp add: set_updated_at_def)
  have "workers (snd (ResumeDrain no_faults now' (w_id w) d1))
      = map (\<lambda>x. if x = w then w\<lparr>w_updated_at := now'\<rparr> else x) (workers d)"
    using ResumeDrain_exact [OF inv1 w1 live1, of now'] notw1
    by (simp add: id1 restored ws del: RequestDrain_set.simps ResumeDrain_set.simps)
  moreover have "jobs (snd (ResumeDrain no_faults now' (w_id w) d1)) = jobs d"
    by (simp add: worker_ops_jobs js)
  moreover have "w_drain_requested ?w1 \<and> \<not> ready_candidate caps ?w1 \<and>
      w_status ?w1 = (if w_status w = READY then DRAINING else w_status w)"
    by (simp add: set_updated_at_def ready_candidate_def)
  ultimately show ?thesis using only by blast
qed

theorem drain_resume_roundtrip_witness:
  "ex_worker \<in> set (workers ex_db) \<and>
   workers (snd (ResumeDrain no_faults 10 (w_id ex_worker)
                   (snd (RequestDrain no_faults 9 (w_id ex_worker) ex_db))))
     = [ex_worker\<lparr>w_updated_at := 10\<rparr>]"
proof -
  have w: "ex_worker \<in> set (workers ex_db)" "w_status ex_worker \<notin> {OFFLINE, DEAD, DRAINING}"
    "\<not> w_drain_requested ex_worker" by (simp_all add: ex_defs)
  from drain_resume_roundtrip [OF ex_db_inv w, of 9 "[]" 10] w(1) show ?thesis
    by (simp add: ex_db_def)
qed

text \<open>
  \<open>PickDrainCandidate\<close> only ever proposes an idle worker for removal: the id it returns belongs
  to a \<open>READY\<close> worker with every slot free and no drain pending, registered no later than any other
  such worker; the empty answer means that there is none.
\<close>

theorem PickDrainCandidate_correct:
  "\<exists>wid. PickDrainCandidate no_faults d = Inr wid \<and>
     ((wid = '''' \<and> (\<forall>w\<in>set (workers d). \<not> drain_candidate w)) \<or>
      (\<exists>w\<in>set (workers d). w_id w = wid \<and> drain_candidate w \<and>
         (\<forall>x\<in>set (workers d). drain_candidate x \<longrightarrow> w_registered_at w \<le> w_registered_at x)))"
proof (cases "sort_key w_registered_at (filter drain_candidate (workers d))")
  case Nil
  then have "filter drain_candidate (workers d) = []" by (metis length_0_conv length_sort)
  with Nil show ?thesis by (auto simp: PickDrainCandidate_def filter_empty_conv)
next
  case (Cons w ws)
  then have "set (w # ws) = set (filter drain_candidate (workers d))" by (metis set_sort)
  moreover have "sorted (map w_registered_at (w # ws))" using sorted_sort_key Cons by metis
  then have "\<forall>x\<in>set (w # ws). w_registered_at w \<le> w_registered_at x" by simp
  ultimately have "w \<in> set (workers d) \<and> drain_candidate w \<and>
      (\<forall>x\<in>set (workers d). drain_candidate x \<longrightarrow> w_registered_at w \<le> w_registered_at x)"
    by (metis (mono_tags, lifting) list.set_intros(1) mem_Collect_eq set_filter)
  with Cons show ?thesis by (auto simp: PickDrainCandidate_def)
qed

theorem PickDrainCandidate_correct_witness:
  "PickDrainCandidate no_faults ex_db = Inr ''w1'' \<and> drain_candidate ex_worker"
proof -
  have "drain_candidate ex_worker" by (simp add: drain_candidate_def ex_worker_def)
  moreover have "workers ex_db = [ex_worker]" "w_id ex_worker = ''w1''" by (simp_all add: ex_defs)
  ultimately show ?thesis using PickDrainCandidate_correct [of ex_db] by auto
qed

section \<open>Idempotent creation\<close>

lemma getByIdempotencyKey_none:
  "getByIdempotencyKey flt key d = Inl ErrJobNotFound \<Longrightarrow>
     filter (\<lambda>j. j_idempotency_key j = Some key) (jobs d) = []"
  by (auto simp: getByIdempotencyKey_def query_def split: list.splits if_splits)
     (metis length_0_conv length_sort list.distinct(1))

text \<open>
  Submitting a job under an idempotency key is idempotent: once a submission has returned a
  job, every later submission with the same key, whatever its other fields, returns that very job,
  says that it existed, and inserts nothing, as long as the lookup itself succeeds.
\<close>

theorem Create_idempotent:
  assumes "cj_IdempotencyKey p \<noteq> ''''" and "JobStore_Create flt now uuid p d = (Inr (j, existed), d')"
    and "cj_IdempotencyKey p' = cj_IdempotencyKey p" and "flt' S_create_lookup = NoFault"
  shows "JobStore_Create flt' now' uuid' p' d' = (Inr (j, True), d')"
proof -
  let ?k = "cj_IdempotencyKey p"
  have key: "cj_IdempotencyKey (Create_defaults q) = cj_IdempotencyKey q" for q
    by (simp add: Create_defaults_def)
  have "getByIdempotencyKey flt' ?k d' = Inr j"
  proof (cases "getByIdempotencyKey flt ?k d")
    case (Inr j0)
    with assms(1,2) have "j0 = j" "d' = d" by (auto simp: JobStore_Create_def Let_def key)
    with Inr assms(4) show ?thesis
      by (auto simp: getByIdempotencyKey_def query_def split: if_splits)
  next
    case (Inl e)
    with assms(1,2) have e: "e = ErrJobNotFound"
      and ins: "exec flt S_create_insert (Create_insert now uuid (Create_defaults p)) d = (Inr j, d')"
      by (auto simp: JobStore_Create_def Let_def key split: pg_error.splits prod.splits sum.splits)
    from exec_snd_ok [of flt S_create_insert "Create_insert now uuid (Create_defaults p)" d j] ins
    have "Create_insert now uuid (Create_defaults p) d = Inr (j, d')" by simp
    then have j: "j = scanJob (Create_row now uuid (Create_defaults p))"
      and d': "jobs d' = jobs d @ [Create_row now uuid (Create_defaults p)]"
      by (auto simp: Create_insert_def Let_def split: if_splits)
    have "j_idempotency_key (Create_row now uuid (Create_defaults p)) = Some ?k"
      using assms(1) by (simp add: Create_row_def key)
    with getByIdempotencyKey_none [OF Inl [unfolded e]] assms(4) show ?thesis
      by (simp add: getByIdempotencyKey_def query_def d' j)
  qed
  with assms(1,3) show ?thesis by (simp add: JobStore_Create_def Let_def key)
qed

theorem Create_idempotent_witness:
  "\<exists>j. fst (JobStore_Create no_faults 9 ''j9'' ex_create ex_db) = Inr (j, False) \<and>
       fst (JobStore_Create no_faults 10 ''j10'' (ex_create\<lparr>cj_Priority := 1\<rparr>)
              (snd (JobStore_Create no_faults 9 ''j9'' ex_create ex_db))) = Inr (j, True)"
proof -
  let ?r = "JobStore_Create no_faults 9 ''j9'' ex_create ex_db"
  obtain j where r: "fst ?r = Inr (j, False)"
    by (simp add: JobStore_Create_def getByIdempotencyKey_def Create_insert_def Create_defaults_def
        Create_row_def ex_create_def eval_defs)
  then have "?r = (Inr (j, False), snd ?r)" by (metis prod.collapse)
  from Create_idempotent [OF _ this, of "ex_create\<lparr>cj_Priority := 1\<rparr>" no_faults 10 "''j10''"] r
  show ?thesis by (auto simp: ex_create_def no_faults_def)
qed

section \<open>Every order of calls\<close>

text \<open>
  C7. The invariant of the database holds in every state reachable from the empty database by
  store calls in any order, under any faults: ids are unique, capacities stay within the slots,
  an active job belongs to a registered worker that is not \<open>DEAD\<close> under an epoch that worker has
  had, and the attempts of each job are numbered without gap.
\<close>

theorem store_reachable_inv:
  assumes "run store_step empty_db ops d"
  shows "db_inv d"
  using refl assms by (rule store.reachable_invar)

definition ex_ops :: "store_op list" where
  "ex_ops = [OpRegister no_faults 1 ''w1'' ex_params, OpCreate no_faults 2 ''j1'' ex_create]"

lemma ex_run: "run store_step empty_db ex_ops (foldl (\<lambda>d op. apply_op op d) empty_db ex_ops)"
  by (auto simp: ex_ops_def empty_db_def ex_create_def max_int32_def store_step_iff worker_ops_jobs
      intro!: run.intros)

theorem store_reachable_inv_witness:
  "db_inv (foldl (\<lambda>d op. apply_op op d) empty_db ex_ops) \<and>
   length (jobs (foldl (\<lambda>d op. apply_op op d) empty_db ex_ops)) = 1"
proof -
  have "length (jobs (foldl (\<lambda>d op. apply_op op d) empty_db ex_ops)) = 1"
    by (simp add: ex_ops_def Register_def Register_body_def Register_upsert_def Register_promote_def
        Register_defaults_def ex_params_def empty_db_def JobStore_Create_def getByIdempotencyKey_def
        Create_insert_def Create_defaults_def Create_row_def ex_create_def eval_defs)
  with store_reachable_inv [OF ex_run] show ?thesis by blast
qed

text \<open>
  C8. The state machine of a job: in every reachable state, one more store call, under any faults,
  leaves each job row as it is or moves it along one edge (\<open>QUEUED\<close> to \<open>ASSIGNED\<close>, \<open>ASSIGNED\<close> to
  \<open>RUNNING\<close>, an active job to \<open>QUEUED\<close>, \<open>RETRYING\<close> or a terminal status, \<open>RETRYING\<close> to \<open>QUEUED\<close>),
  keeping its identity and never lowering its retry count; no row is lost, and a new one is
  \<open>QUEUED\<close> with no retry.
\<close>

theorem jobs_follow_state_machine:
  assumes "run store_step empty_db ops d" and "store_step d op d'"
  shows "jobs_evolve d d'"
  using assms(2) apply_op_evolve store.reachable_invar [OF refl assms(1)]
  by (auto simp: store_step_iff)

theorem jobs_follow_state_machine_witness:
  "jobs_evolve (foldl (\<lambda>d op. apply_op op d) empty_db ex_ops)
     (snd (AssignJob no_faults 3 ''j1'' 2 ''w1'' 1 (foldl (\<lambda>d op. apply_op op d) empty_db ex_ops)))"
  using jobs_follow_state_machine [OF ex_run, of "OpAssign no_faults 3 ''j1'' 2 ''w1'' 1"]
  by (simp add: store_step_iff)

lemma job_step_terminal: "job_step j j' \<Longrightarrow> terminal j \<Longrightarrow> j' = j"
  by (auto simp: job_step_def job_edge_def terminal_def)

lemma terminal_kept:
  assumes "jobs_evolve d d'" and "j \<in> set (jobs d)" and "terminal j"
  shows "j \<in> set (jobs d')"
proof -
  from assms(1) obtain js new where js: "jobs d' = js @ new" "list_all2 job_step (jobs d) js"
    by (auto simp: jobs_evolve_def)
  from js(2) assms(2) obtain j' where "j' \<in> set js" "job_step j j'"
    by (metis list_all2_conv_all_nth in_set_conv_nth)
  with job_step_terminal assms(3) js(1) show ?thesis by auto
qed

text \<open>
  A finished job is final: whatever is called afterwards, in any order and under any faults,
  its row never changes again.
\<close>

theorem terminal_forever:
  assumes "run store_step d ops d'" and "db_inv d" and "j \<in> set (jobs d)" and "terminal j"
  shows "j \<in> set (jobs d')"
  using assms
proof (induction rule: run.induct)
  case (run_cons s e s1 es s2)
  then have "jobs_evolve s s1" and "db_inv s1"
    by (auto simp: store_step_iff apply_op_evolve apply_op_inv)
  with run_cons show ?case using terminal_kept by blast
qed

definition ex_done :: job_row where
  "ex_done = ex_job\<lparr>j_id := ''j3'', j_status := SUCCESS, j_finished_at := Some 8\<rparr>"

theorem terminal_forever_witness:
  "ex_done \<in> set (jobs (snd (Register no_faults 9 ''w9'' ex_params (ex_db\<lparr>jobs := [ex_done]\<rparr>))))"
proof -
  have "db_inv (ex_db\<lparr>jobs := [ex_done]\<rparr>)"
    by (rule db_invI)
       (auto simp: ex_done_def ex_defs worker_ok_def job_ok_def owner_ok_def active_def terminal_def
         max_int32_def max_int64_def history_ok_def attempts_def)
  moreover have "run store_step (ex_db\<lparr>jobs := [ex_done]\<rparr>)
     [OpRegister no_faults 9 ''w9'' ex_params]
     (snd (Register no_faults 9 ''w9'' ex_params (ex_db\<lparr>jobs := [ex_done]\<rparr>)))"
    by (auto simp: store_step_iff intro!: run.intros)
  ultimately show ?thesis
    using terminal_forever [of "ex_db\<lparr>jobs := [ex_done]\<rparr>" _ _ ex_done]
    by (simp add: ex_done_def terminal_def)
qed

end
