(* ===== verification/JobSpec.thy ===== *)
theory JobSpec
  imports StoreProperties
begin

text \<open>
  What the store promises about jobs, as an abstract system, and that the store implements it. In the abstract system a
  job is in one of a few phases and nothing else is known of it; one event moves one job, except that the death of a worker
  puts every job it holds back. The abstraction forgets tables, columns, transactions, faults and the retry
  counters; a call that fails or misses its guard is a step that changes nothing.
\<close>

section \<open>The abstract system\<close>

datatype phase =
    Waiting
  | Held "string option" "int option" bool   \<comment> \<open>worker, epoch, running\<close>
  | Backoff
  | Closed job_status

type_synonym board = "string \<Rightarrow> phase option"

datatype spec_event =
    Submit string
  | Assign string string int
  | Start string int
  | Report string int
  | Died string
  | Requeue string
  | Internal_call

definition put_back :: "string \<Rightarrow> board \<Rightarrow> board" where
  "put_back wid m jid =
     (case m jid of
        Some (Held (Some w) e r) \<Rightarrow> if w = wid then Some Waiting else m jid
      | _ \<Rightarrow> m jid)"

inductive spec_step :: "board \<Rightarrow> spec_event \<Rightarrow> board \<Rightarrow> bool" where
  nothing: "spec_step m e m"
| submit: "m jid = None \<Longrightarrow> spec_step m (Submit jid) (m(jid \<mapsto> Waiting))"
| assign: "m jid = Some Waiting \<Longrightarrow> spec_step m (Assign jid wid e) (m(jid \<mapsto> Held (Some wid) (Some e) False))"
| start: "m jid = Some (Held w (Some e) False) \<Longrightarrow> spec_step m (Start jid e) (m(jid \<mapsto> Held w (Some e) True))"
| close: "m jid = Some (Held w (Some e) r) \<Longrightarrow> st \<in> {SUCCESS, FAILED, CANCELLED} \<Longrightarrow>
            spec_step m (Report jid e) (m(jid \<mapsto> Closed st))"
| back_off: "m jid = Some (Held w (Some e) r) \<Longrightarrow> spec_step m (Report jid e) (m(jid \<mapsto> Backoff))"
| died: "spec_step m (Died wid) (put_back wid m)"
| requeue: "m jid = Some Backoff \<Longrightarrow> spec_step m (Requeue jid) (m(jid \<mapsto> Waiting))"

section \<open>The abstraction\<close>

definition phase_of :: "job_row \<Rightarrow> phase" where
  "phase_of j =
     (case j_status j of
        QUEUED \<Rightarrow> Waiting
      | ASSIGNED \<Rightarrow> Held (j_worker_id j) (j_assignment_epoch j) False
      | RUNNING \<Rightarrow> Held (j_worker_id j) (j_assignment_epoch j) True
      | RETRYING \<Rightarrow> Backoff
      | st \<Rightarrow> Closed st)"

definition board_of :: "db \<Rightarrow> board" where
  "board_of d jid = map_option phase_of (sql_first (\<lambda>j. j_id j = jid) (jobs d))"

fun event_of :: "store_op \<Rightarrow> spec_event" where
  "event_of (OpCreate flt now uuid p) = Submit uuid"
| "event_of (OpAssign flt now jid jca wid epoch) = Assign jid wid epoch"
| "event_of (OpRunning flt now jid epoch) = Start jid epoch"
| "event_of (OpComplete flt now jid jca epoch st l) = Report jid epoch"
| "event_of (OpRetryOrFail flt now goNow jid jca epoch wid msg l) = Report jid epoch"
| "event_of (OpMarkDead flt now wid epoch) = Died wid"
| "event_of (OpRequeueRetry flt jid jca) = Requeue jid"
| "event_of _ = Internal_call"

lemma board_of_jobs: "jobs d' = jobs d \<Longrightarrow> board_of d' = board_of d"
  by (simp add: board_of_def fun_eq_iff)

lemma board_of_row: "db_inv d \<Longrightarrow> j \<in> set (jobs d) \<Longrightarrow> board_of d (j_id j) = Some (phase_of j)"
  using sql_first_key [OF db_invD(3), of d j] by (simp add: board_of_def)

text \<open>An update of the one row it names moves that job alone; one that misses moves none.\<close>

lemma board_of_update:
  assumes inv: "db_inv d" and js: "jobs d' = sql_update P f (jobs d)"
    and P: "\<And>j. P j \<Longrightarrow> j_id j = jid" and f: "\<And>j. P j \<Longrightarrow> j_id (f j) = j_id j"
  shows "board_of d' = board_of d \<or>
         (\<exists>j\<in>set (jobs d). P j \<and> board_of d jid = Some (phase_of j) \<and> board_of d' = (board_of d)(jid \<mapsto> phase_of (f j)))"
proof (cases "\<exists>j\<in>set (jobs d). P j")
  case False
  then have "jobs d' = jobs d" unfolding js by (intro sql_update_id) blast
  then show ?thesis by (intro disjI1 board_of_jobs)
next
  case True
  then obtain j where j: "j \<in> set (jobs d)" "P j" by blast
  have first: "sql_first (\<lambda>x. j_id x = jid) (jobs d) = Some j"
    using sql_first_key [OF db_invD(3) [OF inv] j(1)] P [OF j(2)] by simp
  have "board_of d' i = ((board_of d)(jid \<mapsto> phase_of (f j))) i" for i
  proof -
    have read: "board_of d' i = map_option (\<lambda>x. phase_of (if P x then f x else x)) (sql_first (\<lambda>x. j_id x = i) (jobs d))"
      unfolding board_of_def js by (subst sql_first_update) (simp_all add: f option.map_comp comp_def)
    show ?thesis
    proof (cases "i = jid")
      case False
      have "\<not> P x" if "sql_first (\<lambda>x. j_id x = i) (jobs d) = Some x" for x
        using sql_first_SomeD [OF that] P False by auto
      with False show ?thesis
        unfolding read by (cases "sql_first (\<lambda>x. j_id x = i) (jobs d)") (auto simp: board_of_def)
    next
      case True
      with first j(2) show ?thesis unfolding read by simp
    qed
  qed
  then show ?thesis using j board_of_row [OF inv j(1)] P by (metis ext)
qed

section \<open>The simulation\<close>

lemma sim_assign:
  assumes inv: "db_inv d"
  shows "spec_step (board_of d) (Assign jid wid epoch) (board_of (snd (AssignJob flt now jid jca wid epoch d)))"
proof -
  let ?a = "(jid, jca, wid, epoch, now)"
  from AssignJob_outcome(1) [OF inv prod.collapse [symmetric], of flt now jid jca wid epoch] show ?thesis
  proof (elim disjE conjE)
    assume "snd (AssignJob flt now jid jca wid epoch d) = assigned ?a d"
    then have "jobs (snd (AssignJob flt now jid jca wid epoch d)) = sql_update (AssignJob_where ?a) (AssignJob_set ?a) (jobs d)"
      by (simp add: assigned_def)
    from board_of_update [OF inv this, of jid] show ?thesis
      by (auto simp: phase_of_def intro: spec_step.intros)
  qed (simp add: spec_step.nothing)
qed

lemma sim_exec:
  assumes inv: "db_inv d" and m: "\<And>a d'. m d = Inr (a, d') \<Longrightarrow> jobs d' = sql_update P f (jobs d)"
    and P: "\<And>j. P j \<Longrightarrow> j_id j = jid" and f: "\<And>j. P j \<Longrightarrow> j_id (f j) = j_id j"
    and step: "\<And>j b. j \<in> set (jobs d) \<Longrightarrow> P j \<Longrightarrow> b jid = Some (phase_of j) \<Longrightarrow> spec_step b e (b(jid \<mapsto> phase_of (f j)))"
  shows "spec_step (board_of d) e (board_of (snd (exec flt s m d)))"
proof (rule exec_invariant [of "\<lambda>x. spec_step (board_of d) e (board_of x)"])
  fix a d'
  assume "m d = Inr (a, d')"
  from board_of_update [OF inv m [OF this] P f] show "spec_step (board_of d) e (board_of d')"
    using step by (auto intro: spec_step.nothing)
qed (rule spec_step.nothing)

lemma sim_running:
  "db_inv d \<Longrightarrow> spec_step (board_of d) (Start jid epoch) (board_of (snd (MarkRunning flt now jid epoch d)))"
  unfolding MarkRunning_def
  by (rule sim_exec [where P = "MarkRunning_where (jid, epoch, now)" and f = "MarkRunning_set (jid, epoch, now)"])
     (auto simp: Let_def phase_of_def intro: spec_step.start)

lemma phase_active:
  "active j \<Longrightarrow> \<exists>r. phase_of j = Held (j_worker_id j) (j_assignment_epoch j) r"
  by (auto simp: active_def phase_of_def)

lemma sim_complete:
  assumes inv: "db_inv d" and st: "st \<in> {''SUCCESS'', ''FAILED'', ''CANCELLED''}"
  shows "spec_step (board_of d) (Report jid epoch) (board_of (snd (Complete flt now jid jca epoch st l d)))"
proof -
  obtain s where s: "to_job_status st = Some s" "s \<in> {SUCCESS, FAILED, CANCELLED}"
    using st by (auto simp: to_job_status_def all_job_statuses_def)
  let ?a = "(jid, jca, epoch, s, nonempty l, now)"
  show ?thesis
    unfolding Complete_def
  proof (rule sim_exec [OF inv, where P = "Complete_where ?a" and f = "Complete_set ?a"])
    fix j b
    assume "Complete_where ?a j" "b jid = Some (phase_of j)"
    then show "spec_step b (Report jid epoch) (b(jid \<mapsto> phase_of (Complete_set ?a j)))"
      using phase_active [of j] s(2) by (auto simp: phase_of_def intro: spec_step.close)
  qed (auto simp: s Let_def)
qed

lemma sim_fail:
  assumes inv: "db_inv d"
  shows "spec_step (board_of d) (Report jid epoch) (board_of (snd (RetryOrFail flt now goNow jid jca epoch wid msg l d)))"
  unfolding RetryOrFail_def
proof (rule BeginFunc_invariant [of "\<lambda>x. spec_step (board_of d) (Report jid epoch) (board_of x)"])
  fix a d'
  assume b: "RetryOrFail_body flt now goNow jid jca epoch wid msg l d = Inr (a, d')"
  obtain st ok where a: "a = (st, ok)" by (cases a)
  from RetryOrFail_body_effect [OF db_invD(3) [OF inv] b [unfolded a]]
  consider "d' = d" | "jobs d' = sql_update (reported jid jca epoch) (fail_set now goNow (nonempty l)) (jobs d)"
    by (auto dest!: insert_retry_history_Inr)
  then show "spec_step (board_of d) (Report jid epoch) (board_of d')"
  proof cases
    case 2
    have id: "j_id (fail_set now goNow (nonempty l) j) = j_id j" for j by (simp add: fail_set_def Let_def)
    have "spec_step (board_of d) (Report jid epoch) ((board_of d)(jid \<mapsto> phase_of (fail_set now goNow (nonempty l) j)))"
      if "reported jid jca epoch j" "board_of d jid = Some (phase_of j)" for j
      using that phase_active [of j]
      by (auto simp: reported_def fail_set_def Let_def phase_of_def intro: spec_step.close spec_step.back_off)
    with board_of_update [OF inv 2, of jid] id show ?thesis by (auto simp: reported_def intro: spec_step.nothing)
  qed (simp add: spec_step.nothing)
qed (rule spec_step.nothing)

lemma sim_requeue:
  "db_inv d \<Longrightarrow> spec_step (board_of d) (Requeue jid) (board_of (snd (MarkQueuedFromRetry flt jid jca d)))"
  unfolding MarkQueuedFromRetry_def
  by (rule sim_exec [where P = "MarkQueued_where (jid, jca)" and f = "MarkQueued_set (jid, jca)"])
     (auto simp: Let_def phase_of_def intro: spec_step.requeue)

lemma phase_after_death:
  "Some (phase_of (if held_by wid j then requeued j else j)) = put_back wid (\<lambda>_. Some (phase_of j)) jid"
  by (cases "j_status j"; cases "j_worker_id j")
     (simp_all add: phase_of_def held_by_def requeued_def active_def put_back_def)

lemma sim_died:
  assumes inv: "db_inv d"
  shows "spec_step (board_of d) (Died wid) (board_of (snd (MarkDeadAndRequeue flt now wid epoch d)))"
proof -
  let ?d = "snd (MarkDeadAndRequeue flt now wid epoch d)"
  from MarkDeadAndRequeue_outcome(1) [OF inv prod.collapse [symmetric], of flt now wid epoch] show ?thesis
  proof (elim disjE conjE)
    assume "dead_effect now wid epoch d ?d"
    then have js: "jobs ?d = sql_update (held_by wid) requeued (jobs d)" by (simp add: dead_effect_def)
    have "board_of ?d jid = put_back wid (board_of d) jid" for jid
    proof -
      have "board_of ?d jid = map_option (\<lambda>x. phase_of (if held_by wid x then requeued x else x))
              (sql_first (\<lambda>x. j_id x = jid) (jobs d))"
        unfolding board_of_def js by (subst sql_first_update) (simp_all add: requeued_def option.map_comp comp_def)
      moreover have "put_back wid (board_of d) jid = put_back wid (\<lambda>_. board_of d jid) jid" by (simp add: put_back_def)
      ultimately show ?thesis
        using phase_after_death [of wid _ jid]
        by (cases "sql_first (\<lambda>x. j_id x = jid) (jobs d)") (simp_all add: board_of_def [of d] put_back_def [of wid "\<lambda>_. None"])
    qed
    then have "board_of ?d = put_back wid (board_of d)" by (rule ext)
    then show ?thesis by (simp add: spec_step.died)
  qed (simp add: spec_step.nothing)
qed

lemma sim_create:
  assumes "\<forall>j\<in>set (jobs d). j_id j \<noteq> uuid"
  shows "spec_step (board_of d) (Submit uuid) (board_of (snd (JobStore_Create flt now uuid p d)))"
proof -
  have none: "sql_first (\<lambda>j. j_id j = uuid) (jobs d) = None" using assms by (auto simp: sql_first_None)
  have app: "sql_first P (xs @ [r]) = (case sql_first P xs of None \<Rightarrow> if P r then Some r else None | Some x \<Rightarrow> Some x)"
    for P and r :: job_row and xs by (induction xs) auto
  have new: "board_of (d\<lparr>jobs := jobs d @ [Create_row now uuid q]\<rparr>) = (board_of d)(uuid \<mapsto> Waiting)" for q
    by (rule ext) (auto simp: board_of_def app none Create_row_def phase_of_def split: option.splits)
  have sub: "spec_step (board_of d) (Submit uuid) ((board_of d)(uuid \<mapsto> Waiting))"
    by (rule spec_step.submit) (simp add: board_of_def none)
  have "spec_step (board_of d) (Submit uuid) (board_of (snd (exec flt S_create_insert (Create_insert now uuid q) d)))" for q
    by (rule exec_invariant [of "\<lambda>x. spec_step (board_of d) (Submit uuid) (board_of x)"])
       (auto simp: Create_insert_def Let_def new sub intro: spec_step.nothing split: if_splits)
  then show ?thesis
    by (auto simp: JobStore_Create_def Let_def intro: spec_step.nothing split: prod.splits sum.splits pg_error.splits)
       (metis snd_conv)+
qed

lemma store_simulates:
  assumes inv: "db_inv d" and step: "store_step d op d'"
  shows "spec_step (board_of d) (event_of op) (board_of d')"
proof -
  have d': "d' = apply_op op d" and al: "op_allowed op d" using step by (auto simp: store_step_iff)
  show ?thesis
    unfolding d' using al inv
    by (cases op) (simp_all add: list_all_iff worker_ops_jobs [THEN board_of_jobs] spec_step.nothing
        sim_assign sim_running sim_complete sim_fail sim_requeue sim_died sim_create)
qed

interpretation jobs_refine: refinement "\<lambda>d. d = empty_db" store_step db_inv spec_step board_of event_of
  by unfold_locales (rule store_simulates)

text \<open>
  C6. The store implements the abstract system: whatever calls are made in whatever order, under whatever faults, the phases of the
  jobs develop as a run of the abstract system with the corresponding events. So a job is handed out only while it waits, only
  a report under the epoch of its current assignment closes it or sends it to back off, a worker's death puts back exactly the
  jobs that worker holds, and nothing moves a closed job.
\<close>

theorem store_refines_spec:
  assumes "run store_step empty_db ops d"
  shows "run spec_step (\<lambda>_. None) (map event_of ops) (board_of d)"
proof -
  have "board_of empty_db = (\<lambda>_. None)" by (simp add: board_of_def empty_db_def fun_eq_iff)
  with jobs_refine.reachable_refines [OF refl assms] show ?thesis by simp
qed

theorem store_refines_spec_witness:
  "run spec_step (\<lambda>_. None) (map event_of ex_ops) (board_of (foldl (\<lambda>d op. apply_op op d) empty_db ex_ops))"
  by (rule store_refines_spec [OF ex_run])

section \<open>Epochs are counted per worker\<close>

text \<open>
  The epoch of an assignment is the epoch of its worker, and every worker counts its own. So the guard of a report does not
  tell two workers apart: a job that is taken from a dead worker and given to another one with the same epoch can still be
  closed by the late report of the first.
\<close>

definition collision_ops :: "store_op list" where
  "collision_ops =
     [OpRegister no_faults 1 ''wA'' ex_params,
      OpRegister no_faults 2 ''wB'' (ex_params\<lparr>rp_InstanceID := ''i2''\<rparr>),
      OpCreate no_faults 3 ''j'' ex_create,
      OpAssign no_faults 4 ''j'' 3 ''wA'' 1,
      OpMarkDead no_faults 40 ''wA'' 1,
      OpAssign no_faults 41 ''j'' 3 ''wB'' 1]"

fun allowed_ops :: "store_op list \<Rightarrow> db \<Rightarrow> bool" where
  "allowed_ops [] d \<longleftrightarrow> True"
| "allowed_ops (op # ops) d \<longleftrightarrow> op_allowed op d \<and> allowed_ops ops (apply_op op d)"

lemma allowed_ops_run: "allowed_ops ops d \<Longrightarrow> run store_step d ops (fold apply_op ops d)"
  by (induction ops arbitrary: d) (auto intro!: run.intros store_step.call)


end
