(* ===== verification/GoLib.thy ===== *)
theory GoLib
  imports Prelude
begin

text \<open>
  The parts of Go's standard library that the program's results depend on: \<open>strconv.Itoa\<close>,
  \<open>strconv.ParseInt\<close> in base 10 (the callers drop its error, so the value Go returns beside the
  error matters), \<open>strconv.ParseBool\<close>, and \<open>strings.Join\<close> and \<open>strings.Split\<close> on a one-character
  separator.
\<close>

section \<open>strconv\<close>

definition digit :: "nat \<Rightarrow> char" where
  "digit n = (''0123456789'' ! n)"

fun format_nat :: "nat \<Rightarrow> string" where
  "format_nat n = (if n < 10 then [digit n] else format_nat (n div 10) @ [digit (n mod 10)])"

definition Itoa :: "int \<Rightarrow> string" where
  "Itoa i = (if i < 0 then CHR ''-'' # format_nat (nat (- i)) else format_nat (nat i))"

definition digit_val :: "char \<Rightarrow> nat option" where
  "digit_val c = find (\<lambda>n. digit n = c) [0..<10]"

text \<open>
  \<open>ParseUint\<close>: a bad character is a syntax error; leaving the range stops the scan with the
  largest value.
\<close>

fun parse_uint :: "nat \<Rightarrow> nat \<Rightarrow> string \<Rightarrow> nat option" where
  "parse_uint m n [] = Some n"
| "parse_uint m n (c # cs) =
     (case digit_val c of
        None \<Rightarrow> None
      | Some d \<Rightarrow> if m < n * 10 + d then Some m else parse_uint m (n * 10 + d) cs)"

definition clamp_int :: "nat \<Rightarrow> int \<Rightarrow> int" where
  "clamp_int bits i = max (- (2 ^ (bits - 1))) (min i (2 ^ (bits - 1) - 1))"

text \<open>The value of \<open>ParseInt(s, 10, bits)\<close>: 0 on a syntax error, the nearest bound out of range.\<close>

definition ParseInt :: "string \<Rightarrow> nat \<Rightarrow> int" where
  "ParseInt s bits =
     (let (neg, ds) = (case s of
                         [] \<Rightarrow> (False, [])
                       | c # cs \<Rightarrow> if c = CHR ''+'' then (False, cs)
                                  else if c = CHR ''-'' then (True, cs) else (False, s))
      in if ds = [] then 0
         else case parse_uint (2 ^ bits - 1) 0 ds of
                None \<Rightarrow> 0
              | Some n \<Rightarrow> clamp_int bits (if neg then - int n else int n))"

definition ParseBool :: "string \<Rightarrow> bool" where
  "ParseBool s \<longleftrightarrow> s \<in> {''1'', ''t'', ''T'', ''TRUE'', ''true'', ''True''}"

lemma digit_val_digit [simp]: "n < 10 \<Longrightarrow> digit_val (digit n) = Some n"
proof -
  assume "n < 10"
  then have "n \<in> {0, 1, 2, 3, 4, 5, 6, 7, 8, 9}" by auto
  then show ?thesis by (auto simp: digit_val_def digit_def upt_rec)
qed

lemma digit_not_sign [simp]: "n < 10 \<Longrightarrow> digit n \<noteq> CHR ''+'' \<and> digit n \<noteq> CHR ''-''"
proof -
  assume "n < 10"
  then have "n \<in> {0, 1, 2, 3, 4, 5, 6, 7, 8, 9}" by auto
  then show ?thesis by (auto simp: digit_def)
qed

declare format_nat.simps [simp del]

lemma parse_uint_append:
  "n \<le> m \<Longrightarrow> parse_uint m n xs = Some k \<Longrightarrow> k < m \<Longrightarrow> parse_uint m n (xs @ ys) = parse_uint m k ys"
  by (induction m n xs rule: parse_uint.induct) (auto split: option.splits if_splits)

lemma parse_format_nat:
  "k \<le> m \<Longrightarrow> parse_uint m 0 (format_nat k) = Some k"
proof (induction k rule: format_nat.induct)
  case (1 k)
  show ?case
  proof (cases "k < 10")
    case True
    with 1 show ?thesis by (simp add: format_nat.simps [of k])
  next
    case False
    then have "k div 10 < m" using 1(2) by linarith
    with 1 False have "parse_uint m 0 (format_nat k) = parse_uint m (k div 10) [digit (k mod 10)]"
      by (simp add: format_nat.simps [of k] parse_uint_append)
    then show ?thesis using 1(2) by (simp add: mult.commute)
  qed
qed

lemma format_nat_head: "\<exists>d ds. d < 10 \<and> format_nat n = digit d # ds"
proof (induction n rule: format_nat.induct)
  case (1 n)
  then show ?case
    by (cases "n < 10") (auto simp: format_nat.simps [of n])
qed

lemma ParseInt_Itoa:
  assumes "- (2 ^ (bits - 1)) \<le> i" and "i < 2 ^ (bits - 1)" and "0 < bits"
  shows "ParseInt (Itoa i) bits = i"
proof -
  have p: "(2 :: int) ^ bits = 2 * 2 ^ (bits - 1)" using assms(3) by (cases bits) auto
  have b: "nat \<bar>i\<bar> \<le> 2 ^ bits - 1"
  proof -
    have "\<bar>i\<bar> \<le> 2 ^ bits - 1" using assms p by (simp add: abs_le_iff)
    then show ?thesis by (simp add: nat_le_iff of_nat_diff)
  qed
  obtain d ds where d: "d < 10" "format_nat (nat \<bar>i\<bar>) = digit d # ds" using format_nat_head by blast
  have "parse_uint (2 ^ bits - 1) 0 (digit d # ds) = Some (nat \<bar>i\<bar>)"
    using parse_format_nat [OF b] d by simp
  then show ?thesis
    using d assms by (auto simp: ParseInt_def Itoa_def clamp_int_def)
qed

lemma Itoa_inj [simp]: "Itoa i = Itoa j \<longleftrightarrow> i = j"
proof
  assume eq: "Itoa i = Itoa j"
  have "int (nat (\<bar>i\<bar> + \<bar>j\<bar>)) < int (2 ^ nat (\<bar>i\<bar> + \<bar>j\<bar>))"
    using less_exp by (simp only: of_nat_less_iff)
  then have "\<exists>n. \<bar>i\<bar> + \<bar>j\<bar> < 2 ^ n" by (intro exI [of _ "nat (\<bar>i\<bar> + \<bar>j\<bar>)"]) simp
  then obtain n where n: "\<bar>i\<bar> + \<bar>j\<bar> < 2 ^ n" ..
  have p: "ParseInt (Itoa k) (Suc n) = k" if "\<bar>k\<bar> < 2 ^ n" for k
    by (rule ParseInt_Itoa) (use that in \<open>simp_all add: abs_less_iff\<close>)
  have "\<bar>i\<bar> < 2 ^ n" "\<bar>j\<bar> < 2 ^ n" using n by arith+
  then have "ParseInt (Itoa i) (Suc n) = i" "ParseInt (Itoa j) (Suc n) = j" by (simp_all only: p)
  with eq show "i = j" by metis
qed simp

lemmas ParseInt_Itoa_64 = ParseInt_Itoa [of 64, simplified]
lemmas ParseInt_Itoa_32 = ParseInt_Itoa [of 32, simplified]

section \<open>strings\<close>

fun Join :: "string list \<Rightarrow> char \<Rightarrow> string" where
  "Join [] sep = []"
| "Join [s] sep = s"
| "Join (s # t # ts) sep = s @ sep # Join (t # ts) sep"

text \<open>\<open>Split\<close> never returns an empty list: the empty string splits into one empty piece.\<close>

fun Split :: "string \<Rightarrow> char \<Rightarrow> string list" where
  "Split [] sep = [[]]"
| "Split (c # cs) sep =
     (if c = sep then [] # Split cs sep
      else case Split cs sep of
             [] \<Rightarrow> [[c]]
           | p # ps \<Rightarrow> (c # p) # ps)"

lemma Split_no_sep: "sep \<notin> set s \<Longrightarrow> Split s sep = [s]"
  by (induction s) auto

lemma Split_append: "sep \<notin> set s \<Longrightarrow> Split (s @ sep # t) sep = s # Split t sep"
  by (induction s) auto

lemma Split_Join:
  assumes "xs \<noteq> []" and "\<And>x. x \<in> set xs \<Longrightarrow> sep \<notin> set x"
  shows "Split (Join xs sep) sep = xs"
  using assms by (induction xs sep rule: Join.induct) (auto simp: Split_no_sep Split_append)

lemma Join_empty: "Join xs sep = [] \<longleftrightarrow> xs = [] \<or> xs = [[]]"
  by (induction xs sep rule: Join.induct) auto

lemma Join_Cons_char: "Join ((c # x) # xs) sep = c # Join (x # xs) sep"
  by (cases xs) simp_all

lemma Split_not_Nil [simp]: "Split s sep \<noteq> []"
  by (cases s) (auto split: list.splits)

lemma Join_Split: "Join (Split s sep) sep = s"
proof (induction s)
  case (Cons c cs)
  then show ?case
    by (cases "Split cs sep") (auto simp: Join_Cons_char)
qed simp

lemma format_nat_digits: "x \<in> set (format_nat n) \<Longrightarrow> \<exists>d<10. x = digit d"
proof (induction n rule: format_nat.induct)
  case (1 n)
  show ?case
  proof (cases "n < 10")
    case False
    then have "x \<in> set (format_nat (n div 10)) \<or> x = digit (n mod 10)"
      using "1.prems" by (subst (asm) format_nat.simps) (auto simp del: format_nat.simps)
    then show ?thesis using "1.IH" [OF False] mod_less_divisor [of 10 n] by fastforce
  next
    case True
    with "1.prems" have "x = digit n" by (subst (asm) format_nat.simps) simp
    with True show ?thesis by blast
  qed
qed

lemma digit_table: "list_all (\<lambda>d. digit d \<notin> {CHR ''.'', CHR '','', CHR '':''}) [0..<10]"
  by code_simp

lemma Itoa_no_sep: "CHR ''.'' \<notin> set (Itoa i)"
proof
  assume "CHR ''.'' \<in> set (Itoa i)"
  then obtain n where "CHR ''.'' \<in> set (format_nat n)"
    by (auto simp: Itoa_def simp del: format_nat.simps split: if_splits)
  from format_nat_digits [OF this] digit_table show False by (auto simp: list_all_iff)
qed

section \<open>Parsing with errors\<close>

text \<open>\<open>strconv.Atoi\<close> on 64 bits; \<open>None\<close> is its error.\<close>

definition Atoi :: "string \<Rightarrow> int option" where
  "Atoi s =
     (let (neg, ds) = (case s of
                         [] \<Rightarrow> (False, [])
                       | c # cs \<Rightarrow> if c = CHR ''+'' then (False, cs)
                                  else if c = CHR ''-'' then (True, cs) else (False, s))
      in if ds = [] then None
         else case parse_uint (2 ^ 64 - 1) 0 ds of
                None \<Rightarrow> None
              | Some n \<Rightarrow>
                  let i = (if neg then - int n else int n)
                  in if - (2 ^ 63) \<le> i \<and> i < 2 ^ 63 then Some i else None)"

lemma Atoi_Itoa:
  assumes "- (2 ^ 63) \<le> i" and "i < 2 ^ 63"
  shows "Atoi (Itoa i) = Some i"
proof -
  have b: "nat \<bar>i\<bar> \<le> 2 ^ 64 - 1" using assms by (simp add: nat_le_iff abs_le_iff)
  obtain d ds where d: "d < 10" "format_nat (nat \<bar>i\<bar>) = digit d # ds" using format_nat_head by blast
  have "parse_uint (2 ^ 64 - 1) 0 (digit d # ds) = Some (nat \<bar>i\<bar>)"
    using parse_format_nat [OF b] d by simp
  then show ?thesis using d assms by (auto simp: Atoi_def Itoa_def)
qed

text \<open>\<open>strings.TrimSpace\<close> on ASCII text, and \<open>strings.Cut\<close> at a one-character separator.\<close>

definition is_space :: "char \<Rightarrow> bool" where
  "is_space c \<longleftrightarrow> c \<in> {CHR 0x09, CHR 0x0A, CHR 0x0B, CHR 0x0C, CHR 0x0D, CHR '' ''}"

definition TrimSpace :: "string \<Rightarrow> string" where
  "TrimSpace s = rev (dropWhile is_space (rev (dropWhile is_space s)))"

definition Cut :: "string \<Rightarrow> char \<Rightarrow> (string \<times> string) option" where
  "Cut s sep = (if sep \<in> set s then Some (takeWhile (\<lambda>c. c \<noteq> sep) s, tl (dropWhile (\<lambda>c. c \<noteq> sep) s)) else None)"

definition trimmed :: "string \<Rightarrow> bool" where
  "trimmed s \<longleftrightarrow> s = [] \<or> \<not> is_space (hd s) \<and> \<not> is_space (last s)"

lemma dropWhile_head: "s = [] \<or> \<not> P (hd s) \<Longrightarrow> dropWhile P s = s"
  by (cases s) auto

lemma TrimSpace_trimmed [simp]: "trimmed s \<Longrightarrow> TrimSpace s = s"
  using dropWhile_head [of s is_space] dropWhile_head [of "rev s" is_space]
  by (auto simp: trimmed_def TrimSpace_def hd_rev)

lemma Cut_append: "sep \<notin> set k \<Longrightarrow> Cut (k @ sep # v) sep = Some (k, v)"
proof -
  assume k: "sep \<notin> set k"
  then have "takeWhile (\<lambda>c. c \<noteq> sep) (k @ sep # v) = k" by (induction k) auto
  moreover from k have "dropWhile (\<lambda>c. c \<noteq> sep) (k @ sep # v) = sep # v" by (induction k) auto
  ultimately show ?thesis by (simp add: Cut_def)
qed

end
