(* ===== verification/RedisCache.thy ===== *)
theory RedisCache
  imports GoLib
begin

text \<open>
  \<open>internal/store/redis/cache.go\<close>. The go-redis client and the server behind it are not part of
  the repository: their commands are the fields of a record, a parameter of every operation, and
  \<open>redis_ok\<close> states the documented behaviour the code relies on. Each call may fail before or after
  the server has applied it. \<open>mem_redis\<close> is an in-memory server that satisfies \<open>redis_ok\<close>.
\<close>

section \<open>The client\<close>

text \<open>The Go values the code passes as arguments.\<close>

datatype redis_arg = ArgInt int | ArgStr string | ArgBool bool

type_synonym entry = "string \<times> (string \<times> string) list"   \<comment> \<open>message id and its fields\<close>

record 'r redis_client =
  HSet :: "string \<Rightarrow> (string \<times> redis_arg) list \<Rightarrow> 'r \<Rightarrow> 'r"
  HGetAll :: "string \<Rightarrow> 'r \<Rightarrow> (string \<times> string) list"
  Del :: "string list \<Rightarrow> 'r \<Rightarrow> 'r"
  SetTTL :: "string \<Rightarrow> string \<Rightarrow> int \<Rightarrow> 'r \<Rightarrow> 'r"
  XAdd :: "string \<Rightarrow> nat \<Rightarrow> (string \<times> string) list \<Rightarrow> 'r \<Rightarrow> 'r"
  XRange :: "string \<Rightarrow> 'r \<Rightarrow> entry list"
  XAck :: "string \<Rightarrow> string \<Rightarrow> string \<Rightarrow> 'r \<Rightarrow> 'r"
  XReadGroup :: "string \<Rightarrow> string \<Rightarrow> (string \<times> string) list \<Rightarrow> nat \<Rightarrow> 'r \<Rightarrow> (string \<times> entry list) list \<times> 'r"
  XGroupCreateMkStream :: "string \<Rightarrow> string \<Rightarrow> string \<Rightarrow> 'r \<Rightarrow> string option \<times> 'r"

text \<open>A command that changes the server: the caller learns whether it got a reply.\<close>

definition rexec :: "fault \<Rightarrow> ('r \<Rightarrow> 'r) \<Rightarrow> 'r \<Rightarrow> bool \<times> 'r" where
  "rexec f cmd r = (f = NoFault, if f = NotApplied then r else cmd r)"

lemma rexec_cases:
  "rexec f cmd r = (True, cmd r) \<or> rexec f cmd r = (False, cmd r) \<or> rexec f cmd r = (False, r)"
  by (cases f) (auto simp: rexec_def)

section \<open>The worker cache\<close>

record WorkerState =
  ws_Epoch :: int
  ws_Status :: string
  ws_CurrentJobID :: string
  ws_AvailableCapacity :: int
  ws_LastPGFlushUnix :: int
  ws_DrainRequested :: bool

definition stateKey :: "string \<Rightarrow> string" where
  "stateKey workerID = ''worker:'' @ workerID @ '':state''"

definition aliveKey :: "string \<Rightarrow> string" where
  "aliveKey workerID = ''worker:'' @ workerID @ '':alive''"

definition SetState :: "'r redis_client \<Rightarrow> fault \<Rightarrow> string \<Rightarrow> WorkerState \<Rightarrow> 'r \<Rightarrow> bool \<times> 'r" where
  "SetState C f workerID s =
     rexec f (HSet C (stateKey workerID)
                [(''epoch'', ArgInt (ws_Epoch s)), (''status'', ArgStr (ws_Status s)),
                 (''current_job_id'', ArgStr (ws_CurrentJobID s)),
                 (''available_capacity'', ArgInt (ws_AvailableCapacity s)),
                 (''last_pg_flush_unix'', ArgInt (ws_LastPGFlushUnix s))])"

definition SetDrainRequested :: "'r redis_client \<Rightarrow> fault \<Rightarrow> string \<Rightarrow> bool \<Rightarrow> 'r \<Rightarrow> bool \<times> 'r" where
  "SetDrainRequested C f workerID b =
     rexec f (HSet C (stateKey workerID) [(''drain_requested'', ArgBool b)])"

definition field :: "(string \<times> string) list \<Rightarrow> string \<Rightarrow> string" where
  "field res k = (case map_of res k of None \<Rightarrow> '''' | Some v \<Rightarrow> v)"

text \<open>\<open>None\<close> is the error, \<open>Some None\<close> a cache miss.\<close>

definition GetState :: "'r redis_client \<Rightarrow> fault \<Rightarrow> string \<Rightarrow> 'r \<Rightarrow> WorkerState option option" where
  "GetState C f workerID r =
     (if f \<noteq> NoFault then None
      else let res = HGetAll C (stateKey workerID) r
           in if res = [] then Some None
              else Some (Some
                \<lparr>ws_Epoch = ParseInt (field res ''epoch'') 64, ws_Status = field res ''status'',
                 ws_CurrentJobID = field res ''current_job_id'',
                 ws_AvailableCapacity = ParseInt (field res ''available_capacity'') 32,
                 ws_LastPGFlushUnix = ParseInt (field res ''last_pg_flush_unix'') 64,
                 ws_DrainRequested = ParseBool (field res ''drain_requested'')\<rparr>))"

definition SetAlive :: "'r redis_client \<Rightarrow> fault \<Rightarrow> string \<Rightarrow> int \<Rightarrow> 'r \<Rightarrow> bool \<times> 'r" where
  "SetAlive C f workerID ttl = rexec f (SetTTL C (aliveKey workerID) ''1'' ttl)"

definition Delete :: "'r redis_client \<Rightarrow> fault \<Rightarrow> string \<Rightarrow> 'r \<Rightarrow> bool \<times> 'r" where
  "Delete C f workerID = rexec f (Del C [stateKey workerID, aliveKey workerID])"

section \<open>What the code relies on\<close>

text \<open>
  How go-redis writes an argument: integers in decimal, booleans as \<open>1\<close> and \<open>0\<close>, strings as they
  are. A hash is read back as its fields; \<open>HSET\<close> sets the given fields and leaves the others; \<open>DEL\<close>
  removes the keys; \<open>SET\<close> on another key and the stream commands do not touch a hash. \<open>XADD\<close> appends
  one entry to its stream and, with \<open>MAXLEN\<close>, may trim the oldest entries of a stream that has
  reached that length; \<open>XRANGE\<close>, which the program does not call, is how the contract reads a stream.
\<close>

fun wire :: "redis_arg \<Rightarrow> string" where
  "wire (ArgInt i) = Itoa i"
| "wire (ArgStr s) = s"
| "wire (ArgBool b) = (if b then ''1'' else ''0'')"

definition hash :: "'r redis_client \<Rightarrow> 'r \<Rightarrow> string \<Rightarrow> string \<Rightarrow> string option" where
  "hash C r k = map_of (HGetAll C k r)"

definition redis_ok :: "'r redis_client \<Rightarrow> bool" where
  "redis_ok C \<longleftrightarrow>
     (\<forall>r k kvs k'. distinct (map fst kvs) \<longrightarrow> hash C (HSet C k kvs r) k' =
        (if k' = k then hash C r k ++ map_of (map (\<lambda>(f, a). (f, wire a)) kvs) else hash C r k')) \<and>
     (\<forall>r ks k. hash C (Del C ks r) k = (if k \<in> set ks then Map.empty else hash C r k)) \<and>
     (\<forall>r k v t k'. k' \<noteq> k \<longrightarrow> hash C (SetTTL C k v t r) k' = hash C r k') \<and>
     (\<forall>r k m fs k'. hash C (XAdd C k m fs r) k' = hash C r k') \<and>
     (\<forall>r k m fs. \<exists>i n. XRange C k (XAdd C k m fs r) = drop n (XRange C k r) @ [(i, fs)] \<and>
                       (length (XRange C k r) < m \<longrightarrow> n = 0)) \<and>
     (\<forall>r k m fs k'. k' \<noteq> k \<longrightarrow> XRange C k' (XAdd C k m fs r) = XRange C k' r) \<and>
     (\<forall>r k g i k'. hash C (XAck C k g i r) k' = hash C r k') \<and>
     (\<forall>r g c ks n k'. hash C (snd (XReadGroup C g c ks n r)) k' = hash C r k')"

lemma redis_okD:
  assumes "redis_ok C"
  shows "distinct (map fst kvs) \<Longrightarrow> hash C (HSet C k kvs r) k' =
     (if k' = k then hash C r k ++ map_of (map (\<lambda>(f, a). (f, wire a)) kvs) else hash C r k')"
    and "hash C (Del C ks r) k = (if k \<in> set ks then Map.empty else hash C r k)"
    and "k' \<noteq> k \<Longrightarrow> hash C (SetTTL C k v t r) k' = hash C r k'"
    and "hash C (XAdd C k m fs r) k' = hash C r k'"
    and "hash C (XAck C k g i r) k' = hash C r k'"
    and "hash C (snd (XReadGroup C g c ss n r)) k' = hash C r k'"
    and "\<exists>i n. XRange C k (XAdd C k m fs r) = drop n (XRange C k r) @ [(i, fs)] \<and>
               (length (XRange C k r) < m \<longrightarrow> n = 0)"
    and "k' \<noteq> k \<Longrightarrow> XRange C k' (XAdd C k m fs r) = XRange C k' r"
  using assms by (auto simp: redis_ok_def)

lemma stateKey_inj [simp]: "stateKey a = stateKey b \<longleftrightarrow> a = b"
  by (simp add: stateKey_def)

lemma stateKey_aliveKey [simp]: "stateKey a \<noteq> aliveKey b" "aliveKey b \<noteq> stateKey a"
proof -
  have "last (stateKey a) = CHR ''e''" "last (butlast (stateKey a)) = CHR ''t''"
    "last (butlast (aliveKey b)) = CHR ''v''"
    by (simp_all add: stateKey_def aliveKey_def butlast_append)
  then show "stateKey a \<noteq> aliveKey b" "aliveKey b \<noteq> stateKey a" by auto
qed

text \<open>The cached state of a worker as the client would read it now.\<close>

definition cached :: "'r redis_client \<Rightarrow> 'r \<Rightarrow> string \<Rightarrow> WorkerState option" where
  "cached C r wid = (case GetState C NoFault wid r of None \<Rightarrow> None | Some s \<Rightarrow> s)"

lemma GetState_cached: "GetState C f wid r = (if f = NoFault then Some (cached C r wid) else None)"
  by (auto simp: GetState_def cached_def Let_def)

definition read_hash :: "(string \<Rightarrow> string option) \<Rightarrow> WorkerState option" where
  "read_hash h =
     (if h = Map.empty then None
      else let get = (\<lambda>k. case h k of None \<Rightarrow> '''' | Some v \<Rightarrow> v)
           in Some \<lparr>ws_Epoch = ParseInt (get ''epoch'') 64, ws_Status = get ''status'',
                    ws_CurrentJobID = get ''current_job_id'',
                    ws_AvailableCapacity = ParseInt (get ''available_capacity'') 32,
                    ws_LastPGFlushUnix = ParseInt (get ''last_pg_flush_unix'') 64,
                    ws_DrainRequested = ParseBool (get ''drain_requested'')\<rparr>)"

lemma cached_hash: "cached C r wid = read_hash (hash C r (stateKey wid))"
  by (auto simp: cached_def GetState_def read_hash_def hash_def field_def Let_def)

text \<open>A state the cache can represent: the integers fit the widths the reader parses.\<close>

definition state_ok :: "WorkerState \<Rightarrow> bool" where
  "state_ok s \<longleftrightarrow>
     - 9223372036854775808 \<le> ws_Epoch s \<and> ws_Epoch s \<le> max_int64 \<and>
     - 2147483648 \<le> ws_AvailableCapacity s \<and> ws_AvailableCapacity s \<le> max_int32 \<and>
     - 9223372036854775808 \<le> ws_LastPGFlushUnix s \<and> ws_LastPGFlushUnix s \<le> max_int64"

definition drain_flag :: "WorkerState option \<Rightarrow> bool" where
  "drain_flag so = (case so of None \<Rightarrow> False | Some s \<Rightarrow> ws_DrainRequested s)"

lemma ParseInt_empty [simp]: "ParseInt '''' b = 0"
  by (simp add: ParseInt_def)

lemma ParseBool_bit [simp]:
  "ParseBool ''1''" "\<not> ParseBool ''0''" "\<not> ParseBool ''''"
  by (simp_all add: ParseBool_def)

lemma cached_SetState:
  assumes "redis_ok C" and "state_ok s"
  shows "cached C (snd (SetState C NoFault wid s r)) wid' =
     (if wid' = wid then Some (s\<lparr>ws_DrainRequested := drain_flag (cached C r wid)\<rparr>) else cached C r wid')"
  using assms(2)
  by (auto simp: SetState_def rexec_def cached_hash redis_okD(1) [OF assms(1)] read_hash_def Let_def
      state_ok_def drain_flag_def ParseInt_Itoa_64 ParseInt_Itoa_32 max_int64_def max_int32_def
      map_add_def fun_eq_iff)

definition blank_state :: WorkerState where
  "blank_state = \<lparr>ws_Epoch = 0, ws_Status = '''', ws_CurrentJobID = '''', ws_AvailableCapacity = 0,
                  ws_LastPGFlushUnix = 0, ws_DrainRequested = False\<rparr>"

lemma cached_SetDrainRequested:
  assumes "redis_ok C"
  shows "cached C (snd (SetDrainRequested C NoFault wid b r)) wid' =
     (if wid' = wid
      then Some ((case cached C r wid of None \<Rightarrow> blank_state | Some s \<Rightarrow> s)\<lparr>ws_DrainRequested := b\<rparr>)
      else cached C r wid')"
  by (auto simp: SetDrainRequested_def rexec_def cached_hash redis_okD(1) [OF assms] read_hash_def
      Let_def blank_state_def map_add_def fun_eq_iff)

lemma cached_Delete:
  assumes "redis_ok C"
  shows "cached C (snd (Delete C NoFault wid r)) wid' = (if wid' = wid then None else cached C r wid')"
  by (auto simp: Delete_def rexec_def cached_hash redis_okD(2) [OF assms] read_hash_def)

lemma cached_SetAlive:
  assumes "redis_ok C"
  shows "cached C (snd (SetAlive C f wid t r)) wid' = cached C r wid'"
  by (auto simp: SetAlive_def rexec_def cached_hash redis_okD(3) [OF assms])

section \<open>The interface of the cache\<close>

text \<open>
  What the scheduler and the gRPC server rely on. \<open>ok\<close> is the assumption on the client, \<open>view\<close> the
  cached state of a worker; \<open>put\<close> keeps the drain flag, \<open>flag\<close> sets it, \<open>drop\<close> forgets the worker.
  Every operation concerns one worker only, and a call that fails has done all of its effect or
  none of it.
\<close>

locale worker_cache =
  fixes ok :: "'c \<Rightarrow> bool"
    and fits :: "'s \<Rightarrow> bool"
    and view :: "'c \<Rightarrow> 'r \<Rightarrow> 'w \<Rightarrow> 's option"
    and get :: "'c \<Rightarrow> fault \<Rightarrow> 'w \<Rightarrow> 'r \<Rightarrow> 's option option"
    and put :: "'c \<Rightarrow> fault \<Rightarrow> 'w \<Rightarrow> 's \<Rightarrow> 'r \<Rightarrow> bool \<times> 'r"
    and flag :: "'c \<Rightarrow> fault \<Rightarrow> 'w \<Rightarrow> bool \<Rightarrow> 'r \<Rightarrow> bool \<times> 'r"
    and drop :: "'c \<Rightarrow> fault \<Rightarrow> 'w \<Rightarrow> 'r \<Rightarrow> bool \<times> 'r"
    and is_flagged :: "'s option \<Rightarrow> bool"
    and with_flag :: "'s \<Rightarrow> bool \<Rightarrow> 's"
    and empty :: 's
  assumes get_view: "get c NoFault w r = Some (view c r w)"
    and put_view: "ok c \<Longrightarrow> fits s \<Longrightarrow>
          view c (snd (put c NoFault w s r)) w' =
            (if w' = w then Some (with_flag s (is_flagged (view c r w))) else view c r w')"
    and flag_view: "ok c \<Longrightarrow>
          view c (snd (flag c NoFault w b r)) w' =
            (if w' = w then Some (with_flag (case view c r w of None \<Rightarrow> empty | Some s \<Rightarrow> s) b)
             else view c r w')"
    and drop_view: "ok c \<Longrightarrow>
          view c (snd (drop c NoFault w r)) w' = (if w' = w then None else view c r w')"
    and flagged: "is_flagged (Some (with_flag s b)) = b"
    and faulty: "snd (put c f w s r) \<in> {r, snd (put c NoFault w s r)}"
          "snd (flag c f w b r) \<in> {r, snd (flag c NoFault w b r)}"
          "snd (drop c f w r) \<in> {r, snd (drop c NoFault w r)}"
begin

lemma get_put:
  "ok c \<Longrightarrow> fits s \<Longrightarrow>
     get c NoFault w (snd (put c NoFault w s r)) = Some (Some (with_flag s (is_flagged (view c r w))))"
  by (simp add: get_view put_view)

lemma flag_kept_by_put:
  assumes "ok c" and "fits s"
  shows "is_flagged (view c (snd (put c f w s r)) w') = is_flagged (view c r w')"
  using faulty(1) [of c f w s r] put_view [OF assms, of w r w']
  by (cases "w' = w") (auto simp: flagged)

lemma other_workers_kept:
  assumes "ok c" and "fits s" and "w' \<noteq> w"
  shows "view c (snd (put c f w s r)) w' = view c r w'"
    and "view c (snd (flag c f w b r)) w' = view c r w'"
    and "view c (snd (drop c f w r)) w' = view c r w'"
  using faulty [of c f w] put_view [OF assms(1,2), of w r w'] flag_view [OF assms(1), of w b r w']
    drop_view [OF assms(1), of w r w'] assms(3) by (metis (full_types) insertE singletonD)+

lemma put_after_drop:
  "ok c \<Longrightarrow> fits s \<Longrightarrow> is_flagged None = False \<Longrightarrow>
     view c (snd (put c NoFault w s (snd (drop c NoFault w r)))) w = Some (with_flag s False)"
  by (simp add: put_view drop_view)

end

interpretation cache: worker_cache redis_ok state_ok cached GetState SetState SetDrainRequested Delete
    drain_flag "\<lambda>s b. s\<lparr>ws_DrainRequested := b\<rparr>" blank_state
proof (unfold_locales, goal_cases)
  case (1 c w r)
  show ?case by (simp add: GetState_cached)
next
  case (2 c s w r w')
  then show ?case by (rule cached_SetState)
next
  case (3 c w b r w')
  then show ?case by (rule cached_SetDrainRequested)
next
  case (4 c w r w')
  then show ?case by (rule cached_Delete)
next
  case (5 s b)
  show ?case by (simp add: drain_flag_def)
qed (auto simp: SetState_def SetDrainRequested_def Delete_def rexec_def)

section \<open>An in-memory server\<close>

record mem_server =
  ms_hashes :: "string \<Rightarrow> (string \<times> string) list"
  ms_strings :: "string \<Rightarrow> string option"
  ms_log :: "string \<Rightarrow> entry list"
  ms_streams :: "string \<Rightarrow> entry list"      \<comment> \<open>not yet delivered\<close>
  ms_pending :: "string \<Rightarrow> entry list"      \<comment> \<open>delivered to the consumer and not acknowledged\<close>
  ms_next :: nat

definition mem_empty :: mem_server where
  "mem_empty = \<lparr>ms_hashes = (\<lambda>_. []), ms_strings = (\<lambda>_. None), ms_log = (\<lambda>_. []), ms_streams = (\<lambda>_. []),
                ms_pending = (\<lambda>_. []), ms_next = 1\<rparr>"

text \<open>One stream of a read: \<open>>\<close> delivers new entries, any other id the pending ones.\<close>

definition mem_read_one :: "string \<Rightarrow> string \<Rightarrow> nat \<Rightarrow> mem_server \<Rightarrow> entry list \<times> mem_server" where
  "mem_read_one k i n r =
     (if i = ''>'' then
        (let es = take n (ms_streams r k)
         in (es, r\<lparr>ms_streams := (ms_streams r)(k := List.drop n (ms_streams r k)),
                   ms_pending := (ms_pending r)(k := ms_pending r k @ es)\<rparr>))
      else (take n (ms_pending r k), r))"

fun mem_read :: "(string \<times> string) list \<Rightarrow> nat \<Rightarrow> mem_server \<Rightarrow> (string \<times> entry list) list \<times> mem_server" where
  "mem_read [] n r = ([], r)"
| "mem_read ((k, i) # ks) n r =
     (let (es, r1) = mem_read_one k i n r; (rest, r2) = mem_read ks n r1
      in (if es = [] then rest else (k, es) # rest, r2))"

definition mem_redis :: "mem_server redis_client" where
  "mem_redis =
     \<lparr>HSet = (\<lambda>k kvs r. r\<lparr>ms_hashes := (ms_hashes r)(k :=
                 map (\<lambda>(f, a). (f, wire a)) kvs @ ms_hashes r k)\<rparr>),
      HGetAll = (\<lambda>k r. ms_hashes r k),
      Del = (\<lambda>ks r. r\<lparr>ms_hashes := (\<lambda>k. if k \<in> set ks then [] else ms_hashes r k),
                      ms_strings := (\<lambda>k. if k \<in> set ks then None else ms_strings r k)\<rparr>),
      SetTTL = (\<lambda>k v t r. r\<lparr>ms_strings := (ms_strings r)(k := Some v)\<rparr>),
      XAdd = (\<lambda>k m fs r. r\<lparr>ms_log := (ms_log r)(k := ms_log r k @ [(format_nat (ms_next r), fs)]),
                         ms_streams := (ms_streams r)(k := ms_streams r k @ [(format_nat (ms_next r), fs)]),
                         ms_next := ms_next r + 1\<rparr>),
      XRange = (\<lambda>k r. ms_log r k),
      XAck = (\<lambda>k g i r. r\<lparr>ms_pending := (ms_pending r)(k := filter (\<lambda>e. fst e \<noteq> i) (ms_pending r k))\<rparr>),
      XReadGroup = (\<lambda>g c ks n r. mem_read ks n r),
      XGroupCreateMkStream = (\<lambda>k g i r. (None, r))\<rparr>"

lemma mem_read_hashes: "ms_hashes (snd (mem_read ks n r)) = ms_hashes r"
  by (induction ks n r rule: mem_read.induct)
     (auto simp: mem_read_one_def Let_def split: prod.splits)

lemma mem_redis_ok [simp]: "redis_ok mem_redis"
  unfolding redis_ok_def hash_def
  by (auto simp: mem_redis_def map_add_def fun_eq_iff mem_read_hashes split: option.splits
      intro: exI [of _ 0])

text \<open>
  C35. Cache round trip: what \<open>SetState\<close> stores, \<open>GetState\<close> reads back, each integer through its
  decimal text, except for the drain flag, which \<open>SetState\<close> never touches: it is the one that
  \<open>SetDrainRequested\<close> stored last. No call, whether it fails or not, changes the state cached for
  another worker.
\<close>

theorem cache_roundtrip:
  assumes "redis_ok C" and "state_ok s" and "wid' \<noteq> wid"
  shows "GetState C NoFault wid (snd (SetState C NoFault wid s r))
           = Some (Some (s\<lparr>ws_DrainRequested := drain_flag (cached C r wid)\<rparr>)) \<and>
         drain_flag (cached C (snd (SetState C f wid s (snd (SetDrainRequested C NoFault wid b r)))) wid) = b \<and>
         cached C (snd (SetState C f wid s r)) wid' = cached C r wid' \<and>
         cached C (snd (SetDrainRequested C f wid b r)) wid' = cached C r wid' \<and>
         cached C (snd (Delete C f wid r)) wid' = cached C r wid'"
  using cache.get_put [OF assms(1,2)] cache.flag_kept_by_put [OF assms(1,2)]
    cache.other_workers_kept [OF assms] cached_SetDrainRequested [OF assms(1), of wid b r wid]
  by (simp add: drain_flag_def)

definition ex_state :: WorkerState where
  "ex_state = \<lparr>ws_Epoch = 4, ws_Status = ''READY'', ws_CurrentJobID = '''', ws_AvailableCapacity = 2,
               ws_LastPGFlushUnix = 7, ws_DrainRequested = False\<rparr>"

lemma ex_state_ok [simp]: "state_ok ex_state"
  by (simp add: ex_state_def state_ok_def max_int32_def max_int64_def)

theorem cache_roundtrip_witness:
  "GetState mem_redis NoFault ''w1'' (snd (SetState mem_redis NoFault ''w1'' ex_state mem_empty))
     = Some (Some ex_state)"
proof -
  have none: "cached mem_redis mem_empty ''w1'' = None"
    by (simp add: cached_def GetState_def mem_redis_def mem_empty_def)
  from cache_roundtrip [OF mem_redis_ok ex_state_ok, of "''w2''" "''w1''" mem_empty NoFault True]
  show ?thesis by (simp add: none drain_flag_def) (simp add: ex_state_def)
qed

end
