(* ===== verification/JobQueue.thy ===== *)
theory JobQueue
  imports RedisCache
begin

text \<open>
  \<open>internal/queue/backend.go\<close> and \<open>internal/store/redis/queue.go\<close>: the job queue as one Redis stream
  per priority, and how \<open>internal/scheduler/loop.go\<close> decodes an entry. The interface
  \<open>queue.Backend\<close> is the locale \<open>job_queue\<close>.
\<close>

record JobMessage =
  jm_JobID :: string
  jm_Priority :: int
  jm_Repository :: string
  jm_Branch :: string
  jm_CommitSHA :: string
  jm_RequiredCapabilities :: "string list"

definition ConsumerGroup :: string where
  "ConsumerGroup = ''schedulers''"

definition StreamKey :: "int \<Rightarrow> string" where
  "StreamKey priority = ''queue:jobs:p'' @ Itoa priority"

definition Enqueue :: "'r redis_client \<Rightarrow> fault \<Rightarrow> JobMessage \<Rightarrow> 'r \<Rightarrow> bool \<times> 'r" where
  "Enqueue C f msg =
     rexec f (XAdd C (StreamKey (jm_Priority msg)) 100000
                [(''job_id'', jm_JobID msg), (''repository'', jm_Repository msg),
                 (''branch'', jm_Branch msg), (''commit_sha'', jm_CommitSHA msg),
                 (''required_capabilities'', Join (jm_RequiredCapabilities msg) (CHR '',''))])"

text \<open>\<open>strings.Contains\<close>\<close>

fun Contains :: "string \<Rightarrow> string \<Rightarrow> bool" where
  "Contains [] sub \<longleftrightarrow> sub = []"
| "Contains (c # cs) sub \<longleftrightarrow> take (length sub) (c # cs) = sub \<or> Contains cs sub"

definition isBusyGroupErr :: "string option \<Rightarrow> bool" where
  "isBusyGroupErr err = (case err of None \<Rightarrow> False | Some e \<Rightarrow> Contains e ''BUSYGROUP'')"

text \<open>
  The loop over the ten streams stops at the first error that is not \<open>BUSYGROUP\<close>; a fault gives
  the text of a transport error.
\<close>

fun ensure_groups :: "'r redis_client \<Rightarrow> (int \<Rightarrow> string option) \<Rightarrow> int list \<Rightarrow> 'r \<Rightarrow> bool \<times> 'r" where
  "ensure_groups C neterr [] r = (True, r)"
| "ensure_groups C neterr (p # ps) r =
     (let (err, r') = (case neterr p of
                         Some e \<Rightarrow> (Some e, r)
                       | None \<Rightarrow> XGroupCreateMkStream C (StreamKey p) ConsumerGroup ''0'' r)
      in if err \<noteq> None \<and> \<not> isBusyGroupErr err then (False, r') else ensure_groups C neterr ps r')"

definition EnsureConsumerGroups :: "'r redis_client \<Rightarrow> (int \<Rightarrow> string option) \<Rightarrow> 'r \<Rightarrow> bool \<times> 'r" where
  "EnsureConsumerGroups C neterr = ensure_groups C neterr [0..9]"

section \<open>Decoding\<close>

definition msg_job_id :: "(string \<times> string) list \<Rightarrow> string" where
  "msg_job_id vals = field vals ''job_id''"

definition msg_caps :: "(string \<times> string) list \<Rightarrow> string list option" where
  "msg_caps vals =
     (let raw = field vals ''required_capabilities''
      in if raw \<noteq> '''' then Some (Split raw (CHR '','')) else None)"

text \<open>The messages in the queue of a priority, as the scheduler loop understands them.\<close>

definition queued :: "'r redis_client \<Rightarrow> 'r \<Rightarrow> int \<Rightarrow> (string \<times> string list option) list" where
  "queued C r p = map (\<lambda>(i, vals). (msg_job_id vals, msg_caps vals)) (XRange C (StreamKey p) r)"

definition brief :: "JobMessage \<Rightarrow> string \<times> string list option" where
  "brief m = (jm_JobID m,
              if jm_RequiredCapabilities m = [] then None else Some (jm_RequiredCapabilities m))"

definition caps_ok :: "JobMessage \<Rightarrow> bool" where
  "caps_ok m \<longleftrightarrow> jm_RequiredCapabilities m \<noteq> [''''] \<and>
     list_all (\<lambda>c. CHR '','' \<notin> set c) (jm_RequiredCapabilities m)"

lemma StreamKey_inj [simp]: "StreamKey p = StreamKey q \<longleftrightarrow> p = q"
  by (simp add: StreamKey_def)

lemma msg_caps_roundtrip:
  assumes "caps_ok m"
  shows "msg_caps [(''required_capabilities'', Join (jm_RequiredCapabilities m) (CHR '',''))]
           = snd (brief m)"
  using assms Split_Join [of "jm_RequiredCapabilities m" "CHR '',''"]
  by (auto simp: msg_caps_def field_def Let_def Join_empty caps_ok_def brief_def list_all_iff)

lemma queued_Enqueue:
  assumes "redis_ok C" and "caps_ok m"
  shows "\<exists>n. queued C (snd (Enqueue C NoFault m r)) (jm_Priority m)
             = drop n (queued C r (jm_Priority m)) @ [brief m] \<and>
             (length (queued C r (jm_Priority m)) < 100000 \<longrightarrow> n = 0)"
    and "p \<noteq> jm_Priority m \<Longrightarrow> queued C (snd (Enqueue C NoFault m r)) p = queued C r p"
proof -
  let ?fs = "[(''job_id'', jm_JobID m), (''repository'', jm_Repository m), (''branch'', jm_Branch m),
              (''commit_sha'', jm_CommitSHA m),
              (''required_capabilities'', Join (jm_RequiredCapabilities m) (CHR '',''))]"
  have dec: "(msg_job_id ?fs, msg_caps ?fs) = brief m"
    using msg_caps_roundtrip [OF assms(2)]
    by (simp add: msg_job_id_def msg_caps_def field_def brief_def)
  obtain i n where "XRange C (StreamKey (jm_Priority m)) (XAdd C (StreamKey (jm_Priority m)) 100000 ?fs r)
      = drop n (XRange C (StreamKey (jm_Priority m)) r) @ [(i, ?fs)]"
    and "length (XRange C (StreamKey (jm_Priority m)) r) < 100000 \<longrightarrow> n = 0"
    using redis_okD(7) [OF assms(1)] by blast
  then show "\<exists>n. queued C (snd (Enqueue C NoFault m r)) (jm_Priority m)
             = drop n (queued C r (jm_Priority m)) @ [brief m] \<and>
             (length (queued C r (jm_Priority m)) < 100000 \<longrightarrow> n = 0)"
    using dec by (auto simp: Enqueue_def rexec_def queued_def drop_map intro!: exI [of _ n])
  show "queued C (snd (Enqueue C NoFault m r)) p = queued C r p" if "p \<noteq> jm_Priority m"
    using that redis_okD(8) [OF assms(1)] by (simp add: Enqueue_def rexec_def queued_def)
qed

section \<open>The interface of the queue\<close>

text \<open>
  What a client of \<open>queue.Backend\<close> relies on: a message that fits the encoding is appended to the
  queue of its priority, where \<open>MAXLEN\<close> may drop the oldest ones once the queue has reached its
  limit, and to no other; a failed call has done that or nothing.
\<close>

locale job_queue =
  fixes ok :: "'c \<Rightarrow> bool"
    and fits :: "'m \<Rightarrow> bool"
    and prio :: "'m \<Rightarrow> 'p"
    and body :: "'m \<Rightarrow> 'b"
    and contents :: "'c \<Rightarrow> 'r \<Rightarrow> 'p \<Rightarrow> 'b list"
    and enqueue :: "'c \<Rightarrow> fault \<Rightarrow> 'm \<Rightarrow> 'r \<Rightarrow> bool \<times> 'r"
    and limit :: nat
  assumes appended: "ok c \<Longrightarrow> fits m \<Longrightarrow>
        \<exists>n. contents c (snd (enqueue c NoFault m r)) (prio m) = drop n (contents c r (prio m)) @ [body m] \<and>
            (length (contents c r (prio m)) < limit \<longrightarrow> n = 0)"
    and others: "ok c \<Longrightarrow> fits m \<Longrightarrow> p \<noteq> prio m \<Longrightarrow>
        contents c (snd (enqueue c NoFault m r)) p = contents c r p"
    and answer: "fst (enqueue c f m r) \<longleftrightarrow> f = NoFault"
    and faulty: "snd (enqueue c f m r) \<in> {r, snd (enqueue c NoFault m r)}"
begin

lemma acknowledged_is_queued:
  assumes "ok c" and "fits m" and "fst (enqueue c f m r)"
  shows "body m \<in> set (contents c (snd (enqueue c f m r)) (prio m))"
  using appended [OF assms(1,2), of r] assms(3) by (auto simp: answer)

lemma only_own_queue:
  assumes "ok c" and "fits m" and "p \<noteq> prio m"
  shows "contents c (snd (enqueue c f m r)) p = contents c r p"
  using faulty [of c f m r] others [OF assms, of r] by auto

lemma kept_below_limit:
  assumes "ok c" and "fits m" and "length (contents c r p) < limit"
  shows "\<exists>ys. contents c (snd (enqueue c f m r)) p = contents c r p @ ys \<and> length ys \<le> 1"
proof (cases "snd (enqueue c f m r) = r \<or> p \<noteq> prio m")
  case True
  then show ?thesis using only_own_queue [OF assms(1,2), of p f r] by auto
next
  case False
  then have "snd (enqueue c f m r) = snd (enqueue c NoFault m r)" "p = prio m"
    using faulty [of c f m r] by auto
  with appended [OF assms(1,2), of r] assms(3) show ?thesis by auto
qed

end

interpretation stream_queue: job_queue redis_ok caps_ok jm_Priority brief queued Enqueue 100000
proof (unfold_locales, goal_cases)
  case (1 c m r)
  then show ?case by (rule queued_Enqueue(1))
next
  case (2 c m p r)
  then show ?case by (rule queued_Enqueue(2))
qed (auto simp: Enqueue_def rexec_def)

text \<open>
  A message whose \<open>Enqueue\<close> was acknowledged is in the queue of its priority, and the scheduler
  loop decodes from it the same job id and the same required capabilities, provided that no
  capability contains a comma; the queues of the other priorities are as before, even when the call
  failed.
\<close>

theorem Enqueue_delivers:
  assumes "redis_ok C" and "caps_ok m"
  shows "(fst (Enqueue C f m r) \<longrightarrow>
            (jm_JobID m, if jm_RequiredCapabilities m = [] then None else Some (jm_RequiredCapabilities m))
              \<in> set (queued C (snd (Enqueue C f m r)) (jm_Priority m))) \<and>
         (\<forall>p. p \<noteq> jm_Priority m \<longrightarrow> queued C (snd (Enqueue C f m r)) p = queued C r p)"
  using stream_queue.acknowledged_is_queued [OF assms] stream_queue.only_own_queue [OF assms]
  by (simp add: brief_def)

definition ex_message :: JobMessage where
  "ex_message = \<lparr>jm_JobID = ''j1'', jm_Priority = 5, jm_Repository = ''r'', jm_Branch = ''b'',
                 jm_CommitSHA = ''c'', jm_RequiredCapabilities = [''docker'', ''gpu'']\<rparr>"

theorem Enqueue_delivers_witness:
  "(''j1'', Some [''docker'', ''gpu'']) \<in> set (queued mem_redis (snd (Enqueue mem_redis NoFault ex_message mem_empty)) 5)"
proof -
  have "caps_ok ex_message" by (simp add: caps_ok_def ex_message_def)
  moreover have "fst (Enqueue mem_redis NoFault ex_message mem_empty)" by (simp add: Enqueue_def rexec_def)
  ultimately show ?thesis
    using Enqueue_delivers [OF mem_redis_ok, of ex_message NoFault mem_empty]
    by (simp add: ex_message_def)
qed

end
