(* ===== verification/GoFloat.thy ===== *)
theory GoFloat
  imports Complex_Main
begin

text \<open>
  Go's \<open>float64(a) / float64(b)\<close> for two \<open>int32\<close> values: both conversions are exact, and IEEE 754
  rounds the exact quotient to a significand of 53 bits, half to even. A nonzero quotient of two
  \<open>int32\<close> values lies between \<open>2^-31\<close> and \<open>2^31\<close> in magnitude, far from the subnormal and infinite
  range, so the exponents below 84 are all that can occur.
\<close>

definition round_even :: "rat \<Rightarrow> int" where
  "round_even x =
     (let q = \<lfloor>x\<rfloor>; f = x - of_int q
      in if f < 1 / 2 then q else if 1 / 2 < f then q + 1 else if even q then q else q + 1)"

definition scale :: "rat \<Rightarrow> nat" where
  "scale x = (case find (\<lambda>k. 2 ^ 52 \<le> x * 2 ^ k) [0..<84] of Some k \<Rightarrow> k | None \<Rightarrow> 84)"

definition round64 :: "rat \<Rightarrow> rat" where
  "round64 x =
     (if x = 0 then 0
      else sgn x * (of_int (round_even (\<bar>x\<bar> * 2 ^ scale \<bar>x\<bar>)) / 2 ^ scale \<bar>x\<bar>))"

definition float_div :: "int \<Rightarrow> int \<Rightarrow> rat" where
  "float_div a b = round64 (of_int a / of_int b)"

lemma round_even_near: "\<bar>of_int (round_even x) - x\<bar> \<le> 1 / 2"
proof -
  have "of_int \<lfloor>x\<rfloor> \<le> x" "x < of_int \<lfloor>x\<rfloor> + 1" by linarith+
  then show ?thesis by (auto simp: round_even_def Let_def abs_le_iff)
qed

lemma round_even_mono:
  assumes "x \<le> y"
  shows "round_even x \<le> round_even y"
proof (cases "\<lfloor>x\<rfloor> = \<lfloor>y\<rfloor>")
  case True
  with assms show ?thesis by (auto simp: round_even_def Let_def)
next
  case False
  with assms have "\<lfloor>x\<rfloor> + 1 \<le> \<lfloor>y\<rfloor>" using floor_mono [OF assms] by linarith
  then show ?thesis by (auto simp: round_even_def Let_def)
qed

lemma round_even_int [simp]: "round_even (of_int n) = n"
  by (simp add: round_even_def Let_def)

lemma round_even_le: "x \<le> of_int n \<Longrightarrow> round_even x \<le> n"
  using round_even_mono [of x "of_int n"] by simp

lemma round_even_ge: "of_int n \<le> x \<Longrightarrow> n \<le> round_even x"
  using round_even_mono [of "of_int n" x] by simp

lemma of_int_div_mono: "a \<le> b \<Longrightarrow> (of_int a :: rat) / 2 ^ k \<le> of_int b / 2 ^ k"
  by (intro divide_right_mono) simp_all

lemma scale_least: "k < 84 \<Longrightarrow> 2 ^ 52 \<le> x * 2 ^ k \<Longrightarrow> scale x \<le> k"
  unfolding scale_def by (auto simp: find_Some_iff find_None_iff split: option.splits)
    (metis not_le)

lemma scale_reaches:
  assumes "k < 84" and "2 ^ 52 \<le> x * 2 ^ k"
  shows "2 ^ 52 \<le> x * 2 ^ scale x" and "scale x < 84"
  using assms unfolding scale_def by (auto simp: find_Some_iff find_None_iff split: option.splits)

lemma scale_below:
  assumes "j < scale x"
  shows "x * 2 ^ j < 2 ^ 52"
proof -
  have "scale x \<le> 84" unfolding scale_def by (auto simp: find_Some_iff split: option.splits)
  with assms scale_least [of j x] show ?thesis by linarith
qed

text \<open>The range of the quotients: a factor \<open>2^83\<close> lifts them over \<open>2^52\<close>.\<close>

definition in_range :: "rat \<Rightarrow> bool" where
  "in_range x \<longleftrightarrow> 1 / 2 ^ 31 \<le> x"

lemma in_range_scale: "in_range x \<Longrightarrow> 2 ^ 52 \<le> x * 2 ^ scale x"
  by (rule scale_reaches(1) [of 83]) (auto simp: in_range_def field_simps)

lemma round64_pos:
  "in_range x \<Longrightarrow> round64 x = of_int (round_even (x * 2 ^ scale x)) / 2 ^ scale x"
proof -
  assume "in_range x"
  then have "0 < x" unfolding in_range_def by (rule less_le_trans [rotated]) simp
  then show ?thesis by (simp add: round64_def)
qed

lemma round64_mono:
  assumes "in_range x" and "x \<le> y"
  shows "round64 x \<le> round64 y"
proof -
  have y: "in_range y" using assms by (simp add: in_range_def)
  have x0: "0 \<le> x" using assms(1) unfolding in_range_def by (rule order_trans [rotated]) simp
  have le: "scale y \<le> scale x"
  proof (rule scale_least)
    show "scale x < 84"
      by (rule scale_reaches(2) [of 83]) (use assms(1) in \<open>auto simp: in_range_def field_simps\<close>)
    have "2 ^ 52 \<le> x * 2 ^ scale x" by (rule in_range_scale [OF assms(1)])
    also have "\<dots> \<le> y * 2 ^ scale x" using assms(2) by simp
    finally show "2 ^ 52 \<le> y * 2 ^ scale x" .
  qed
  show ?thesis
  proof (cases "scale x = scale y")
    case True
    then have "round_even (x * 2 ^ scale x) \<le> round_even (y * 2 ^ scale y)"
      using assms(2) by (intro round_even_mono) simp
    then show ?thesis
      unfolding round64_pos [OF assms(1)] round64_pos [OF y] True by (simp add: divide_right_mono)
  next
    case False
    then obtain d where d: "scale x = Suc (scale y + d)" using le by (metis add_Suc_right le_neq_implies_less less_imp_Suc_add)
    have "x * 2 ^ (scale y + d) < 2 ^ 52" by (rule scale_below) (simp add: d)
    then have "x * 2 ^ scale x \<le> of_int (2 ^ 53)" by (simp add: d)
    then have "round64 x \<le> of_int (2 ^ 53) / 2 ^ scale x"
      unfolding round64_pos [OF assms(1)] by (intro of_int_div_mono round_even_le)
    also have "of_int (2 ^ 53) / 2 ^ scale x = (2 ^ 52 / 2 ^ scale y) / (2 ^ d :: rat)"
      by (simp add: d power_add)
    also have "\<dots> \<le> 2 ^ 52 / 2 ^ scale y" by (simp add: divide_le_eq)
    also have "\<dots> = of_int (2 ^ 52) / 2 ^ scale y" by simp
    also have "\<dots> \<le> round64 y"
      unfolding round64_pos [OF y] using in_range_scale [OF y]
      by (intro of_int_div_mono round_even_ge) simp
    finally show ?thesis .
  qed
qed

lemma round64_near:
  assumes "in_range x" and "x \<le> 1"
  shows "\<bar>round64 x - x\<bar> \<le> 1 / 2 ^ 53"
proof -
  let ?k = "scale x"
  have "52 \<le> ?k"
  proof (rule ccontr)
    assume "\<not> 52 \<le> ?k"
    then have "(2 :: rat) ^ ?k < 2 ^ 52" by (intro power_strict_increasing) simp_all
    moreover have "2 ^ 52 \<le> x * 2 ^ ?k" by (rule in_range_scale [OF assms(1)])
    moreover have "x * 2 ^ ?k \<le> 2 ^ ?k" using assms(2) by simp
    ultimately show False by linarith
  qed
  then have "(2 :: rat) ^ 52 \<le> 2 ^ ?k" by (intro power_increasing) simp_all
  moreover have "\<bar>round64 x - x\<bar> = \<bar>of_int (round_even (x * 2 ^ ?k)) - x * 2 ^ ?k\<bar> / 2 ^ ?k"
  proof -
    have "round64 x - x = (of_int (round_even (x * 2 ^ ?k)) - x * 2 ^ ?k) / 2 ^ ?k"
      unfolding round64_pos [OF assms(1)] by (simp add: field_simps)
    then show ?thesis by (simp add: abs_divide)
  qed
  moreover have "\<dots> \<le> (1 / 2) / 2 ^ ?k" by (intro divide_right_mono round_even_near) simp
  moreover have "(1 / 2) / 2 ^ ?k \<le> (1 / 2) / (2 ^ 52 :: rat)"
    using calculation(1) by (intro divide_left_mono) simp_all
  moreover have "(1 / 2) / (2 ^ 52 :: rat) = 1 / 2 ^ 53" by simp
  ultimately show ?thesis by (metis order_trans)
qed

text \<open>
  Two different fractions of at most 1 whose denominators are below \<open>2^26\<close> differ by more than the
  rounding can hide.
\<close>

lemma float_div_strict:
  fixes a b c d :: int
  assumes "0 < a" "a \<le> b" "b < 2 ^ 26" "0 < c" "c \<le> d" "d < 2 ^ 26" and less: "a * d < c * b"
  shows "float_div a b < float_div c d"
proof -
  let ?x = "of_int a / of_int b :: rat" and ?y = "of_int c / of_int d :: rat"
  have b: "0 < b" "b \<le> 2 ^ 31" and d: "0 < d" "d \<le> 2 ^ 31" using assms by auto
  have range: "in_range (of_int p / of_int q)" if "0 < p" "0 < q" "q \<le> 2 ^ 31" for p q :: int
  proof -
    have "(of_int q :: rat) \<le> of_int (2 ^ 31)" using that(3) by (simp only: of_int_le_iff)
    also have "(of_int (2 ^ 31) :: rat) \<le> of_int p * 2 ^ 31" using that(1) by simp
    finally show ?thesis using that(2) by (simp add: in_range_def field_simps)
  qed
  have x: "in_range ?x" "?x \<le> 1" and y: "in_range ?y" "?y \<le> 1"
    using range assms b d by auto
  have "1 \<le> c * b - a * d" using less by simp
  then have "(1 :: rat) \<le> of_int c * of_int b - of_int a * of_int d"
    by (metis of_int_1_le_iff of_int_diff of_int_mult)
  then have gap: "1 / (of_int b * of_int d) \<le> ?y - ?x"
    using b(1) d(1) by (simp add: field_simps)
  have "b * d < 2 ^ 26 * 2 ^ 26" using assms b d by (intro mult_strict_mono) auto
  then have "of_int (b * d) < (of_int (2 ^ 52) :: rat)" by (simp only: of_int_less_iff) simp
  then have "1 / 2 ^ 52 < (1 / (of_int b * of_int d) :: rat)"
    using b(1) d(1) by (simp add: field_simps)
  with gap have "?x + 1 / 2 ^ 53 < ?y - 1 / 2 ^ 53" by simp
  moreover have "round64 ?x \<le> ?x + 1 / 2 ^ 53" using round64_near [OF x] unfolding abs_le_iff by linarith
  moreover have "?y - 1 / 2 ^ 53 \<le> round64 ?y" using round64_near [OF y] unfolding abs_le_iff by linarith
  ultimately show ?thesis unfolding float_div_def by linarith
qed

end
