(* ===== verification/Scheduling.thy ===== *)
theory Scheduling
  imports StoreSystem ExampleData JobQueue GoFloat
begin

text \<open>
  \<open>internal/scheduler/algorithm.go\<close> and \<open>internal/scheduler/loop.go\<close>: the choice of a worker and the
  loop that reads the queue and assigns jobs. A \<open>world\<close> is the database and the Redis server; a
  \<open>call_env\<close> says, for one run of a handler, which calls fail and what the clocks show. Log lines and
  counters are the outcome a handler returns.
\<close>

section \<open>The world of a handler\<close>

record 'r world =
  wdb :: db
  wrd :: 'r

datatype rcall = R_get | R_fill | R_set | R_alive | R_drain | R_del | R_xadd | R_xack | R_read

record call_env =
  ce_pg :: faults
  ce_redis :: "rcall \<Rightarrow> fault"
  ce_now :: "stmt \<Rightarrow> int"        \<comment> \<open>the database's \<open>now()\<close>, in nanoseconds\<close>
  ce_clock :: "nat \<Rightarrow> int"       \<comment> \<open>the readings of Go's \<open>time.Now()\<close>, in nanoseconds\<close>

definition calm :: "int \<Rightarrow> call_env" where
  "calm t = \<lparr>ce_pg = no_faults, ce_redis = (\<lambda>_. NoFault), ce_now = (\<lambda>_. t), ce_clock = (\<lambda>_. t)\<rparr>"

lemma calm_pg: "ce_pg (calm t) = no_faults" "ce_now (calm t) st = t" "ce_redis (calm t) c = NoFault" "ce_clock (calm t) n = t"
  by (simp_all add: calm_def)

section \<open>SelectLeastLoaded\<close>

definition fraction :: "Candidate \<Rightarrow> rat" where
  "fraction c = float_div (c_AvailableCapacity c) (c_CapacitySlots c)"

fun select_loop :: "Candidate list \<Rightarrow> Candidate option \<Rightarrow> rat \<Rightarrow> Candidate option" where
  "select_loop [] best bestFraction = best"
| "select_loop (c # cs) best bestFraction =
     (if c_CapacitySlots c \<le> 0 then select_loop cs best bestFraction
      else if best = None \<or> bestFraction < fraction c then select_loop cs (Some c) (fraction c)
      else select_loop cs best bestFraction)"

definition SelectLeastLoaded :: "Candidate list \<Rightarrow> Candidate option" where
  "SelectLeastLoaded candidates = select_loop candidates None 0"

lemma select_loop_Some:
  assumes "select_loop cs (Some b) (fraction b) = r" and "0 < c_CapacitySlots b"
  shows "\<exists>c. r = Some c \<and> (c = b \<or> c \<in> set cs) \<and> 0 < c_CapacitySlots c \<and> fraction b \<le> fraction c \<and>
             (\<forall>x\<in>set cs. 0 < c_CapacitySlots x \<longrightarrow> fraction x \<le> fraction c)"
  using assms
proof (induction cs arbitrary: b)
  case (Cons x cs)
  show ?case
  proof (cases "0 < c_CapacitySlots x \<and> fraction b < fraction x")
    case True
    with Cons.prems Cons.IH [of x] show ?thesis by force
  next
    case False
    with Cons.prems Cons.IH [of b] show ?thesis by (auto split: if_splits)
  qed
qed simp

lemma SelectLeastLoaded_spec:
  "case SelectLeastLoaded cs of
     None \<Rightarrow> (\<forall>x\<in>set cs. c_CapacitySlots x \<le> 0)
   | Some c \<Rightarrow> c \<in> set cs \<and> 0 < c_CapacitySlots c \<and>
               (\<forall>x\<in>set cs. 0 < c_CapacitySlots x \<longrightarrow> fraction x \<le> fraction c)"
  unfolding SelectLeastLoaded_def
proof (induction cs)
  case (Cons x cs)
  show ?case
  proof (cases "0 < c_CapacitySlots x")
    case True
    then obtain c where "select_loop cs (Some x) (fraction x) = Some c" "c = x \<or> c \<in> set cs"
      "0 < c_CapacitySlots c" "fraction x \<le> fraction c"
      "\<forall>y\<in>set cs. 0 < c_CapacitySlots y \<longrightarrow> fraction y \<le> fraction c"
      using select_loop_Some [OF refl True, of cs] by blast
    with True show ?thesis by auto
  next
    case False
    with Cons.IH show ?thesis by (auto split: option.splits)
  qed
qed simp

section \<open>The loop\<close>

definition numPriorities :: int where
  "numPriorities = 10"

definition streamKeys :: "string list" where
  "streamKeys = map StreamKey [0..numPriorities - 1]"

definition ack :: "'r redis_client \<Rightarrow> call_env \<Rightarrow> string \<Rightarrow> string \<Rightarrow> 'r world \<Rightarrow> 'r world" where
  "ack C E streamKey msgID w =
     w\<lparr>wrd := snd (rexec (ce_redis E R_xack) (XAck C streamKey ConsumerGroup msgID) (wrd w))\<rparr>"

datatype outcome =
    Malformed
  | JobGone
  | LoadFailed
  | NotQueued
  | CandidatesFailed
  | NoWorker
  | AssignFailed
  | RaceLost
  | AssignedTo string

definition processMessage ::
    "'r redis_client \<Rightarrow> call_env \<Rightarrow> string \<Rightarrow> entry \<Rightarrow> 'r world \<Rightarrow> outcome \<times> 'r world" where
  "processMessage C E streamKey msg w =
     (let (msgID, vals) = msg; jobID = msg_job_id vals; requiredCaps = msg_caps vals in
      if jobID = '''' then (Malformed, ack C E streamKey msgID w)
      else case JobStore_Get (ce_pg E) jobID (wdb w) of
        Inl ErrJobNotFound \<Rightarrow> (JobGone, ack C E streamKey msgID w)
      | Inl _ \<Rightarrow> (LoadFailed, w)
      | Inr job \<Rightarrow>
          if jb_Status job \<noteq> ''QUEUED'' then (NotQueued, ack C E streamKey msgID w)
          else case ListReadyCandidates (ce_pg E) requiredCaps (wdb w) of
            Inl _ \<Rightarrow> (CandidatesFailed, w)
          | Inr candidates \<Rightarrow>
              (case SelectLeastLoaded candidates of
                 None \<Rightarrow> (NoWorker, w)
               | Some chosen \<Rightarrow>
                   (case AssignJob (ce_pg E) (ce_now E S_assign_worker) (jb_ID job) (jb_CreatedAt job)
                           (c_ID chosen) (c_Epoch chosen) (wdb w) of
                      (Inl _, d) \<Rightarrow> (AssignFailed, w\<lparr>wdb := d\<rparr>)
                    | (Inr False, d) \<Rightarrow> (RaceLost, w\<lparr>wdb := d\<rparr>)
                    | (Inr True, d) \<Rightarrow>
                        let s = \<lparr>ws_Epoch = c_Epoch chosen, ws_Status = ''BUSY'',
                                 ws_CurrentJobID = jb_ID job,
                                 ws_AvailableCapacity = to_int32 (c_AvailableCapacity chosen - 1),
                                 ws_LastPGFlushUnix = 0, ws_DrainRequested = False\<rparr>;
                            r = snd (SetState C (ce_redis E R_set) (c_ID chosen) s (wrd w))
                        in (AssignedTo (c_ID chosen),
                            ack C E streamKey msgID (w\<lparr>wdb := d, wrd := r\<rparr>)))))"

text \<open>The entries of one reply in turn, each under its own environment.\<close>

fun process_entries ::
    "'r redis_client \<Rightarrow> (string \<Rightarrow> call_env) \<Rightarrow> string \<Rightarrow> entry list \<Rightarrow> 'r world \<Rightarrow> 'r world" where
  "process_entries C Em k [] w = w"
| "process_entries C Em k (e # es) w =
     process_entries C Em k es (snd (processMessage C (Em (fst e)) k e w))"

fun process_streams ::
    "'r redis_client \<Rightarrow> (string \<Rightarrow> string \<Rightarrow> call_env) \<Rightarrow> (string \<times> entry list) list \<Rightarrow> 'r world \<Rightarrow> 'r world" where
  "process_streams C Em [] w = w"
| "process_streams C Em ((k, es) # rest) w = process_streams C Em rest (process_entries C (Em k) k es w)"

definition readAndProcess ::
    "'r redis_client \<Rightarrow> string \<Rightarrow> fault \<Rightarrow> (string \<Rightarrow> string \<Rightarrow> call_env) \<Rightarrow> string list \<Rightarrow> string
       \<Rightarrow> 'r world \<Rightarrow> 'r world" where
  "readAndProcess C consumer f Em keys ident w =
     (let (streams, r) = XReadGroup C ConsumerGroup consumer (map (\<lambda>k. (k, ident)) keys) 10 (wrd w) in
      case f of
        NotApplied \<Rightarrow> w
      | AckLost \<Rightarrow> w\<lparr>wrd := r\<rparr>
      | NoFault \<Rightarrow> process_streams C Em streams (w\<lparr>wrd := r\<rparr>))"

definition tick ::
    "'r redis_client \<Rightarrow> string \<Rightarrow> (string \<Rightarrow> fault) \<Rightarrow> (string \<Rightarrow> string \<Rightarrow> string \<Rightarrow> call_env)
       \<Rightarrow> 'r world \<Rightarrow> 'r world" where
  "tick C consumer f Em w =
     readAndProcess C consumer (f ''0'') (Em ''0'') streamKeys ''0''
       (readAndProcess C consumer (f ''>'') (Em ''>'') streamKeys ''>'' w)"

text \<open>One iteration of \<open>Run\<close>: a replica that is not the leader only waits.\<close>

definition loop_iteration ::
    "'r redis_client \<Rightarrow> string \<Rightarrow> (string \<Rightarrow> fault) \<Rightarrow> (string \<Rightarrow> string \<Rightarrow> string \<Rightarrow> call_env)
       \<Rightarrow> bool \<Rightarrow> 'r world \<Rightarrow> 'r world" where
  "loop_iteration C consumer f Em isLeader w = (if \<not> isLeader then w else tick C consumer f Em w)"

section \<open>The choice of a worker\<close>

text \<open>
  C11. \<open>SelectLeastLoaded\<close> picks, among the candidates with slots, one whose free fraction is the
  largest as the code computes it in \<open>float64\<close>; it picks none exactly when no candidate has slots.
  As long as no worker has \<open>2^26\<close> slots or more, the \<open>float64\<close> rounding cannot change the order: the
  choice has the largest exact fraction of free slots.
\<close>

theorem SelectLeastLoaded_best:
  assumes "\<And>x. x \<in> set cs \<Longrightarrow> 0 < c_CapacitySlots x \<Longrightarrow>
                 0 < c_AvailableCapacity x \<and> c_AvailableCapacity x \<le> c_CapacitySlots x \<and>
                 c_CapacitySlots x < 2 ^ 26"
  shows "case SelectLeastLoaded cs of
           None \<Rightarrow> \<forall>x\<in>set cs. c_CapacitySlots x \<le> 0
         | Some c \<Rightarrow> c \<in> set cs \<and> 0 < c_CapacitySlots c \<and>
             (\<forall>x\<in>set cs. 0 < c_CapacitySlots x \<longrightarrow> fraction x \<le> fraction c \<and>
                c_AvailableCapacity x * c_CapacitySlots c \<le> c_AvailableCapacity c * c_CapacitySlots x)"
proof (cases "SelectLeastLoaded cs")
  case None
  with SelectLeastLoaded_spec [of cs] show ?thesis by simp
next
  case (Some c)
  with SelectLeastLoaded_spec [of cs] have c: "c \<in> set cs" "0 < c_CapacitySlots c"
    and best: "\<And>x. x \<in> set cs \<Longrightarrow> 0 < c_CapacitySlots x \<Longrightarrow> fraction x \<le> fraction c" by auto
  have "c_AvailableCapacity x * c_CapacitySlots c \<le> c_AvailableCapacity c * c_CapacitySlots x"
    if x: "x \<in> set cs" "0 < c_CapacitySlots x" for x
  proof (rule ccontr)
    assume "\<not> c_AvailableCapacity x * c_CapacitySlots c \<le> c_AvailableCapacity c * c_CapacitySlots x"
    then have "fraction c < fraction x"
      unfolding fraction_def using assms [OF c] assms [OF x] by (intro float_div_strict) auto
    with best [OF x] show False by simp
  qed
  with Some c best show ?thesis by simp
qed

definition ex_candidate :: "string \<Rightarrow> int \<Rightarrow> int \<Rightarrow> Candidate" where
  "ex_candidate i a s = \<lparr>c_ID = i, c_Epoch = 1, c_Capabilities = [], c_Labels = [],
                         c_AvailableCapacity = a, c_CapacitySlots = s\<rparr>"

theorem SelectLeastLoaded_best_witness:
  "map_option c_ID (SelectLeastLoaded
     [ex_candidate ''z'' 5 0, ex_candidate ''a'' 1 2, ex_candidate ''b'' 3 4]) = Some ''b''"
proof -
  let ?cs = "[ex_candidate ''z'' 5 0, ex_candidate ''a'' 1 2, ex_candidate ''b'' 3 4]"
  have "case SelectLeastLoaded ?cs of
          None \<Rightarrow> \<forall>x\<in>set ?cs. c_CapacitySlots x \<le> 0
        | Some c \<Rightarrow> c \<in> set ?cs \<and> 0 < c_CapacitySlots c \<and>
            (\<forall>x\<in>set ?cs. 0 < c_CapacitySlots x \<longrightarrow> fraction x \<le> fraction c \<and>
               c_AvailableCapacity x * c_CapacitySlots c \<le> c_AvailableCapacity c * c_CapacitySlots x)"
    by (rule SelectLeastLoaded_best) (auto simp: ex_candidate_def)
  then show ?thesis by (auto simp: ex_candidate_def split: option.splits)
qed

section \<open>Processing one message\<close>

lemma ack_simps [simp]:
  "wdb (ack C E k i w) = wdb w"
  by (simp add: ack_def)

lemma cached_ack: "redis_ok C \<Longrightarrow> cached C (wrd (ack C E k i w)) wid = cached C (wrd w) wid"
  by (auto simp: ack_def rexec_def cached_hash redis_okD(5))

lemma processMessage_AssignedTo:
  assumes "processMessage C E k (i, vals) w = (AssignedTo wid, w')"
  obtains job chosen cs d where "JobStore_Get (ce_pg E) (msg_job_id vals) (wdb w) = Inr job"
    and "jb_Status job = ''QUEUED''"
    and "ListReadyCandidates (ce_pg E) (msg_caps vals) (wdb w) = Inr cs"
    and "SelectLeastLoaded cs = Some chosen" and "c_ID chosen = wid"
    and "AssignJob (ce_pg E) (ce_now E S_assign_worker) (jb_ID job) (jb_CreatedAt job) wid
           (c_Epoch chosen) (wdb w) = (Inr True, d)"
    and "w' = ack C E k i (w\<lparr>wdb := d, wrd := snd (SetState C (ce_redis E R_set) wid
           \<lparr>ws_Epoch = c_Epoch chosen, ws_Status = ''BUSY'', ws_CurrentJobID = jb_ID job,
            ws_AvailableCapacity = to_int32 (c_AvailableCapacity chosen - 1),
            ws_LastPGFlushUnix = 0, ws_DrainRequested = False\<rparr> (wrd w))\<rparr>)"
  using assms unfolding processMessage_def Let_def
  by (auto split: if_splits sum.splits option.splits pg_error.splits prod.splits bool.splits)

lemma processMessage_AssignedTo_db:
  assumes "processMessage C E k (i, vals) w = (AssignedTo wid, w')"
  shows "\<exists>job ep. JobStore_Get (ce_pg E) (msg_job_id vals) (wdb w) = Inr job \<and>
           AssignJob (ce_pg E) (ce_now E S_assign_worker) (jb_ID job) (jb_CreatedAt job) wid ep (wdb w)
             = (Inr True, wdb w')"
  by (rule processMessage_AssignedTo [OF assms]) (intro exI conjI, assumption, simp)

lemma processMessage_db:
  "wdb (snd (processMessage C E k m w)) = wdb w \<or>
   (\<exists>now jid jca wid ep. wdb (snd (processMessage C E k m w))
      = snd (AssignJob (ce_pg E) now jid jca wid ep (wdb w)))"
  unfolding processMessage_def Let_def
  by (auto split: prod.splits sum.splits option.splits pg_error.splits bool.splits) (metis snd_conv)+

lemma processMessage_inv: "db_inv (wdb w) \<Longrightarrow> db_inv (wdb (snd (processMessage C E k m w)))"
  using processMessage_db [of C E k m w] AssignJob_inv [of "wdb w"] by auto

lemma JobStore_Get_Inr:
  assumes "JobStore_Get flt jid d = Inr job"
  obtains j where "j \<in> set (jobs d)" and "j_id j = jid" and "job = scanJob j"
  using assms by (auto simp: JobStore_Get_def query_def split: if_splits option.splits
      dest!: sql_first_SomeD)

lemma ListReadyCandidates_Inr:
  assumes "ListReadyCandidates flt caps d = Inr cs"
  shows "cs = map to_Candidate (filter (ready_candidate (case caps of None \<Rightarrow> [] | Some c \<Rightarrow> c)) (workers d))"
  using assms by (auto simp: ListReadyCandidates_def query_def Let_def split: if_splits)

lemma processMessage_effect:
  assumes inv: "db_inv (wdb w)" and C: "redis_ok C" and nf: "ce_redis E R_set = NoFault"
    and pm: "processMessage C E k (i, vals) w = (AssignedTo wid, w')"
    and small: "\<And>x. x \<in> set (workers (wdb w)) \<Longrightarrow> w_capacity_slots x \<le> max_int32"
  defines "caps \<equiv> (case msg_caps vals of None \<Rightarrow> [] | Some c \<Rightarrow> c)"
  shows "\<exists>j\<in>set (jobs (wdb w)). \<exists>x\<in>set (workers (wdb w)).
           j_id j = msg_job_id vals \<and> j_status j = QUEUED \<and>
           w_id x = wid \<and> w_status x = READY \<and> 0 < w_available_capacity x \<and>
           (\<forall>c\<in>set caps. c \<in> set (w_capabilities x)) \<and>
           (\<forall>y\<in>set (workers (wdb w)). ready_candidate caps y \<longrightarrow>
              fraction (to_Candidate y) \<le> fraction (to_Candidate x)) \<and>
           wdb w' = assigned (j_id j, j_created_at j, wid, w_epoch x, ce_now E S_assign_worker) (wdb w) \<and>
           cached C (wrd w') wid =
             Some \<lparr>ws_Epoch = w_epoch x, ws_Status = ''BUSY'', ws_CurrentJobID = j_id j,
                   ws_AvailableCapacity = w_available_capacity x - 1, ws_LastPGFlushUnix = 0,
                   ws_DrainRequested = drain_flag (cached C (wrd w) wid)\<rparr>"
proof -
  from pm obtain job chosen cs d where get: "JobStore_Get (ce_pg E) (msg_job_id vals) (wdb w) = Inr job"
    and st: "jb_Status job = ''QUEUED''"
    and lst: "ListReadyCandidates (ce_pg E) (msg_caps vals) (wdb w) = Inr cs"
    and sel: "SelectLeastLoaded cs = Some chosen" and cid: "c_ID chosen = wid"
    and asg: "AssignJob (ce_pg E) (ce_now E S_assign_worker) (jb_ID job) (jb_CreatedAt job) wid
           (c_Epoch chosen) (wdb w) = (Inr True, d)"
    and w': "w' = ack C E k i (w\<lparr>wdb := d, wrd := snd (SetState C (ce_redis E R_set) wid
           \<lparr>ws_Epoch = c_Epoch chosen, ws_Status = ''BUSY'', ws_CurrentJobID = jb_ID job,
            ws_AvailableCapacity = to_int32 (c_AvailableCapacity chosen - 1),
            ws_LastPGFlushUnix = 0, ws_DrainRequested = False\<rparr> (wrd w))\<rparr>)"
    by (rule processMessage_AssignedTo)
  from get obtain j where j: "j \<in> set (jobs (wdb w))" "j_id j = msg_job_id vals" "job = scanJob j"
    by (rule JobStore_Get_Inr)
  have cs: "cs = map to_Candidate (filter (ready_candidate caps) (workers (wdb w)))"
    using ListReadyCandidates_Inr [OF lst] by (simp add: caps_def)
  note best = SelectLeastLoaded_spec [of cs, unfolded sel, simplified]
  then obtain x where x: "x \<in> set (workers (wdb w))" "ready_candidate caps x" "chosen = to_Candidate x"
    by (auto simp: cs)
  have slots: "0 < c_CapacitySlots (to_Candidate y)" if "y \<in> set (workers (wdb w))" for y
    using db_invD(4) [OF inv that] by (simp add: worker_ok_def to_Candidate_def)
  have ok: "worker_ok x" by (rule db_invD(4) [OF inv x(1)])
  let ?s = "\<lparr>ws_Epoch = w_epoch x, ws_Status = ''BUSY'', ws_CurrentJobID = j_id j,
             ws_AvailableCapacity = w_available_capacity x - 1, ws_LastPGFlushUnix = 0,
             ws_DrainRequested = False\<rparr>"
  have cap: "to_int32 (w_available_capacity x - 1) = w_available_capacity x - 1" and "state_ok ?s"
    using ok small [OF x(1)] by (auto simp: worker_ok_def state_ok_def max_int32_def max_int64_def)
  note put = cached_SetState [OF C \<open>state_ok ?s\<close>, of wid "wrd w" wid]
  have "cached C (wrd w') wid = Some (?s\<lparr>ws_DrainRequested := drain_flag (cached C (wrd w) wid)\<rparr>)"
    unfolding w' cached_ack [OF C] using put
    by (simp add: nf x(3) j(3) to_Candidate_def scanJob_def cap)
  moreover have "j_status j = QUEUED"
    using st j(3) job_status_str_inj [of "j_status j" QUEUED] by (simp add: scanJob_def)
  moreover have "wdb w' = assigned (j_id j, j_created_at j, wid, w_epoch x, ce_now E S_assign_worker) (wdb w)"
    using AssignJob_outcome(2) [OF inv asg refl] by (simp add: w' j(3) x(3) scanJob_def to_Candidate_def)
  moreover have "fraction (to_Candidate y) \<le> fraction (to_Candidate x)"
    if "y \<in> set (workers (wdb w))" "ready_candidate caps y" for y
    using best that slots [OF that(1)] x(3) by (auto simp: cs)
  ultimately show ?thesis
    using x(2) cid x(3) by (intro bexI [OF _ j(1)] bexI [OF _ x(1)])
      (auto simp: j(2) to_Candidate_def ready_candidate_def list_all_iff)
qed

text \<open>
  C9. An assignment by the loop is sound: when \<open>processMessage\<close> assigns, the message's job was
  \<open>QUEUED\<close>, the worker was \<open>READY\<close> with a free slot and offers every capability the message requires,
  no eligible worker has a larger free fraction, the database holds the assignment of that job to
  that worker under the epoch read, and the cache shows the worker \<open>BUSY\<close> with that job and one slot
  less, its drain flag as before.
\<close>

theorem processMessage_sound:
  assumes inv: "db_inv (wdb w)" and C: "redis_ok C" and nf: "ce_redis E R_set = NoFault"
    and pm: "processMessage C E k (i, vals) w = (AssignedTo wid, w')"
    and small: "\<And>x. x \<in> set (workers (wdb w)) \<Longrightarrow> w_capacity_slots x \<le> max_int32"
  defines "caps \<equiv> (case msg_caps vals of None \<Rightarrow> [] | Some c \<Rightarrow> c)"
  shows "\<exists>j\<in>set (jobs (wdb w)). \<exists>x\<in>set (workers (wdb w)).
           j_id j = msg_job_id vals \<and> j_status j = QUEUED \<and>
           w_id x = wid \<and> w_status x = READY \<and> 0 < w_available_capacity x \<and>
           (\<forall>c\<in>set caps. c \<in> set (w_capabilities x)) \<and>
           (\<forall>y\<in>set (workers (wdb w)). ready_candidate caps y \<longrightarrow>
              fraction (to_Candidate y) \<le> fraction (to_Candidate x)) \<and>
           wdb w' = assigned (j_id j, j_created_at j, wid, w_epoch x, ce_now E S_assign_worker) (wdb w) \<and>
           cached C (wrd w') wid =
             Some \<lparr>ws_Epoch = w_epoch x, ws_Status = ''BUSY'', ws_CurrentJobID = j_id j,
                   ws_AvailableCapacity = w_available_capacity x - 1, ws_LastPGFlushUnix = 0,
                   ws_DrainRequested = drain_flag (cached C (wrd w) wid)\<rparr>"
  using processMessage_effect [OF inv C nf pm small] unfolding caps_def by simp

definition ex_world :: "mem_server world" where
  "ex_world = \<lparr>wdb = ex_db, wrd = mem_empty\<rparr>"

definition ex_vals :: "(string \<times> string) list" where
  "ex_vals = [(''job_id'', ''j1''), (''required_capabilities'', ''docker'')]"

lemma ex_processMessage:
  "fst (processMessage mem_redis (calm 9) ''queue:jobs:p5'' (''1'', ex_vals) ex_world) = AssignedTo ''w1''"
  by (simp add: processMessage_def ex_world_def ex_vals_def msg_job_id_def msg_caps_def field_def
      calm_def JobStore_Get_def ListReadyCandidates_def SelectLeastLoaded_def scanJob_def to_Candidate_def
      ready_candidate_def AssignJob_def AssignJob_body_def AssignWorker_update_def AssignJob_update_def
      eval_defs)

theorem processMessage_sound_witness:
  "\<exists>w'. processMessage mem_redis (calm 9) ''queue:jobs:p5'' (''1'', ex_vals) ex_world
          = (AssignedTo ''w1'', w') \<and>
        map_option ws_Status (cached mem_redis (wrd w') ''w1'') = Some ''BUSY''"
proof -
  obtain w' where w': "processMessage mem_redis (calm 9) ''queue:jobs:p5'' (''1'', ex_vals) ex_world
      = (AssignedTo ''w1'', w')"
    using ex_processMessage by (metis prod.collapse)
  have "db_inv (wdb ex_world)" by (simp add: ex_world_def)
  moreover have "ce_redis (calm 9) R_set = NoFault" by (simp add: calm_def)
  moreover have "w_capacity_slots x \<le> max_int32" if "x \<in> set (workers (wdb ex_world))" for x
    using that by (simp add: ex_world_def ex_defs max_int32_def)
  ultimately have "map_option ws_Status (cached mem_redis (wrd w') ''w1'') = Some ''BUSY''"
    using processMessage_sound [OF _ mem_redis_ok _ w'] by fastforce
  with w' show ?thesis by blast
qed

text \<open>
  C10. The queue never loses a job: while the job of a message is still \<open>QUEUED\<close>, processing the
  message either leaves Redis as it was, so that the entry stays pending and comes back with the
  next pass, or has the job assigned in the database; whatever fails.
\<close>

theorem queued_job_not_lost:
  assumes inv: "db_inv (wdb w)" and j: "j \<in> set (jobs (wdb w))" "j_status j = QUEUED"
    and jid: "msg_job_id vals = j_id j" "j_id j \<noteq> ''''"
    and pm: "processMessage C E k (i, vals) w = (out, w')"
  shows "wrd w' = wrd w \<or>
         (\<exists>wid. out = AssignedTo wid \<and>
            (\<exists>x\<in>set (jobs (wdb w')). j_id x = j_id j \<and> j_status x = ASSIGNED \<and> j_worker_id x = Some wid))"
proof -
  have get: "JobStore_Get (ce_pg E) (msg_job_id vals) (wdb w) = Inl Unavailable \<or>
      JobStore_Get (ce_pg E) (msg_job_id vals) (wdb w) = Inr (scanJob j)"
    using sql_first_key [OF db_invD(3) [OF inv] j(1)] by (simp add: JobStore_Get_def query_def jid)
  show ?thesis
  proof (cases "\<exists>wid. out = AssignedTo wid")
    case True
    then obtain wid where out: "out = AssignedTo wid" ..
    obtain ep where "AssignJob (ce_pg E) (ce_now E S_assign_worker) (j_id j) (j_created_at j) wid ep (wdb w)
        = (Inr True, wdb w')"
      using processMessage_AssignedTo_db [OF pm [unfolded out]] get by (auto simp: scanJob_def)
    from AssignJob_outcome(2) [OF inv this refl]
    have "wdb w' = assigned (j_id j, j_created_at j, wid, ep, ce_now E S_assign_worker) (wdb w)" ..
    then have "AssignJob_set (j_id j, j_created_at j, wid, ep, ce_now E S_assign_worker) j
        \<in> set (jobs (wdb w'))"
      using j by (auto simp: assigned_def in_sql_update)
    then show ?thesis using out by force
  next
    case False
    with pm get j(2) jid show ?thesis
      unfolding processMessage_def Let_def
      by (auto simp: scanJob_def split: sum.splits option.splits prod.splits bool.splits)
  qed
qed

theorem queued_job_not_lost_witness:
  "wrd (snd (processMessage mem_redis (calm 9) ''queue:jobs:p5'' (''1'', ex_vals) ex_world)) = wrd ex_world \<or>
   (\<exists>x\<in>set (jobs (wdb (snd (processMessage mem_redis (calm 9) ''queue:jobs:p5'' (''1'', ex_vals) ex_world)))).
      j_id x = ''j1'' \<and> j_status x = ASSIGNED)"
proof -
  have inv: "db_inv (wdb ex_world)" by (simp add: ex_world_def)
  have j: "ex_job \<in> set (jobs (wdb ex_world))" "j_status ex_job = QUEUED"
    "msg_job_id ex_vals = j_id ex_job" "j_id ex_job \<noteq> ''''" "j_id ex_job = ''j1''"
    by (simp_all add: ex_world_def ex_db_def ex_job_def msg_job_id_def ex_vals_def field_def)
  from queued_job_not_lost [OF inv j(1-4) surjective_pairing] j(5) show ?thesis by metis
qed

section \<open>The loop keeps the invariant\<close>

lemma process_entries_inv: "db_inv (wdb w) \<Longrightarrow> db_inv (wdb (process_entries C Em k es w))"
  by (induction es arbitrary: w) (auto simp: processMessage_inv)

lemma process_streams_inv: "db_inv (wdb w) \<Longrightarrow> db_inv (wdb (process_streams C Em ss w))"
  by (induction C Em ss w rule: process_streams.induct) (auto simp: process_entries_inv)

lemma readAndProcess_inv:
  "db_inv (wdb w) \<Longrightarrow> db_inv (wdb (readAndProcess C consumer f Em keys ident w))"
  by (auto simp: readAndProcess_def process_streams_inv split: fault.splits prod.splits)

text \<open>
  An iteration of the scheduler loop keeps the invariant of the database whatever Redis
  delivers and whatever fails, and a replica that is not the leader changes nothing.
\<close>

theorem loop_iteration_safe:
  "(db_inv (wdb w) \<longrightarrow> db_inv (wdb (loop_iteration C consumer f Em leader w))) \<and>
   loop_iteration C consumer f Em False w = w"
  by (simp add: loop_iteration_def tick_def readAndProcess_inv)

theorem loop_iteration_safe_witness:
  "db_inv (wdb (loop_iteration mem_redis ''c'' (\<lambda>_. NoFault) (\<lambda>_ _ _. calm 9) True ex_world))"
  using loop_iteration_safe [of ex_world mem_redis "''c''" "\<lambda>_. NoFault" "\<lambda>_ _ _. calm 9" True]
  by (simp add: ex_world_def)

end
