(* ===== verification/GrpcServer.thy ===== *)
theory GrpcServer
  imports Scheduling StoreProperties
begin

text \<open>
  \<open>internal/grpcserver\<close>: the handlers \<open>RegisterWorker\<close>, \<open>handleHeartbeat\<close> and \<open>ReportJobResult\<close> as
  functions on the world, with the gRPC status codes as errors, and the properties of each.
\<close>

section \<open>Messages (\<open>proto/fleetforge/v1\<close>)\<close>

datatype grpc_error = InvalidArgument | NotFound | Aborted | Internal

text \<open>The enums are open: a peer may send a number without a name.\<close>

datatype pb_WorkerStatus =
    WORKER_STATUS_UNSPECIFIED
  | WORKER_STATUS_REGISTERING
  | WORKER_STATUS_READY
  | WORKER_STATUS_BUSY
  | WORKER_STATUS_DRAINING
  | WORKER_STATUS_OFFLINE
  | WORKER_STATUS_DEAD
  | WORKER_STATUS_UNKNOWN int

datatype pb_JobStatus =
    JOB_STATUS_UNSPECIFIED
  | JOB_STATUS_QUEUED
  | JOB_STATUS_ASSIGNED
  | JOB_STATUS_RUNNING
  | JOB_STATUS_SUCCESS
  | JOB_STATUS_FAILED
  | JOB_STATUS_RETRYING
  | JOB_STATUS_CANCELLED
  | JOB_STATUS_UNKNOWN int

record RegisterWorkerResponse =
  rr_WorkerId :: string
  rr_Epoch :: int
  rr_HeartbeatIntervalSeconds :: int
  rr_HeartbeatTimeoutSeconds :: int

record HeartbeatRequest =
  hb_WorkerId :: string
  hb_Epoch :: int
  hb_Status :: pb_WorkerStatus
  hb_CurrentJobId :: string         \<comment> \<open>the getter yields the empty string when the field is absent\<close>
  hb_AvailableCapacity :: int

record JobAssignment =
  ja_JobId :: string
  ja_AssignmentEpoch :: int
  ja_Repository :: string
  ja_Branch :: string
  ja_CommitSha :: string

record HeartbeatResponse =
  hr_Acknowledged :: bool
  hr_Assignment :: "JobAssignment option"
  hr_DrainRequested :: bool

record ReportJobResultRequest =
  rj_JobId :: string
  rj_AssignmentEpoch :: int
  rj_Status :: pb_JobStatus
  rj_ExitCode :: int
  rj_LogRef :: string
  rj_ErrorMessage :: string

record ReportJobResultResponse =
  rs_Acknowledged :: bool
  rs_DiscardedStaleEpoch :: bool

record Server =
  sv_heartbeatIntervalSeconds :: int
  sv_heartbeatTimeoutSeconds :: int

section \<open>RegisterWorker\<close>

text \<open>The request carries the fields of \<open>RegisterWorkerParams\<close>; \<open>Some\<close> is the text of the error.\<close>

definition validateRegisterRequest :: "RegisterWorkerParams \<Rightarrow> string option" where
  "validateRegisterRequest req =
     (if rp_Hostname req = '''' then Some ''hostname is required''
      else if rp_InstanceID req = '''' then Some ''instance_id is required''
      else if rp_OS req = '''' then Some ''os is required''
      else if rp_CPUCores req \<le> 0 then Some ''cpu_cores must be a positive integer''
      else if rp_MemoryMB req \<le> 0 then Some ''memory_mb must be a positive integer''
      else if rp_Version req = '''' then Some ''version is required''
      else None)"

definition RegisterWorker ::
    "'r redis_client \<Rightarrow> Server \<Rightarrow> call_env \<Rightarrow> string \<Rightarrow> RegisterWorkerParams \<Rightarrow> 'r world
       \<Rightarrow> (grpc_error + RegisterWorkerResponse) \<times> 'r world" where
  "RegisterWorker C S E uuid req w =
     (if validateRegisterRequest req \<noteq> None then (Inl InvalidArgument, w)
      else case Register (ce_pg E) (ce_now E S_register_upsert) uuid req (wdb w) of
        (Inl _, d) \<Rightarrow> (Inl Internal, w\<lparr>wdb := d\<rparr>)
      | (Inr registered, d) \<Rightarrow>
          let seedCapacity = (if rp_CapacitySlots req \<le> 0 then 1 else rp_CapacitySlots req);
              s = \<lparr>ws_Epoch = rw_Epoch registered, ws_Status = ''READY'', ws_CurrentJobID = '''',
                   ws_AvailableCapacity = seedCapacity, ws_LastPGFlushUnix = 0,
                   ws_DrainRequested = False\<rparr>;
              r = snd (SetState C (ce_redis E R_set) (rw_ID registered) s (wrd w))
          in (Inr \<lparr>rr_WorkerId = rw_ID registered, rr_Epoch = rw_Epoch registered,
                   rr_HeartbeatIntervalSeconds = sv_heartbeatIntervalSeconds S,
                   rr_HeartbeatTimeoutSeconds = sv_heartbeatTimeoutSeconds S\<rparr>,
              w\<lparr>wdb := d, wrd := r\<rparr>))"

section \<open>Heartbeat\<close>

fun workerStatusToDB :: "pb_WorkerStatus \<Rightarrow> string" where
  "workerStatusToDB WORKER_STATUS_REGISTERING = ''REGISTERING''"
| "workerStatusToDB WORKER_STATUS_READY = ''READY''"
| "workerStatusToDB WORKER_STATUS_BUSY = ''BUSY''"
| "workerStatusToDB WORKER_STATUS_DRAINING = ''DRAINING''"
| "workerStatusToDB WORKER_STATUS_OFFLINE = ''OFFLINE''"
| "workerStatusToDB WORKER_STATUS_DEAD = ''DEAD''"
| "workerStatusToDB _ = ''REGISTERING''"

definition pgFlushCoalesceSeconds :: int where
  "pgFlushCoalesceSeconds = 15"

text \<open>The cached state, when the read succeeded and found one.\<close>

definition found_state :: "'r redis_client \<Rightarrow> call_env \<Rightarrow> string \<Rightarrow> 'r \<Rightarrow> WorkerState option" where
  "found_state C E wid r =
     (case GetState C (ce_redis E R_get) wid r of None \<Rightarrow> None | Some s \<Rightarrow> s)"

text \<open>\<open>knownEpoch\<close> and \<open>drainRequested\<close>, from the cache or from the database.\<close>

definition known_epoch :: "call_env \<Rightarrow> string \<Rightarrow> WorkerState option \<Rightarrow> db \<Rightarrow> grpc_error + int \<times> bool" where
  "known_epoch E wid found d =
     (case found of
        Some s \<Rightarrow> Inr (ws_Epoch s, ws_DrainRequested s)
      | None \<Rightarrow>
          (case GetEpochAndStatus (ce_pg E) wid d of
             Inl _ \<Rightarrow> Inl NotFound
           | Inr (epoch, dbStatus, dbDrainRequested) \<Rightarrow>
               if dbStatus = ''DEAD'' \<or> dbStatus = ''OFFLINE'' then Inl NotFound
               else Inr (epoch, dbDrainRequested)))"

definition pending_assignment ::
    "call_env \<Rightarrow> WorkerState option \<Rightarrow> int \<Rightarrow> string \<Rightarrow> db \<Rightarrow> JobAssignment option" where
  "pending_assignment E found knownEpoch currentJobID d =
     (case found of
        None \<Rightarrow> None
      | Some s \<Rightarrow>
          if ws_Status s = ''BUSY'' \<and> ws_CurrentJobID s \<noteq> '''' \<and> currentJobID = ''''
          then (case JobStore_Get (ce_pg E) (ws_CurrentJobID s) d of
                  Inl _ \<Rightarrow> None
                | Inr job \<Rightarrow>
                    if jb_Status job = ''ASSIGNED''
                    then Some \<lparr>ja_JobId = jb_ID job, ja_AssignmentEpoch = knownEpoch,
                               ja_Repository = jb_Repository job, ja_Branch = jb_Branch job,
                               ja_CommitSha = jb_CommitSHA job\<rparr>
                    else None)
          else None)"

text \<open>The coalesced write to the database; the result is the new \<open>lastFlush\<close>.\<close>

definition flush_heartbeat ::
    "call_env \<Rightarrow> string \<Rightarrow> WorkerState option \<Rightarrow> int \<Rightarrow> string \<Rightarrow> string \<Rightarrow> db \<Rightarrow> int \<times> db" where
  "flush_heartbeat E wid found knownEpoch newStatus currentJobID d =
     (let cachedFlush = (case found of None \<Rightarrow> 0 | Some s \<Rightarrow> ws_LastPGFlushUnix s);
          statusChanged = (case found of None \<Rightarrow> False | Some s \<Rightarrow> newStatus \<noteq> ws_Status s);
          dueForFlush = (found = None \<or> pgFlushCoalesceSeconds \<le> unix (ce_clock E 0) - cachedFlush)
      in if statusChanged \<or> dueForFlush
         then (case UpdateHeartbeat (ce_pg E) (ce_now E S_heartbeat_update) wid knownEpoch newStatus
                      (if currentJobID \<noteq> '''' then Some currentJobID else None) d of
                 (Inl _, d') \<Rightarrow> (cachedFlush, d')
               | (Inr _, d') \<Rightarrow> (unix (ce_clock E 1), d'))
         else (cachedFlush, d))"

definition handleHeartbeat ::
    "'r redis_client \<Rightarrow> Server \<Rightarrow> call_env \<Rightarrow> HeartbeatRequest \<Rightarrow> 'r world
       \<Rightarrow> (grpc_error + HeartbeatResponse) \<times> 'r world" where
  "handleHeartbeat C S E req w =
     (let wid = hb_WorkerId req; found = found_state C E wid (wrd w) in
      if wid = '''' then (Inl InvalidArgument, w)
      else case known_epoch E wid found (wdb w) of
        Inl e \<Rightarrow> (Inl e, w)
      | Inr (knownEpoch, drainRequested) \<Rightarrow>
          if hb_Epoch req \<noteq> knownEpoch then (Inl Aborted, w)
          else
            let newStatus = workerStatusToDB (hb_Status req);
                currentJobID = hb_CurrentJobId req;
                assignment = pending_assignment E found knownEpoch currentJobID (wdb w);
                d1 = (if newStatus = ''BUSY'' \<and> currentJobID \<noteq> ''''
                      then snd (MarkRunning (ce_pg E) (ce_now E S_mark_running) currentJobID knownEpoch (wdb w))
                      else wdb w);
                (lastFlush, d2) = flush_heartbeat E wid found knownEpoch newStatus currentJobID d1;
                r1 = snd (SetState C (ce_redis E R_set) wid
                            \<lparr>ws_Epoch = knownEpoch, ws_Status = newStatus, ws_CurrentJobID = currentJobID,
                             ws_AvailableCapacity = hb_AvailableCapacity req,
                             ws_LastPGFlushUnix = lastFlush, ws_DrainRequested = False\<rparr> (wrd w));
                r2 = snd (SetAlive C (ce_redis E R_alive) wid (sv_heartbeatTimeoutSeconds S * second) r1)
            in (Inr \<lparr>hr_Acknowledged = True, hr_Assignment = assignment,
                     hr_DrainRequested = drainRequested\<rparr>,
                w\<lparr>wdb := d2, wrd := r2\<rparr>))"

text \<open>
  The stream: the requests of one connection in turn, each under its own environment. An error ends
  it; the replies sent so far are the first component.
\<close>

fun Heartbeat ::
    "'r redis_client \<Rightarrow> Server \<Rightarrow> (call_env \<times> HeartbeatRequest) list \<Rightarrow> 'r world
       \<Rightarrow> HeartbeatResponse list \<times> grpc_error option \<times> 'r world" where
  "Heartbeat C S [] w = ([], None, w)"
| "Heartbeat C S ((E, req) # reqs) w =
     (case handleHeartbeat C S E req w of
        (Inl e, w') \<Rightarrow> ([], Some e, w')
      | (Inr resp, w') \<Rightarrow>
          let (resps, err, w'') = Heartbeat C S reqs w' in (resp # resps, err, w''))"

section \<open>ReportJobResult\<close>

fun jobStatusToDB :: "pb_JobStatus \<Rightarrow> string" where
  "jobStatusToDB JOB_STATUS_SUCCESS = ''SUCCESS''"
| "jobStatusToDB JOB_STATUS_FAILED = ''FAILED''"
| "jobStatusToDB JOB_STATUS_CANCELLED = ''CANCELLED''"
| "jobStatusToDB _ = ''FAILED''"

text \<open>Recording the result: \<open>completed\<close> and \<open>finalStatus\<close>.\<close>

definition record_result ::
    "call_env \<Rightarrow> Job \<Rightarrow> ReportJobResultRequest \<Rightarrow> db \<Rightarrow> (pg_error + bool \<times> string) \<times> db" where
  "record_result E job req d =
     (let reportedStatus = jobStatusToDB (rj_Status req) in
      if reportedStatus = ''FAILED'' then
        (case RetryOrFail (ce_pg E) (ce_now E S_retry_lookup) (ce_clock E 0) (jb_ID job) (jb_CreatedAt job)
                (rj_AssignmentEpoch req) (jb_WorkerID job) (rj_ErrorMessage req) (rj_LogRef req) d of
           (Inl e, d') \<Rightarrow> (Inl e, d')
         | (Inr (newStatus, ok), d') \<Rightarrow> (Inr (ok, newStatus), d'))
      else
        (case Complete (ce_pg E) (ce_now E S_complete) (jb_ID job) (jb_CreatedAt job)
                (rj_AssignmentEpoch req) reportedStatus (rj_LogRef req) d of
           (Inl e, d') \<Rightarrow> (Inl e, d')
         | (Inr ok, d') \<Rightarrow> (Inr (ok, reportedStatus), d')))"

definition release_worker ::
    "'r redis_client \<Rightarrow> call_env \<Rightarrow> string option \<Rightarrow> int \<Rightarrow> 'r world \<Rightarrow> 'r world" where
  "release_worker C E workerID epoch w =
     (case workerID of
        None \<Rightarrow> w
      | Some wid \<Rightarrow>
          (case FreeWorker (ce_pg E) (ce_now E S_free) wid epoch (wdb w) of
             (Inl _, d) \<Rightarrow> w\<lparr>wdb := d\<rparr>
           | (Inr (False, _, _), d) \<Rightarrow> w\<lparr>wdb := d\<rparr>
           | (Inr (True, availableCapacity, newWorkerStatus), d) \<Rightarrow>
               w\<lparr>wdb := d,
                 wrd := snd (SetState C (ce_redis E R_set) wid
                          \<lparr>ws_Epoch = epoch, ws_Status = newWorkerStatus, ws_CurrentJobID = '''',
                           ws_AvailableCapacity = availableCapacity,
                           ws_LastPGFlushUnix = unix (ce_clock E 1), ws_DrainRequested = False\<rparr>
                          (wrd w))\<rparr>))"

definition ReportJobResult ::
    "'r redis_client \<Rightarrow> call_env \<Rightarrow> ReportJobResultRequest \<Rightarrow> 'r world
       \<Rightarrow> (grpc_error + ReportJobResultResponse) \<times> 'r world" where
  "ReportJobResult C E req w =
     (if rj_JobId req = '''' then (Inl InvalidArgument, w)
      else case JobStore_Get (ce_pg E) (rj_JobId req) (wdb w) of
        Inl _ \<Rightarrow> (Inl NotFound, w)
      | Inr job \<Rightarrow>
          (case record_result E job req (wdb w) of
             (Inl _, d) \<Rightarrow> (Inl Internal, w\<lparr>wdb := d\<rparr>)
           | (Inr (False, _), d) \<Rightarrow>
               (Inr \<lparr>rs_Acknowledged = True, rs_DiscardedStaleEpoch = True\<rparr>, w\<lparr>wdb := d\<rparr>)
           | (Inr (True, finalStatus), d) \<Rightarrow>
               (Inr \<lparr>rs_Acknowledged = True, rs_DiscardedStaleEpoch = False\<rparr>,
                release_worker C E (jb_WorkerID job) (rj_AssignmentEpoch req) (w\<lparr>wdb := d\<rparr>))))"

section \<open>Properties of the heartbeat\<close>

lemma handleHeartbeat_Inl: "handleHeartbeat C S E req w = (Inl e, w') \<Longrightarrow> w' = w"
  by (auto simp: handleHeartbeat_def Let_def split: if_splits sum.splits prod.splits)

lemma handleHeartbeat_Inr:
  assumes "handleHeartbeat C S E req w = (Inr resp, w')"
  obtains drain where
    "known_epoch E (hb_WorkerId req) (found_state C E (hb_WorkerId req) (wrd w)) (wdb w) = Inr (hb_Epoch req, drain)"
    and "hr_Assignment resp = pending_assignment E (found_state C E (hb_WorkerId req) (wrd w)) (hb_Epoch req)
           (hb_CurrentJobId req) (wdb w)"
    and "hr_DrainRequested resp = drain"
    and "wdb w' = snd (flush_heartbeat E (hb_WorkerId req) (found_state C E (hb_WorkerId req) (wrd w))
           (hb_Epoch req) (workerStatusToDB (hb_Status req)) (hb_CurrentJobId req)
           (if workerStatusToDB (hb_Status req) = ''BUSY'' \<and> hb_CurrentJobId req \<noteq> ''''
            then snd (MarkRunning (ce_pg E) (ce_now E S_mark_running) (hb_CurrentJobId req) (hb_Epoch req) (wdb w))
            else wdb w))"
    and "hb_WorkerId req \<noteq> ''''"
  using assms unfolding handleHeartbeat_def Let_def
  by (auto split: if_splits sum.splits prod.splits)


definition ex_server :: Server where
  "ex_server = \<lparr>sv_heartbeatIntervalSeconds = 5, sv_heartbeatTimeoutSeconds = 20\<rparr>"

definition ex_beat :: "int \<Rightarrow> HeartbeatRequest" where
  "ex_beat epoch = \<lparr>hb_WorkerId = ''w1'', hb_Epoch = epoch, hb_Status = WORKER_STATUS_READY,
                    hb_CurrentJobId = '''', hb_AvailableCapacity = 2\<rparr>"



definition ex_busy :: WorkerState where
  "ex_busy = \<lparr>ws_Epoch = 3, ws_Status = ''BUSY'', ws_CurrentJobID = ''j1'', ws_AvailableCapacity = 1,
              ws_LastPGFlushUnix = 0, ws_DrainRequested = False\<rparr>"

definition ex_assigned :: job_row where
  "ex_assigned = ex_job\<lparr>j_status := ASSIGNED, j_worker_id := Some ''w1'', j_assignment_epoch := Some 3\<rparr>"

definition ex_pending :: "mem_server world" where
  "ex_pending = \<lparr>wdb = ex_db\<lparr>jobs := [ex_assigned]\<rparr>,
                 wrd = snd (SetState mem_redis NoFault ''w1'' ex_busy mem_empty)\<rparr>"

lemma found_state_cached: "ce_redis E R_get = NoFault \<Longrightarrow> found_state C E wid r = cached C r wid"
  by (simp add: found_state_def GetState_cached)

lemma ex_found: "found_state mem_redis (calm t) ''w1'' (wrd ex_pending) = Some ex_busy"
proof -
  have none: "cached mem_redis mem_empty ''w1'' = None"
    by (simp add: cached_def GetState_def mem_redis_def mem_empty_def)
  have "state_ok ex_busy" by (simp add: ex_busy_def state_ok_def max_int32_def max_int64_def)
  from cached_SetState [OF mem_redis_ok this, of "''w1''" mem_empty "''w1''"]
  show ?thesis
    by (simp add: found_state_cached calm_def ex_pending_def none drain_flag_def) (simp add: ex_busy_def)
qed

lemma ex_push:
  "fst (handleHeartbeat mem_redis ex_server (calm 9) (ex_beat 3) ex_pending)
     = Inr \<lparr>hr_Acknowledged = True,
            hr_Assignment = Some \<lparr>ja_JobId = ''j1'', ja_AssignmentEpoch = 3, ja_Repository = ''r'',
                                  ja_Branch = ''main'', ja_CommitSha = ''c''\<rparr>,
            hr_DrainRequested = False\<rparr>"
proof -
  have "JobStore_Get no_faults ''j1'' (wdb ex_pending) = Inr (scanJob ex_assigned)"
    by (simp add: JobStore_Get_def ex_pending_def ex_assigned_def ex_job_def)
  then show ?thesis
    by (simp add: handleHeartbeat_def Let_def ex_found known_epoch_def pending_assignment_def ex_beat_def
        ex_busy_def split: prod.splits) (simp add: calm_def ex_assigned_def ex_job_def scanJob_def)
qed


text \<open>
  A worker the reaper has marked \<open>DEAD\<close>, or one that is \<open>OFFLINE\<close>, is not brought back by its
  own heartbeats once its cache entry is gone or cannot be read: every heartbeat is refused with
  \<open>NotFound\<close> and changes nothing.
\<close>

theorem dead_worker_refused:
  assumes "db_inv (wdb w)" and "x \<in> set (workers (wdb w))" and "w_status x \<in> {DEAD, OFFLINE}"
    and "w_id x = hb_WorkerId req" and "hb_WorkerId req \<noteq> ''''"
    and "ce_redis E R_get \<noteq> NoFault \<or> cached C (wrd w) (w_id x) = None"
  shows "handleHeartbeat C S E req w = (Inl NotFound, w)"
proof -
  have "found_state C E (hb_WorkerId req) (wrd w) = None"
    using assms(4,6) by (auto simp: found_state_def GetState_cached)
  moreover have "sql_first (\<lambda>y. w_id y = hb_WorkerId req) (workers (wdb w)) = Some x"
    using sql_first_key [OF db_invD(1) [OF assms(1)] assms(2)] assms(4) by simp
  ultimately show ?thesis
    using assms(3,5)
    by (auto simp: handleHeartbeat_def Let_def known_epoch_def GetEpochAndStatus_def query_def)
qed

theorem dead_worker_refused_witness:
  "handleHeartbeat mem_redis ex_server (calm 9) (ex_beat 3)
     (ex_world\<lparr>wdb := ex_db\<lparr>workers := [ex_worker\<lparr>w_status := DEAD\<rparr>], jobs := [ex_job]\<rparr>\<rparr>)
     = (Inl NotFound, ex_world\<lparr>wdb := ex_db\<lparr>workers := [ex_worker\<lparr>w_status := DEAD\<rparr>], jobs := [ex_job]\<rparr>\<rparr>)"
proof -
  let ?w = "ex_world\<lparr>wdb := ex_db\<lparr>workers := [ex_worker\<lparr>w_status := DEAD\<rparr>], jobs := [ex_job]\<rparr>\<rparr>"
  have "db_inv (wdb ?w)"
    by (rule db_invI)
       (auto simp: ex_defs worker_ok_def job_ok_def owner_ok_def active_def terminal_def
         max_int32_def max_int64_def history_ok_def attempts_def)
  moreover have "cached mem_redis (wrd ?w) ''w1'' = None"
    by (simp add: cached_def GetState_def mem_redis_def mem_empty_def ex_world_def)
  ultimately show ?thesis
    using dead_worker_refused [of ?w "ex_worker\<lparr>w_status := DEAD\<rparr>" "ex_beat 3" "calm 9" mem_redis ex_server]
    by (simp add: ex_beat_def ex_worker_def)
qed

section \<open>Properties of the job report\<close>

lemma flush_heartbeat_inv:
  assumes "db_inv d" and "newStatus \<noteq> ''DEAD''"
  shows "db_inv (snd (flush_heartbeat E wid found k newStatus cur d))"
  using UpdateHeartbeat_inv [OF assms, of "ce_pg E" "ce_now E S_heartbeat_update" wid k
      "if cur \<noteq> '''' then Some cur else None"] assms(1)
  by (auto simp: flush_heartbeat_def Let_def split: prod.splits sum.splits if_splits)

lemma MarkRunning_snd_inv: "db_inv d \<Longrightarrow> db_inv (if b then snd (MarkRunning flt now jid e d) else d)"
  by (simp add: MarkRunning_inv)

lemma handleHeartbeat_inv:
  assumes "db_inv (wdb w)" and "hb_Status req \<noteq> WORKER_STATUS_DEAD"
  shows "db_inv (wdb (snd (handleHeartbeat C S E req w)))"
proof (cases "handleHeartbeat C S E req w")
  case (Pair res w')
  have st: "workerStatusToDB (hb_Status req) \<noteq> ''DEAD''" using assms(2) by (cases "hb_Status req") auto
  show ?thesis
  proof (cases res)
    case (Inl e)
    with Pair assms(1) show ?thesis by (auto dest: handleHeartbeat_Inl)
  next
    case (Inr resp)
    show ?thesis
      by (rule handleHeartbeat_Inr [OF Pair [unfolded Inr]])
         (simp add: Pair flush_heartbeat_inv [OF _ st] MarkRunning_snd_inv assms(1))
  qed
qed

lemma record_result_discard:
  assumes inv: "db_inv d" and r: "record_result E job req d = (Inr (False, s), d')"
  shows "d' = d"
proof (cases "jobStatusToDB (rj_Status req) = ''FAILED''")
  case True
  with r obtain st where "RetryOrFail (ce_pg E) (ce_now E S_retry_lookup) (ce_clock E 0) (jb_ID job) (jb_CreatedAt job)
      (rj_AssignmentEpoch req) (jb_WorkerID job) (rj_ErrorMessage req) (rj_LogRef req) d = (Inr (st, False), d')"
    by (auto simp: record_result_def Let_def split: prod.splits sum.splits)
  from RetryOrFail_body_effect [OF db_invD(3) [OF inv] RetryOrFail_success [OF this]] show ?thesis by simp
next
  case False
  let ?st = "jobStatusToDB (rj_Status req)"
  from False r have "Complete (ce_pg E) (ce_now E S_complete) (jb_ID job) (jb_CreatedAt job)
      (rj_AssignmentEpoch req) ?st (rj_LogRef req) d = (Inr False, d')"
    by (auto simp: record_result_def Let_def split: prod.splits sum.splits)
  then obtain a where "rows_affected (Complete_where a) (jobs d) \<noteq> 1"
    and d': "d' = d\<lparr>jobs := sql_update (Complete_where a) (Complete_set a) (jobs d)\<rparr>"
    by (auto simp: Complete_def exec_def Let_def split: fault.splits option.splits)
  moreover have "rows_affected (Complete_where a) (jobs d) \<le> 1"
    by (rule complete_j.affected_le_1 [OF db_invD(3) [OF inv]])
  ultimately have "rows_affected (Complete_where a) (jobs d) = 0" by linarith
  then show ?thesis by (simp add: d' sql_update_none)
qed

lemma record_result_accept:
  assumes inv: "db_inv d" and j: "j \<in> set (jobs d)"
    and r: "record_result E (scanJob j) req d = (Inr (True, s), d')"
  shows "reported (j_id j) (j_created_at j) (rj_AssignmentEpoch req) j \<and> db_inv d' \<and>
         (\<forall>x\<in>set (jobs d'). j_id x = j_id j \<longrightarrow> \<not> active x)"
proof -
  let ?st = "jobStatusToDB (rj_Status req)" and ?e = "rj_AssignmentEpoch req"
  have only: "x = j" if "x \<in> set (jobs d)" "j_id x = j_id j" for x
    using distinct_key_eq [OF db_invD(3) [OF inv] that(1) j] that(2) by simp
  show ?thesis
  proof (cases "?st = ''FAILED''")
    case True
    with r have f: "RetryOrFail (ce_pg E) (ce_now E S_retry_lookup) (ce_clock E 0) (j_id j) (j_created_at j)
        ?e (j_worker_id j) (rj_ErrorMessage req) (rj_LogRef req) d = (Inr (s, True), d')"
      by (auto simp: record_result_def Let_def scanJob_def split: prod.splits sum.splits)
    from RetryOrFail_body_effect [OF db_invD(3) [OF inv] RetryOrFail_success [OF f]]
    obtain j0 where "j0 \<in> set (jobs d)" "reported (j_id j) (j_created_at j) ?e j0"
      and js: "jobs d' = sql_update (reported (j_id j) (j_created_at j) ?e)
                 (fail_set (ce_now E S_retry_lookup) (ce_clock E 0) (nonempty (rj_LogRef req))) (jobs d)"
      by (auto dest!: insert_retry_history_Inr)
    then have rep: "reported (j_id j) (j_created_at j) ?e j" using only [of j0] by (simp add: reported_def)
    have "\<not> active (fail_set n g l x)" for n g l x by (simp add: fail_set_def Let_def active_def)
    then have "\<not> active x" if "x \<in> set (jobs d')" "j_id x = j_id j" for x
      using that only rep unfolding js in_sql_update by (metis fail_set_ok reported_def db_invD(5) [OF inv])
    moreover have "db_inv d'"
      using RetryOrFail_inv [OF inv, of "ce_pg E" "ce_now E S_retry_lookup" "ce_clock E 0" "j_id j"
          "j_created_at j" ?e "j_worker_id j" "rj_ErrorMessage req" "rj_LogRef req"] f by simp
    ultimately show ?thesis using rep by blast
  next
    case False
    then have st: "?st \<in> {''SUCCESS'', ''FAILED'', ''CANCELLED''}" by (cases "rj_Status req") auto
    from False r have c: "Complete (ce_pg E) (ce_now E S_complete) (j_id j) (j_created_at j) ?e ?st
        (rj_LogRef req) d = (Inr True, d')"
      by (auto simp: record_result_def Let_def scanJob_def split: prod.splits sum.splits)
    have inv': "db_inv d'"
      using Complete_inv [OF inv st, of "ce_pg E" "ce_now E S_complete" "j_id j" "j_created_at j" ?e "rj_LogRef req"] c
      by simp
    obtain j0 s0 where j0: "j0 \<in> set (jobs d)" "j_id j0 = j_id j" "j_assignment_epoch j0 = Some ?e" "active j0"
      "to_job_status ?st = Some s0"
      "jobs d' = map (\<lambda>x. if x = j0 then j0\<lparr>j_status := s0, j_finished_at := Some (ce_now E S_complete),
                                            j_log_ref := nonempty (rj_LogRef req)\<rparr> else x) (jobs d)"
      by (rule Complete_success [OF inv c])
    have eq: "j0 = j" by (rule only [OF j0(1,2)])
    have "s0 \<notin> {ASSIGNED, RUNNING}"
      using j0(5) st by (auto simp: to_job_status_def all_job_statuses_def split: if_splits)
    then have "\<not> active x" if "x \<in> set (jobs d')" "j_id x = j_id j" for x
      using that only unfolding j0(6) eq by (auto simp: active_def split: if_splits)
    with inv' j0 eq show ?thesis by (auto simp: reported_def)
  qed
qed

lemma release_worker_jobs: "jobs (wdb (release_worker C E wid e w)) = jobs (wdb w)"
proof -
  have "jobs (snd (FreeWorker flt now x e d)) = jobs d" for flt now x d by (rule worker_ops_jobs)
  then show ?thesis
    by (auto simp: release_worker_def split: option.splits prod.splits sum.splits bool.splits) (metis snd_conv)+
qed

lemma release_worker_inv: "db_inv (wdb w) \<Longrightarrow> db_inv (wdb (release_worker C E wid e w))"
proof -
  assume "db_inv (wdb w)"
  then have "db_inv (snd (FreeWorker flt now x e (wdb w)))" for flt now x by (rule FreeWorker_inv)
  then show ?thesis using \<open>db_inv (wdb w)\<close>
    by (auto simp: release_worker_def split: option.splits prod.splits sum.splits bool.splits) (metis snd_conv)+
qed

lemma ReportJobResult_inactive:
  assumes "\<And>x. x \<in> set (jobs (wdb w)) \<Longrightarrow> j_id x = rj_JobId req \<Longrightarrow> \<not> active x"
    and "ReportJobResult C E req w = (res, w')"
  shows "w' = w \<and> (\<forall>resp. res = Inr resp \<longrightarrow> rs_DiscardedStaleEpoch resp)"
proof (cases "JobStore_Get (ce_pg E) (rj_JobId req) (wdb w)")
  case (Inr job)
  then obtain j where j: "j \<in> set (jobs (wdb w))" "j_id j = rj_JobId req" "job = scanJob j"
    by (rule JobStore_Get_Inr)
  note quiet = Complete_inactive [of "wdb w" "rj_JobId req", OF assms(1)]
    RetryOrFail_inactive [of "wdb w" "rj_JobId req", OF assms(1)]
  have "snd (record_result E job req (wdb w)) = wdb w \<and> (\<forall>st. fst (record_result E job req (wdb w)) \<noteq> Inr (True, st))"
    using quiet j(2) unfolding record_result_def Let_def j(3) scanJob_def
    by (auto split: prod.splits sum.splits) (metis fst_conv snd_conv)+
  with Inr assms(2) show ?thesis
    by (auto simp: ReportJobResult_def split: if_splits prod.splits sum.splits bool.splits)
qed (use assms(2) in \<open>auto simp: ReportJobResult_def split: if_splits\<close>)

text \<open>
  C12. A job result is applied at most once. A report that is answered as discarded has changed
  neither the database nor the cache; a report that is accepted was made under the epoch of the
  job's current assignment while the job was active, and after it every further report for that
  job, with any content and under any faults, changes nothing and, if answered, is answered as
  discarded.
\<close>

theorem report_applied_once:
  assumes inv: "db_inv (wdb w)" and r: "ReportJobResult C E req w = (Inr resp, w1)"
  shows "(rs_DiscardedStaleEpoch resp \<longrightarrow> w1 = w) \<and>
         (\<not> rs_DiscardedStaleEpoch resp \<longrightarrow>
            (\<exists>j\<in>set (jobs (wdb w)). j_id j = rj_JobId req \<and> active j \<and>
               j_assignment_epoch j = Some (rj_AssignmentEpoch req)) \<and>
            (\<forall>E' req' res w2. rj_JobId req' = rj_JobId req \<longrightarrow> ReportJobResult C E' req' w1 = (res, w2) \<longrightarrow>
               w2 = w1 \<and> (\<forall>resp'. res = Inr resp' \<longrightarrow> rs_DiscardedStaleEpoch resp')))"
proof -
  from r obtain job st b d where "JobStore_Get (ce_pg E) (rj_JobId req) (wdb w) = Inr job"
    and rec: "record_result E job req (wdb w) = (Inr (b, st), d)"
    and resp: "rs_DiscardedStaleEpoch resp \<longleftrightarrow> \<not> b"
    and w1: "w1 = (if b then release_worker C E (jb_WorkerID job) (rj_AssignmentEpoch req) (w\<lparr>wdb := d\<rparr>)
                   else w\<lparr>wdb := d\<rparr>)"
    by (auto simp: ReportJobResult_def split: if_splits sum.splits prod.splits bool.splits)
  then obtain j where j: "j \<in> set (jobs (wdb w))" "j_id j = rj_JobId req" "job = scanJob j"
    using JobStore_Get_Inr by metis
  show ?thesis
  proof (cases b)
    case False
    with record_result_discard [OF inv] rec resp w1 show ?thesis by simp
  next
    case True
    have "record_result E (scanJob j) req (wdb w) = (Inr (True, st), d)" using rec True j(3) by simp
    note acc = record_result_accept [OF inv j(1) this]
    have "\<not> active x" if "x \<in> set (jobs (wdb w1))" "j_id x = rj_JobId req" for x
      using that acc j(2) by (simp add: w1 True release_worker_jobs)
    then have "w2 = w1 \<and> (\<forall>resp'. res = Inr resp' \<longrightarrow> rs_DiscardedStaleEpoch resp')"
      if "rj_JobId req' = rj_JobId req" "ReportJobResult C E' req' w1 = (res, w2)" for E' req' res w2
      using ReportJobResult_inactive [OF _ that(2)] that(1) by simp
    moreover have "active j" "j_assignment_epoch j = Some (rj_AssignmentEpoch req)"
      using acc by (auto simp: reported_def)
    ultimately show ?thesis using resp True j(1,2) by blast
  qed
qed

definition ex_report :: ReportJobResultRequest where
  "ex_report = \<lparr>rj_JobId = ''j2'', rj_AssignmentEpoch = 3, rj_Status = JOB_STATUS_SUCCESS,
                rj_ExitCode = 0, rj_LogRef = ''log'', rj_ErrorMessage = ''''\<rparr>"

lemma ex_report_ok:
  "fst (ReportJobResult mem_redis (calm 9) ex_report ex_world)
     = Inr \<lparr>rs_Acknowledged = True, rs_DiscardedStaleEpoch = False\<rparr>"
  by (simp add: ReportJobResult_def JobStore_Get_def record_result_def Complete_def to_job_status_def
      all_job_statuses_def ex_report_def calm_def ex_world_def scanJob_def eval_defs)

theorem report_applied_once_witness:
  "snd (ReportJobResult mem_redis (calm 10) ex_report (snd (ReportJobResult mem_redis (calm 9) ex_report ex_world)))
     = snd (ReportJobResult mem_redis (calm 9) ex_report ex_world)"
proof -
  have inv: "db_inv (wdb ex_world)" by (simp add: ex_world_def)
  from ex_report_ok obtain w1 where w1: "ReportJobResult mem_redis (calm 9) ex_report ex_world
      = (Inr \<lparr>rs_Acknowledged = True, rs_DiscardedStaleEpoch = False\<rparr>, w1)" by (metis prod.collapse)
  from report_applied_once [OF inv w1] have "snd (ReportJobResult mem_redis (calm 10) ex_report w1) = w1"
    by (metis ReportJobResultResponse.select_convs(2) prod.collapse)
  then show ?thesis by (simp add: w1)
qed

section \<open>Properties of the registration\<close>

text \<open>
  \<open>RegisterWorker\<close> refuses a request that names no host, instance, operating system or version,
  or no positive resources, before it touches anything; a registration that is answered carries the
  id and epoch the database holds, and leaves the cache, when it can be written, in the state of an
  idle worker under that epoch.
\<close>

theorem RegisterWorker_correct:
  assumes inv: "db_inv (wdb w)" and C: "redis_ok C"
    and fits: "rp_CapacitySlots req \<le> max_int32"
    and r: "RegisterWorker C S E uuid req w = (res, w')"
  shows "(rp_Hostname req = '''' \<or> rp_InstanceID req = '''' \<or> rp_OS req = '''' \<or> rp_Version req = '''' \<or>
          rp_CPUCores req \<le> 0 \<or> rp_MemoryMB req \<le> 0 \<longrightarrow> res = Inl InvalidArgument \<and> w' = w) \<and>
         (\<forall>resp. res = Inr resp \<longrightarrow>
            (\<exists>x\<in>set (workers (wdb w')).
               w_id x = rr_WorkerId resp \<and> w_epoch x = rr_Epoch resp \<and>
               w_instance_id x = rp_InstanceID req \<and> w_status x = READY \<and>
               (ce_redis E R_set = NoFault \<longrightarrow>
                cached C (wrd w') (w_id x) =
                  Some \<lparr>ws_Epoch = w_epoch x, ws_Status = ''READY'', ws_CurrentJobID = '''',
                        ws_AvailableCapacity = w_available_capacity x, ws_LastPGFlushUnix = 0,
                        ws_DrainRequested = drain_flag (cached C (wrd w) (w_id x))\<rparr>)))"
proof -
  have "\<exists>x\<in>set (workers (wdb w')).
      w_id x = rr_WorkerId resp \<and> w_epoch x = rr_Epoch resp \<and> w_instance_id x = rp_InstanceID req \<and>
      w_status x = READY \<and>
      (ce_redis E R_set = NoFault \<longrightarrow>
       cached C (wrd w') (w_id x) =
         Some \<lparr>ws_Epoch = w_epoch x, ws_Status = ''READY'', ws_CurrentJobID = '''',
               ws_AvailableCapacity = w_available_capacity x, ws_LastPGFlushUnix = 0,
               ws_DrainRequested = drain_flag (cached C (wrd w) (w_id x))\<rparr>)" if res: "res = Inr resp" for resp
  proof -
    let ?s = "\<lambda>g. \<lparr>ws_Epoch = rw_Epoch g, ws_Status = ''READY'', ws_CurrentJobID = '''',
        ws_AvailableCapacity = max 1 (rp_CapacitySlots req), ws_LastPGFlushUnix = 0, ws_DrainRequested = False\<rparr>"
    from r res obtain g d where reg: "Register (ce_pg E) (ce_now E S_register_upsert) uuid req (wdb w) = (Inr g, d)"
      and resp: "rr_WorkerId resp = rw_ID g" "rr_Epoch resp = rw_Epoch g"
      and w': "wdb w' = d" "wrd w' = snd (SetState C (ce_redis E R_set) (rw_ID g) (?s g) (wrd w))"
      by (auto simp: RegisterWorker_def Let_def max_def split: if_splits sum.splits prod.splits)
    from Register_effect [OF inv reg] obtain x where x: "x \<in> set (workers d)"
      and row: "registered_row (ce_now E S_register_upsert) req g x" by blast
    have "db_inv d"
      using Register_inv [OF inv, of "ce_pg E" "ce_now E S_register_upsert" uuid req] reg by simp
    from db_invD(4) [OF this x] have "state_ok (?s g)"
      using row fits by (auto simp: registered_row_def worker_ok_def state_ok_def max_int32_def max_int64_def)
    from cached_SetState [OF C this, of "rw_ID g" "wrd w" "rw_ID g"] row x show ?thesis
      by (intro bexI [of _ x]) (auto simp: registered_row_def resp w')
  qed
  moreover have "res = Inl InvalidArgument \<and> w' = w"
    if "rp_Hostname req = '''' \<or> rp_InstanceID req = '''' \<or> rp_OS req = '''' \<or> rp_Version req = '''' \<or>
        rp_CPUCores req \<le> 0 \<or> rp_MemoryMB req \<le> 0"
  proof -
    have "validateRegisterRequest req \<noteq> None" using that by (auto simp: validateRegisterRequest_def)
    with r show ?thesis by (simp add: RegisterWorker_def)
  qed
  ultimately show ?thesis by blast
qed

theorem RegisterWorker_correct_witness:
  "fst (RegisterWorker mem_redis ex_server (calm 9) ''w9'' (ex_params\<lparr>rp_OS := ''''\<rparr>) ex_world)
     = Inl InvalidArgument"
proof -
  have "db_inv (wdb ex_world)" by (simp add: ex_world_def)
  moreover have "rp_CapacitySlots (ex_params\<lparr>rp_OS := ''''\<rparr>) \<le> max_int32"
    by (simp add: ex_params_def max_int32_def)
  ultimately show ?thesis
    using RegisterWorker_correct [OF _ mem_redis_ok _ surjective_pairing, of ex_world
        "ex_params\<lparr>rp_OS := ''''\<rparr>" ex_server "calm 9" "''w9''"] by simp
qed

end
