(* ===== verification/BackgroundLoops.thy ===== *)
theory BackgroundLoops
  imports Scheduling
begin

text \<open>
  \<open>internal/scheduler/reaper.go\<close> and \<open>internal/scheduler/retrypoller.go\<close>: the two background loops
  that only the leader runs. One pass of a loop is a function on the world; each row of its list is
  handled under an environment of its own.
\<close>

section \<open>The reaper\<close>

fun sweep_loop ::
    "'r redis_client \<Rightarrow> (string \<Rightarrow> call_env) \<Rightarrow> StaleWorker list \<Rightarrow> 'r world \<Rightarrow> 'r world" where
  "sweep_loop C Ew [] w = w"
| "sweep_loop C Ew (s # ss) w =
     (let E = Ew (sw_ID s) in
      case MarkDeadAndRequeue (ce_pg E) (ce_now E S_dead_mark) (sw_ID s) (sw_Epoch s) (wdb w) of
        (Inl _, d) \<Rightarrow> sweep_loop C Ew ss (w\<lparr>wdb := d\<rparr>)
      | (Inr _, d) \<Rightarrow>
          sweep_loop C Ew ss
            (w\<lparr>wdb := d, wrd := snd (Delete C (ce_redis E R_del) (sw_ID s) (wrd w))\<rparr>))"

definition sweep ::
    "'r redis_client \<Rightarrow> call_env \<Rightarrow> (string \<Rightarrow> call_env) \<Rightarrow> int \<Rightarrow> 'r world \<Rightarrow> 'r world" where
  "sweep C E Ew timeoutSeconds w =
     (case ListStale (ce_pg E) (ce_now E S_list_stale) timeoutSeconds (wdb w) of
        Inl _ \<Rightarrow> w
      | Inr staleWorkers \<Rightarrow> sweep_loop C Ew staleWorkers w)"

text \<open>One tick of \<open>Run\<close>.\<close>

definition reaper_tick ::
    "'r redis_client \<Rightarrow> call_env \<Rightarrow> (string \<Rightarrow> call_env) \<Rightarrow> int \<Rightarrow> bool \<Rightarrow> 'r world \<Rightarrow> 'r world" where
  "reaper_tick C E Ew timeoutSeconds isLeader w =
     (if isLeader then sweep C E Ew timeoutSeconds w else w)"

section \<open>The retry poller\<close>

definition retry_message :: "DueRetry \<Rightarrow> JobMessage" where
  "retry_message j =
     \<lparr>jm_JobID = du_ID j, jm_Priority = du_Priority j, jm_Repository = du_Repository j,
      jm_Branch = du_Branch j, jm_CommitSHA = du_CommitSHA j,
      jm_RequiredCapabilities = du_RequiredCapabilities j\<rparr>"

fun poll_loop ::
    "'r redis_client \<Rightarrow> (string \<Rightarrow> call_env) \<Rightarrow> DueRetry list \<Rightarrow> 'r world \<Rightarrow> 'r world" where
  "poll_loop C Ej [] w = w"
| "poll_loop C Ej (j # js) w =
     (let E = Ej (du_ID j) in
      case MarkQueuedFromRetry (ce_pg E) (du_ID j) (du_CreatedAt j) (wdb w) of
        (Inl _, d) \<Rightarrow> poll_loop C Ej js (w\<lparr>wdb := d\<rparr>)
      | (Inr False, d) \<Rightarrow> poll_loop C Ej js (w\<lparr>wdb := d\<rparr>)
      | (Inr True, d) \<Rightarrow>
          poll_loop C Ej js
            (w\<lparr>wdb := d, wrd := snd (Enqueue C (ce_redis E R_xadd) (retry_message j) (wrd w))\<rparr>))"

definition poll ::
    "'r redis_client \<Rightarrow> call_env \<Rightarrow> (string \<Rightarrow> call_env) \<Rightarrow> 'r world \<Rightarrow> 'r world" where
  "poll C E Ej w =
     (case ListDueRetries (ce_pg E) (ce_now E S_list_due) 100 (wdb w) of
        Inl _ \<Rightarrow> w
      | Inr dueJobs \<Rightarrow> poll_loop C Ej dueJobs w)"

definition poller_tick ::
    "'r redis_client \<Rightarrow> call_env \<Rightarrow> (string \<Rightarrow> call_env) \<Rightarrow> bool \<Rightarrow> 'r world \<Rightarrow> 'r world" where
  "poller_tick C E Ej isLeader w = (if isLeader then poll C E Ej w else w)"

section \<open>The reaper leaves no stale worker behind\<close>

lemma sql_update_twice:
  assumes "\<And>x. x \<in> set t \<Longrightarrow> P x \<Longrightarrow> \<not> Q (f x)" and "\<And>x. x \<in> set t \<Longrightarrow> P x \<Longrightarrow> h x = f x"
    and "\<And>x. x \<in> set t \<Longrightarrow> \<not> P x \<Longrightarrow> Q x \<Longrightarrow> h x = g x"
  shows "sql_update Q g (sql_update P f t) = sql_update (\<lambda>x. P x \<or> Q x) h t"
  using assms by (auto simp: sql_update_def)

text \<open>A listed worker is in the table with the epoch read, and not \<open>OFFLINE\<close> or \<open>DEAD\<close>.\<close>

definition listed :: "worker_row list \<Rightarrow> StaleWorker \<Rightarrow> bool" where
  "listed ws s \<longleftrightarrow> (\<exists>x\<in>set ws. w_id x = sw_ID s \<and> w_epoch x = sw_Epoch s \<and> w_status x \<notin> {OFFLINE, DEAD})"

lemma dead_update_by_id:
  assumes "distinct (map w_id ws)" and "listed ws s"
  shows "sql_update (MarkDead_where (sw_ID s, sw_Epoch s, now)) (MarkDead_set (sw_ID s, sw_Epoch s, now)) ws
       = sql_update (\<lambda>x. w_id x = sw_ID s) (MarkDead_set (sw_ID s, sw_Epoch s, now)) ws"
proof -
  obtain x where x: "x \<in> set ws" "w_id x = sw_ID s" "w_epoch x = sw_Epoch s" "w_status x \<notin> {OFFLINE, DEAD}"
    using assms(2) by (auto simp: listed_def)
  have "y = x" if "y \<in> set ws" "w_id y = sw_ID s" for y
    using distinct_key_eq [OF assms(1) that(1) x(1)] that(2) x(2) by simp
  then have "MarkDead_where (sw_ID s, sw_Epoch s, now) y \<longleftrightarrow> w_id y = sw_ID s" if "y \<in> set ws" for y
    using x that by (metis MarkDead_where.simps)
  then show ?thesis
    unfolding sql_update_def by (intro map_cong) (simp_all del: MarkDead_where.simps MarkDead_set.simps)
qed

text \<open>One listed worker: its row is marked \<open>DEAD\<close>, its jobs go back to the queue, its cache entry goes.\<close>

lemma sweep_one:
  assumes inv: "db_inv (wdb w)" and C: "redis_ok C" and listed: "listed (workers (wdb w)) s"
  obtains w1 where "\<And>ss. sweep_loop C (\<lambda>_. calm now) (s # ss) w = sweep_loop C (\<lambda>_. calm now) ss w1"
    and "db_inv (wdb w1)"
    and "workers (wdb w1) = sql_update (\<lambda>x. w_id x = sw_ID s) (MarkDead_set (sw_ID s, sw_Epoch s, now)) (workers (wdb w))"
    and "jobs (wdb w1) = sql_update (held_by (sw_ID s)) requeued (jobs (wdb w))"
    and "\<And>wid. cached C (wrd w1) wid = (if wid = sw_ID s then None else cached C (wrd w) wid)"
    and "\<And>y. y \<in> set (workers (wdb w)) \<Longrightarrow> w_id y = sw_ID s \<Longrightarrow> w_epoch y = sw_Epoch s"
proof -
  let ?a = "(sw_ID s, sw_Epoch s, now)"
  obtain x where x: "x \<in> set (workers (wdb w))" "MarkDead_where ?a x" using listed by (auto simp: listed_def)
  obtain d where d: "MarkDeadAndRequeue no_faults now (sw_ID s) (sw_Epoch s) (wdb w) = (Inr (), d)"
    and eff: "dead_effect now (sw_ID s) (sw_Epoch s) (wdb w) d"
    using MarkDeadAndRequeue_total [OF inv x] by blast
  let ?w1 = "w\<lparr>wdb := d, wrd := snd (Delete C NoFault (sw_ID s) (wrd w))\<rparr>"
  have epoch: "w_epoch y = sw_Epoch s" if "y \<in> set (workers (wdb w))" "w_id y = sw_ID s" for y
    using distinct_key_eq [OF db_invD(1) [OF inv] that(1) x(1)] that(2) x(2) by simp
  show ?thesis
  proof (rule that [of ?w1])
    show "sweep_loop C (\<lambda>_. calm now) (s # ss) w = sweep_loop C (\<lambda>_. calm now) ss ?w1" for ss
      by (simp add: calm_def d)
    show "db_inv (wdb ?w1)"
      using MarkDeadAndRequeue_inv [OF inv, of no_faults now "sw_ID s" "sw_Epoch s"] by (simp add: d)
    show "workers (wdb ?w1) = sql_update (\<lambda>x. w_id x = sw_ID s) (MarkDead_set ?a) (workers (wdb w))"
      using eff dead_update_by_id [OF db_invD(1) [OF inv] listed, of now] by (simp add: dead_effect_def)
    show "jobs (wdb ?w1) = sql_update (held_by (sw_ID s)) requeued (jobs (wdb w))"
      using eff by (simp add: dead_effect_def)
  qed (use cached_Delete [OF C] epoch in simp_all)
qed

lemma sweep_loop_effect:
  assumes "db_inv (wdb w)" and "redis_ok C" and "distinct (map sw_ID ss)"
    and "\<And>s. s \<in> set ss \<Longrightarrow> listed (workers (wdb w)) s"
  shows "db_inv (wdb (sweep_loop C (\<lambda>_. calm now) ss w)) \<and>
         workers (wdb (sweep_loop C (\<lambda>_. calm now) ss w)) = sql_update (\<lambda>x. w_id x \<in> sw_ID ` set ss)
           (\<lambda>x. MarkDead_set (w_id x, w_epoch x, now) x) (workers (wdb w)) \<and>
         jobs (wdb (sweep_loop C (\<lambda>_. calm now) ss w)) = sql_update (\<lambda>j. \<exists>s\<in>set ss. held_by (sw_ID s) j) requeued (jobs (wdb w)) \<and>
         (\<forall>wid. cached C (wrd (sweep_loop C (\<lambda>_. calm now) ss w)) wid = (if wid \<in> sw_ID ` set ss then None else cached C (wrd w) wid))"
  using assms
proof (induction ss arbitrary: w)
  case Nil
  then show ?case by (simp add: sql_update_id)
next
  case (Cons s ss)
  obtain w1 where step: "\<And>ss. sweep_loop C (\<lambda>_. calm now) (s # ss) w = sweep_loop C (\<lambda>_. calm now) ss w1"
    and inv1: "db_inv (wdb w1)"
    and ws1: "workers (wdb w1) = sql_update (\<lambda>x. w_id x = sw_ID s) (MarkDead_set (sw_ID s, sw_Epoch s, now)) (workers (wdb w))"
    and js1: "jobs (wdb w1) = sql_update (held_by (sw_ID s)) requeued (jobs (wdb w))"
    and cache: "\<And>wid. cached C (wrd w1) wid = (if wid = sw_ID s then None else cached C (wrd w) wid)"
    and epoch: "\<And>y. y \<in> set (workers (wdb w)) \<Longrightarrow> w_id y = sw_ID s \<Longrightarrow> w_epoch y = sw_Epoch s"
    using sweep_one [OF Cons.prems(1,2) Cons.prems(4) [of s], of now] by (metis list.set_intros(1))
  have new: "sw_ID s \<notin> sw_ID ` set ss" using Cons.prems(3) by simp
  have "listed (workers (wdb w1)) t" if "t \<in> set ss" for t
  proof -
    have "sw_ID t \<noteq> sw_ID s" using new that by (metis imageI)
    with Cons.prems(4) [of t] that show ?thesis
      by (force simp: listed_def ws1 in_sql_update)
  qed
  note IH = Cons.IH [OF inv1 Cons.prems(2) _ this]
  have ws: "sql_update (\<lambda>x. w_id x \<in> sw_ID ` set ss) (\<lambda>x. MarkDead_set (w_id x, w_epoch x, now) x)
        (workers (wdb w1))
      = sql_update (\<lambda>x. w_id x \<in> sw_ID ` set (s # ss)) (\<lambda>x. MarkDead_set (w_id x, w_epoch x, now) x)
        (workers (wdb w))"
  proof -
    have "sql_update (\<lambda>x. w_id x \<in> sw_ID ` set ss) (\<lambda>x. MarkDead_set (w_id x, w_epoch x, now) x)
        (workers (wdb w1))
      = sql_update (\<lambda>x. w_id x = sw_ID s \<or> w_id x \<in> sw_ID ` set ss)
          (\<lambda>x. MarkDead_set (w_id x, w_epoch x, now) x) (workers (wdb w))"
      unfolding ws1 using epoch new by (intro sql_update_twice) (auto simp: set_updated_at_def)
    then show ?thesis by simp
  qed
  have js: "sql_update (\<lambda>j. \<exists>s\<in>set ss. held_by (sw_ID s) j) requeued (jobs (wdb w1))
      = sql_update (\<lambda>j. \<exists>s\<in>set (s # ss). held_by (sw_ID s) j) requeued (jobs (wdb w))"
  proof -
    have "sql_update (\<lambda>j. \<exists>s\<in>set ss. held_by (sw_ID s) j) requeued (jobs (wdb w1))
      = sql_update (\<lambda>j. held_by (sw_ID s) j \<or> (\<exists>s\<in>set ss. held_by (sw_ID s) j)) requeued (jobs (wdb w))"
      unfolding js1 by (rule sql_update_twice) (auto simp: held_by_def requeued_def)
    then show ?thesis by simp
  qed
  from IH Cons.prems(3) cache show ?case
    unfolding step ws [symmetric] js [symmetric] by auto
qed

lemma ListStale_calm:
  "ListStale no_faults now T d = Inr (map (\<lambda>x. \<lparr>sw_ID = w_id x, sw_Epoch = w_epoch x\<rparr>)
     (filter (stale now T) (workers d)))"
  by (simp add: ListStale_def)

lemma sweep_effect:
  fixes now T :: int
  assumes inv: "db_inv (wdb w)" and C: "redis_ok C"
  defines "old \<equiv> (\<lambda>x. x \<in> set (workers (wdb w)) \<and> stale now T x)"
  shows "\<exists>w'. sweep C (calm now) (\<lambda>_. calm now) T w = w' \<and> db_inv (wdb w') \<and>
           workers (wdb w') = sql_update (stale now T)
             (\<lambda>x. x\<lparr>w_status := DEAD, w_available_capacity := w_capacity_slots x, w_updated_at := now\<rparr>)
             (workers (wdb w)) \<and>
           jobs (wdb w') = sql_update (\<lambda>j. \<exists>x. old x \<and> held_by (w_id x) j) requeued (jobs (wdb w)) \<and>
           (\<forall>x. old x \<longrightarrow> cached C (wrd w') (w_id x) = None) \<and>
           (\<forall>wid. (\<forall>x. old x \<longrightarrow> w_id x \<noteq> wid) \<longrightarrow> cached C (wrd w') wid = cached C (wrd w) wid)"
proof -
  let ?ss = "map (\<lambda>x. \<lparr>sw_ID = w_id x, sw_Epoch = w_epoch x\<rparr>) (filter (stale now T) (workers (wdb w)))"
  have sw: "sweep C (calm now) (\<lambda>_. calm now) T w = sweep_loop C (\<lambda>_. calm now) ?ss w"
    by (simp add: sweep_def ListStale_calm calm_def)
  have ids: "sw_ID ` set ?ss = w_id ` {x. old x}" by (force simp: old_def)
  have "distinct (map w_id (filter (stale now T) (workers (wdb w))))"
    using db_invD(1) [OF inv] by (simp add: distinct_map_filter)
  then have dist: "distinct (map sw_ID ?ss)" by (simp add: comp_def)
  have "listed (workers (wdb w)) s" if "s \<in> set ?ss" for s
    using that by (auto simp: listed_def stale_def)
  note eff = sweep_loop_effect [OF inv C dist this, of now]
  have mem: "w_id x \<in> w_id ` {x. old x} \<longleftrightarrow> stale now T x" if x: "x \<in> set (workers (wdb w))" for x
  proof
    assume "w_id x \<in> w_id ` {x. old x}"
    then obtain y where "old y" "w_id y = w_id x" by auto
    with distinct_key_eq [OF db_invD(1) [OF inv] _ x] show "stale now T x" by (auto simp: old_def)
  qed (use x in \<open>auto simp: old_def\<close>)
  have "sql_update (\<lambda>x. w_id x \<in> sw_ID ` set ?ss) (\<lambda>x. MarkDead_set (w_id x, w_epoch x, now) x)
      (workers (wdb w))
    = sql_update (stale now T)
       (\<lambda>x. x\<lparr>w_status := DEAD, w_available_capacity := w_capacity_slots x, w_updated_at := now\<rparr>)
       (workers (wdb w))"
    unfolding ids sql_update_def by (rule map_cong [OF refl]) (simp add: mem set_updated_at_def)
  moreover have "(\<exists>s\<in>set ?ss. held_by (sw_ID s) j) \<longleftrightarrow> (\<exists>x. old x \<and> held_by (w_id x) j)" for j
    by (auto simp: old_def)
  ultimately show ?thesis
    unfolding sw using eff unfolding ids by (intro exI conjI) auto
qed

text \<open>
  C19. A sweep without faults is complete: every worker whose last heartbeat is older than the
  timeout is \<open>DEAD\<close> afterwards, holds no job, and is gone from the cache; every job it held is
  \<open>QUEUED\<close> again; and no worker with a recent heartbeat, nor any job of such a worker, is touched.
\<close>

theorem sweep_complete:
  fixes now T :: int
  assumes inv: "db_inv (wdb w)" and C: "redis_ok C"
  defines "old \<equiv> (\<lambda>x. x \<in> set (workers (wdb w)) \<and> stale now T x)"
  shows "\<exists>w'. sweep C (calm now) (\<lambda>_. calm now) T w = w' \<and> db_inv (wdb w') \<and>
           workers (wdb w') = sql_update (stale now T)
             (\<lambda>x. x\<lparr>w_status := DEAD, w_available_capacity := w_capacity_slots x, w_updated_at := now\<rparr>)
             (workers (wdb w)) \<and>
           jobs (wdb w') = sql_update (\<lambda>j. \<exists>x. old x \<and> held_by (w_id x) j) requeued (jobs (wdb w)) \<and>
           (\<forall>x. old x \<longrightarrow> cached C (wrd w') (w_id x) = None) \<and>
           (\<forall>wid. (\<forall>x. old x \<longrightarrow> w_id x \<noteq> wid) \<longrightarrow> cached C (wrd w') wid = cached C (wrd w) wid)"
  unfolding old_def by (rule sweep_effect [OF inv C])

theorem sweep_complete_witness:
  "map w_status (workers (wdb (sweep mem_redis (calm (30 * second)) (\<lambda>_. calm (30 * second)) 20 ex_world)))
     = [DEAD]"
proof -
  have "db_inv (wdb ex_world)" by (simp add: ex_world_def)
  moreover have "stale (30 * second) 20 ex_worker" by (simp add: stale_def ex_worker_def second_def)
  ultimately show ?thesis
    using sweep_complete [OF _ mem_redis_ok, of ex_world "30 * second" 20]
    by (auto simp: ex_world_def ex_db_def)
qed

lemma sweep_loop_inv: "db_inv (wdb w) \<Longrightarrow> db_inv (wdb (sweep_loop C Ew ss w))"
proof (induction ss arbitrary: w)
  case (Cons s ss)
  then show ?case
    using MarkDeadAndRequeue_inv [OF Cons.prems, of "ce_pg (Ew (sw_ID s))" "ce_now (Ew (sw_ID s)) S_dead_mark"
        "sw_ID s" "sw_Epoch s"]
    by (auto simp: Let_def split: prod.splits sum.splits)
qed simp

section \<open>The poller hands every due retry to the queue\<close>

definition retrying :: "job_row list \<Rightarrow> DueRetry \<Rightarrow> bool" where
  "retrying js x \<longleftrightarrow> (\<exists>j\<in>set js. j_status j = RETRYING \<and> x = to_DueRetry j)"

lemma MarkQueued_hit:
  assumes inv: "db_inv d" and j: "j \<in> set (jobs d)" "j_status j = RETRYING"
  shows "MarkQueuedFromRetry no_faults (j_id j) (j_created_at j) d =
           (Inr True, d\<lparr>jobs := sql_update (\<lambda>x. j_id x = j_id j)
              (\<lambda>x. x\<lparr>j_status := QUEUED, j_retry_at := None\<rparr>) (jobs d)\<rparr>)"
proof -
  let ?P = "MarkQueued_where (j_id j, j_created_at j)"
  have hit: "?P j" using j by simp
  have "x = j" if "x \<in> set (jobs d)" "j_id x = j_id j" for x
    using distinct_key_eq [OF db_invD(3) [OF inv] that(1) j(1)] that(2) by simp
  then have "?P x \<longleftrightarrow> j_id x = j_id j" if "x \<in> set (jobs d)" for x using that hit by (metis MarkQueued_where.simps)
  then have "sql_update ?P (MarkQueued_set (j_id j, j_created_at j)) (jobs d)
      = sql_update (\<lambda>x. j_id x = j_id j) (\<lambda>x. x\<lparr>j_status := QUEUED, j_retry_at := None\<rparr>) (jobs d)"
    unfolding sql_update_def by (intro map_cong) (simp_all del: MarkQueued_where.simps)
  moreover have "rows_affected ?P (jobs d) = 1"
    using queued_once.affected_1_iff [OF db_invD(3) [OF inv]] j hit by blast
  ultimately show ?thesis by (simp add: MarkQueuedFromRetry_def)
qed

text \<open>
  A run of the loop without faults, below the length limit of the streams: the listed jobs are
  \<open>QUEUED\<close>, and each of them is in its queue.
\<close>

text \<open>One due retry: its job is \<open>QUEUED\<close> again and its message is on the stream of its priority.\<close>

lemma poll_one:
  assumes inv: "db_inv (wdb w)" and C: "redis_ok C" and due: "retrying (jobs (wdb w)) x" and caps: "caps_ok (retry_message x)"
    and room: "\<And>p. length (queued C (wrd w) p) < 100000"
  obtains w1 where "\<And>xs. poll_loop C (\<lambda>_. calm now) (x # xs) w = poll_loop C (\<lambda>_. calm now) xs w1"
    and "db_inv (wdb w1)"
    and "wdb w1 = (wdb w)\<lparr>jobs := sql_update (\<lambda>y. j_id y = du_ID x) (\<lambda>j. j\<lparr>j_status := QUEUED, j_retry_at := None\<rparr>) (jobs (wdb w))\<rparr>"
    and "\<And>p. \<exists>ys. queued C (wrd w1) p = queued C (wrd w) p @ ys \<and> length ys \<le> 1"
    and "brief (retry_message x) \<in> set (queued C (wrd w1) (du_Priority x))"
proof -
  let ?f = "\<lambda>j. j\<lparr>j_status := QUEUED, j_retry_at := None\<rparr>"
  from due obtain j where j: "j \<in> set (jobs (wdb w))" "j_status j = RETRYING" "x = to_DueRetry j"
    by (auto simp: retrying_def)
  have ids: "du_ID x = j_id j" "du_CreatedAt x = j_created_at j" by (simp_all add: j(3) to_DueRetry_def)
  note hit = MarkQueued_hit [OF inv j(1,2)]
  let ?w1 = "w\<lparr>wdb := (wdb w)\<lparr>jobs := sql_update (\<lambda>y. j_id y = du_ID x) ?f (jobs (wdb w))\<rparr>,
               wrd := snd (Enqueue C NoFault (retry_message x) (wrd w))\<rparr>"
  have prio: "jm_Priority (retry_message x) = du_Priority x" by (simp add: retry_message_def)
  show ?thesis
  proof (rule that [of ?w1])
    show "poll_loop C (\<lambda>_. calm now) (x # xs) w = poll_loop C (\<lambda>_. calm now) xs ?w1" for xs
      by (simp add: calm_def ids hit)
    show "db_inv (wdb ?w1)"
      using MarkQueuedFromRetry_inv [OF inv, of no_faults "j_id j" "j_created_at j"] by (simp add: hit ids)
    show "\<exists>ys. queued C (wrd ?w1) p = queued C (wrd w) p @ ys \<and> length ys \<le> 1" for p
      using stream_queue.kept_below_limit [OF C caps, of "wrd w" p NoFault] room [of p] by simp
    show "brief (retry_message x) \<in> set (queued C (wrd ?w1) (du_Priority x))"
      using stream_queue.acknowledged_is_queued [OF C caps, of NoFault "wrd w"] by (simp add: prio stream_queue.answer)
  qed simp
qed

lemma poll_loop_effect:
  assumes "db_inv (wdb w)" and "redis_ok C" and "distinct (map du_ID xs)"
    and "\<And>x. x \<in> set xs \<Longrightarrow> retrying (jobs (wdb w)) x \<and> caps_ok (retry_message x)"
    and "\<And>p. length (queued C (wrd w) p) + length xs \<le> 100000"
  shows "(let w' = poll_loop C (\<lambda>_. calm now) xs w in
           jobs (wdb w') = sql_update (\<lambda>j. j_id j \<in> du_ID ` set xs)
             (\<lambda>j. j\<lparr>j_status := QUEUED, j_retry_at := None\<rparr>) (jobs (wdb w)) \<and>
           workers (wdb w') = workers (wdb w) \<and>
           (\<forall>p. \<exists>ys. queued C (wrd w') p = queued C (wrd w) p @ ys) \<and>
           (\<forall>x\<in>set xs. brief (retry_message x) \<in> set (queued C (wrd w') (du_Priority x))))"
  using assms
proof (induction xs arbitrary: w)
  case Nil
  then show ?case by (simp add: sql_update_id)
next
  case (Cons x xs)
  let ?f = "\<lambda>j. j\<lparr>j_status := QUEUED, j_retry_at := None\<rparr>"
  have room: "length (queued C (wrd w) p) < 100000" for p using Cons.prems(5) [of p] by simp
  have due: "retrying (jobs (wdb w)) x" "caps_ok (retry_message x)" using Cons.prems(4) by simp_all
  obtain w1 where step: "\<And>xs. poll_loop C (\<lambda>_. calm now) (x # xs) w = poll_loop C (\<lambda>_. calm now) xs w1"
    and inv1: "db_inv (wdb w1)"
    and d1: "wdb w1 = (wdb w)\<lparr>jobs := sql_update (\<lambda>y. j_id y = du_ID x) ?f (jobs (wdb w))\<rparr>"
    and grow: "\<And>p. \<exists>ys. queued C (wrd w1) p = queued C (wrd w) p @ ys \<and> length ys \<le> 1"
    and here: "brief (retry_message x) \<in> set (queued C (wrd w1) (du_Priority x))"
    using poll_one [OF Cons.prems(1,2) due room, of now] by metis
  have fresh: "du_ID x \<notin> du_ID ` set xs" using Cons.prems(3) by simp
  have pre: "retrying (jobs (wdb w1)) y \<and> caps_ok (retry_message y)" if y: "y \<in> set xs" for y
  proof -
    from Cons.prems(4) [of y] y obtain i where i: "i \<in> set (jobs (wdb w))" "j_status i = RETRYING" "y = to_DueRetry i"
      and c: "caps_ok (retry_message y)"
      by (auto simp: retrying_def)
    have "du_ID y \<noteq> du_ID x" using fresh y by (metis imageI)
    then have "i \<in> set (jobs (wdb w1))" using i(1,3) by (auto simp: d1 in_sql_update to_DueRetry_def)
    with i c show ?thesis by (auto simp: retrying_def)
  qed
  have len: "length (queued C (wrd w1) p) + length xs \<le> 100000" for p
    using grow [of p] Cons.prems(5) [of p] by auto
  define w' where "w' = poll_loop C (\<lambda>_. calm now) xs w1"
  have IH: "jobs (wdb w') = sql_update (\<lambda>j. j_id j \<in> du_ID ` set xs) ?f (jobs (wdb w1))"
    "workers (wdb w') = workers (wdb w1)" "\<forall>p. \<exists>ys. queued C (wrd w') p = queued C (wrd w1) p @ ys"
    "\<forall>x\<in>set xs. brief (retry_message x) \<in> set (queued C (wrd w') (du_Priority x))"
    using Cons.IH [OF inv1 Cons.prems(2) _ pre len] Cons.prems(3) by (auto simp: Let_def w'_def)
  have "jobs (wdb w') = sql_update (\<lambda>y. j_id y = du_ID x \<or> j_id y \<in> du_ID ` set xs) ?f (jobs (wdb w))"
    unfolding IH(1) using fresh by (simp add: d1, intro sql_update_twice) auto
  moreover have "\<exists>ys. queued C (wrd w') p = queued C (wrd w) p @ ys" for p
    using IH(3) grow [of p] by (metis append.assoc)
  moreover have "brief (retry_message x) \<in> set (queued C (wrd w') (du_Priority x))"
    using IH(3) here by (metis UnI1 set_append)
  moreover have "workers (wdb w1) = workers (wdb w)" by (simp add: d1)
  ultimately show ?case
    unfolding step w'_def [symmetric] Let_def using IH(2,4) by simp
qed

definition due_page :: "int \<Rightarrow> db \<Rightarrow> job_row list" where
  "due_page now d =
     take 100 (sort_key (\<lambda>j. case j_retry_at j of None \<Rightarrow> 0 | Some t \<Rightarrow> t) (filter (due now) (jobs d)))"

lemma due_page_props:
  "set (due_page now d) \<subseteq> {j \<in> set (jobs d). due now j}"
  "distinct (map j_id (jobs d)) \<Longrightarrow> distinct (map j_id (due_page now d))"
  "length (filter (due now) (jobs d)) \<le> 100 \<Longrightarrow> set (due_page now d) = {j \<in> set (jobs d). due now j}"
proof -
  show "set (due_page now d) \<subseteq> {j \<in> set (jobs d). due now j}"
    by (auto simp: due_page_def dest!: in_set_takeD)
  show "distinct (map j_id (due_page now d))" if "distinct (map j_id (jobs d))"
  proof -
    have "distinct (map j_id (filter (due now) (jobs d)))" using that by (rule distinct_map_filter)
    then have "distinct (map j_id (sort_key k (filter (due now) (jobs d))))" for k :: "job_row \<Rightarrow> int"
      by (simp add: distinct_map distinct_sort)
    then show ?thesis by (simp add: due_page_def distinct_take flip: take_map)
  qed
qed (auto simp: due_page_def)

text \<open>
  C20. A pass of the retry poller without faults takes the hundred longest-due retries (all of them
  when there are no more): each becomes \<open>QUEUED\<close> with its retry time cleared and is appended to the
  queue of its priority as a message that decodes to its id and capabilities; every other job is
  left alone, and with at most a hundred due jobs none is due any more.
\<close>

theorem poll_complete:
  fixes now :: int
  assumes inv: "db_inv (wdb w)" and C: "redis_ok C"
    and caps: "\<And>j. j \<in> set (jobs (wdb w)) \<Longrightarrow> caps_ok (retry_message (to_DueRetry j))"
    and room: "\<And>p. length (queued C (wrd w) p) + 100 \<le> 100000"
  defines "page \<equiv> due_page now (wdb w)"
  shows "\<exists>w'. poll C (calm now) (\<lambda>_. calm now) w = w' \<and>
           jobs (wdb w') = sql_update (\<lambda>j. j \<in> set page)
             (\<lambda>j. j\<lparr>j_status := QUEUED, j_retry_at := None\<rparr>) (jobs (wdb w)) \<and>
           workers (wdb w') = workers (wdb w) \<and>
           (\<forall>j\<in>set page. brief (retry_message (to_DueRetry j)) \<in> set (queued C (wrd w') (j_priority j))) \<and>
           (length (filter (due now) (jobs (wdb w))) \<le> 100 \<longrightarrow> (\<forall>j\<in>set (jobs (wdb w')). \<not> due now j))"
proof -
  let ?xs = "map to_DueRetry page"
  let ?w' = "poll_loop C (\<lambda>_. calm now) ?xs w"
  note page = due_page_props [where now = now and d = "wdb w", folded page_def]
  have poll: "poll C (calm now) (\<lambda>_. calm now) w = ?w'"
    by (simp add: poll_def ListDueRetries_def clamp_limit_def calm_def page_def due_page_def)
  have id: "du_ID (to_DueRetry j) = j_id j" "du_Priority (to_DueRetry j) = j_priority j" for j
    by (simp_all add: to_DueRetry_def)
  have "distinct (map du_ID ?xs)" using page(2) [OF db_invD(3) [OF inv]] by (simp add: comp_def id)
  moreover have "retrying (jobs (wdb w)) x \<and> caps_ok (retry_message x)" if "x \<in> set ?xs" for x
    using that page(1) caps by (auto simp: retrying_def due_def)
  moreover have "length (queued C (wrd w) p) + length ?xs \<le> 100000" for p
    using room [of p] by (simp add: page_def due_page_def)
  ultimately have eff: "jobs (wdb ?w') = sql_update (\<lambda>j. j_id j \<in> j_id ` set page)
        (\<lambda>j. j\<lparr>j_status := QUEUED, j_retry_at := None\<rparr>) (jobs (wdb w))"
      "workers (wdb ?w') = workers (wdb w)"
      "\<forall>j\<in>set page. brief (retry_message (to_DueRetry j)) \<in> set (queued C (wrd ?w') (j_priority j))"
    using poll_loop_effect [OF inv C, of ?xs now] by (auto simp: Let_def id image_image)
  have mem: "j_id j \<in> j_id ` set page \<longleftrightarrow> j \<in> set page" if "j \<in> set (jobs (wdb w))" for j
    using distinct_key_eq [OF db_invD(3) [OF inv] that] page(1) by blast
  have jobs: "jobs (wdb ?w') = sql_update (\<lambda>j. j \<in> set page)
        (\<lambda>j. j\<lparr>j_status := QUEUED, j_retry_at := None\<rparr>) (jobs (wdb w))"
    unfolding eff(1) sql_update_def by (rule map_cong [OF refl]) (simp add: mem)
  have "\<not> due now j" if "length (filter (due now) (jobs (wdb w))) \<le> 100" "j \<in> set (jobs (wdb ?w'))" for j
  proof -
    have q: "\<not> due now (i\<lparr>j_status := QUEUED, j_retry_at := None\<rparr>)" for i by (simp add: due_def)
    from that(2) obtain i where "i \<in> set (jobs (wdb w))"
      and j: "j = (if i \<in> set page then i\<lparr>j_status := QUEUED, j_retry_at := None\<rparr> else i)"
      unfolding jobs in_sql_update by blast
    with page(3) that(1) q show ?thesis by (cases "i \<in> set page") auto
  qed
  with jobs eff(2,3) show ?thesis unfolding poll by blast
qed

definition ex_retrying :: job_row where
  "ex_retrying = ex_job\<lparr>j_status := RETRYING, j_retries := 1, j_retry_at := Some 5\<rparr>"

theorem poll_complete_witness:
  "brief (retry_message (to_DueRetry ex_retrying))
     \<in> set (queued mem_redis (wrd (poll mem_redis (calm 9) (\<lambda>_. calm 9)
              (ex_world\<lparr>wdb := ex_db\<lparr>jobs := [ex_retrying]\<rparr>\<rparr>))) 5)"
proof -
  let ?w = "ex_world\<lparr>wdb := ex_db\<lparr>jobs := [ex_retrying]\<rparr>\<rparr>"
  have inv: "db_inv (wdb ?w)"
    by (rule db_invI)
       (auto simp: ex_retrying_def ex_defs worker_ok_def job_ok_def owner_ok_def active_def terminal_def
         max_int32_def max_int64_def history_ok_def attempts_def)
  have caps: "caps_ok (retry_message (to_DueRetry j))" if "j \<in> set (jobs (wdb ?w))" for j
    using that by (simp add: caps_ok_def retry_message_def to_DueRetry_def ex_retrying_def ex_job_def)
  have room: "length (queued mem_redis (wrd ?w) p) + 100 \<le> 100000" for p
    by (simp add: queued_def mem_redis_def ex_world_def mem_empty_def)
  have "due_page 9 (wdb ?w) = [ex_retrying]" "j_priority ex_retrying = 5"
    by (simp_all add: due_page_def due_def ex_retrying_def ex_job_def)
  with poll_complete [OF inv mem_redis_ok caps room, of 9] show ?thesis by auto
qed

section \<open>A requeued job has no message\<close>

text \<open>
  The message of a job is acknowledged when the job is assigned, and the sweep writes no new one. So a job that the reaper
  puts back is \<open>QUEUED\<close> in the database, but the scheduling loop, which only sees the messages of the streams, never looks at it
  again: below, a free worker with the required capability is there, and no number of iterations changes anything.
\<close>

lemma mem_read_idle:
  assumes "\<And>k. ms_streams r k = []" "\<And>k. ms_pending r k = []"
  shows "mem_read ks n r = ([], r)"
proof (induction ks)
  case (Cons k ks)
  have "(ms_streams r)(fst k := []) = ms_streams r" "(ms_pending r)(fst k := []) = ms_pending r"
    using assms by (simp_all add: fun_eq_iff)
  then have "mem_read_one (fst k) (snd k) n r = ([], r)" using assms by (simp add: mem_read_one_def)
  with Cons show ?case by (cases k) simp
qed simp

lemma loop_idle:
  assumes "\<And>k. ms_streams (wrd w) k = []" "\<And>k. ms_pending (wrd w) k = []"
  shows "loop_iteration mem_redis consumer f Em leader w = w"
proof -
  have "XReadGroup mem_redis g c ks n (wrd w) = ([], wrd w)" for g c ks n
    using mem_read_idle [of "wrd w" ks n] assms by (simp add: mem_redis_def)
  then show ?thesis by (simp add: loop_iteration_def tick_def readAndProcess_def split: fault.splits)
qed

lemma sweep_loop_streams:
  "ms_streams (wrd (sweep_loop mem_redis Ew ss w)) = ms_streams (wrd w) \<and>
   ms_pending (wrd (sweep_loop mem_redis Ew ss w)) = ms_pending (wrd w)"
  by (induction ss arbitrary: w) (auto simp: Let_def Delete_def rexec_def mem_redis_def split: prod.splits sum.splits)

definition stranded_world :: "mem_server world" where
  "stranded_world =
     \<lparr>wdb = ex_db\<lparr>workers := [ex_worker\<lparr>w_status := BUSY, w_current_job_id := Some ''j1'', w_available_capacity := 1\<rparr>,
                            ex_worker\<lparr>w_id := ''w2'', w_instance_id := ''i2'', w_last_heartbeat := Some (29 * second)\<rparr>],
                 jobs := [ex_job\<lparr>j_status := ASSIGNED, j_worker_id := Some ''w1'', j_assignment_epoch := Some 3\<rparr>]\<rparr>,
      wrd = mem_empty\<rparr>"



end
