(* ===== verification/Auth.thy ===== *)
theory Auth
  imports GoLib
begin

text \<open>
  \<open>internal/auth/jwt.go\<close>: the bearer tokens of the REST interface. The compact form of a token,
  unpadded URL-safe base64 included, is modelled down to the characters; HMAC-SHA256 and the JSON
  form of the claims are parameters, with the round trip of the JSON form as the one thing
  assumed of them. The theorems: a minted token verifies to its claims until it expires, and a token
  is accepted only with the signature of exactly its own content.
\<close>

section \<open>base64.RawURLEncoding\<close>

definition b64_alphabet :: string where
  "b64_alphabet = ''ABCDEFGHIJKLMNOPQRSTUVWXYZabcdefghijklmnopqrstuvwxyz0123456789-_''"

definition b64_char :: "nat \<Rightarrow> char" where
  "b64_char n = b64_alphabet ! n"

definition b64_val :: "char \<Rightarrow> nat option" where
  "b64_val c = find (\<lambda>n. b64_alphabet ! n = c) [0..<64]"

fun b64_sextets :: "nat list \<Rightarrow> nat list" where
  "b64_sextets [] = []"
| "b64_sextets [a] = [a div 4, (a mod 4) * 16]"
| "b64_sextets [a, b] = [a div 4, (a mod 4) * 16 + b div 16, (b mod 16) * 4]"
| "b64_sextets (a # b # c # bs) =
     a div 4 # ((a mod 4) * 16 + b div 16) # ((b mod 16) * 4 + c div 64) # (c mod 64) # b64_sextets bs"

fun b64_bytes :: "nat list \<Rightarrow> nat list option" where
  "b64_bytes [] = Some []"
| "b64_bytes [x] = None"
| "b64_bytes [x, y] = Some [x * 4 + y div 16]"
| "b64_bytes [x, y, z] = Some [x * 4 + y div 16, (y mod 16) * 16 + z div 4]"
| "b64_bytes (x # y # z # u # xs) =
     map_option (\<lambda>bs. (x * 4 + y div 16) # ((y mod 16) * 16 + z div 4) # ((z mod 4) * 64 + u) # bs) (b64_bytes xs)"

definition b64 :: "string \<Rightarrow> string" where
  "b64 s = map b64_char (b64_sextets (map of_char s))"

text \<open>The decoder skips line breaks and does not look at the unused bits of the last character.\<close>

definition DecodeString :: "string \<Rightarrow> string option" where
  "DecodeString s =
     (case those (map b64_val (filter (\<lambda>c. c \<noteq> CHR 0x0A \<and> c \<noteq> CHR 0x0D) s)) of
        None \<Rightarrow> None
      | Some xs \<Rightarrow> map_option (map char_of) (b64_bytes xs))"

lemma glue: "k < w \<Longrightarrow> (m * w + k) div w = m" "k < w \<Longrightarrow> (m * w + k) mod w = k" for k w m :: nat
  by simp_all

lemma byte_parts:
  assumes "(a :: nat) < 256"
  shows "a div 4 < 64" "a div 16 < 16" "a div 64 < 4" "(a mod 4) * 16 < 64" "(a mod 16) * 4 < 64" "a mod 64 < 64"
    "a div 4 * 4 + a mod 4 = a" "a div 16 * 16 + a mod 16 = a" "a div 64 * 64 + a mod 64 = a"
  using assms by auto

lemma mid_parts:
  assumes "(b :: nat) < 256"
  shows "((a mod 4) * 16 + b div 16) div 16 = a mod 4" "((a mod 4) * 16 + b div 16) mod 16 = b div 16"
    "(a mod 4) * 16 + b div 16 < 64"
    "((a mod 16) * 4 + b div 64) div 4 = a mod 16" "((a mod 16) * 4 + b div 64) mod 4 = b div 64"
    "(a mod 16) * 4 + b div 64 < 64"
proof -
  have b: "b div 16 < 16" "b div 64 < 4" by (rule byte_parts [OF assms])+
  then show "((a mod 4) * 16 + b div 16) div 16 = a mod 4" "((a mod 4) * 16 + b div 16) mod 16 = b div 16"
    "((a mod 16) * 4 + b div 64) div 4 = a mod 16" "((a mod 16) * 4 + b div 64) mod 4 = b div 64"
    by (simp_all only: glue)
  have "a mod 4 < 4" "a mod 16 < 16" by simp_all
  with b show "(a mod 4) * 16 + b div 16 < 64" "(a mod 16) * 4 + b div 64 < 64" by linarith+
qed

lemma b64_bytes_sextets: "\<forall>b\<in>set bs. b < 256 \<Longrightarrow> b64_bytes (b64_sextets bs) = Some bs"
  by (induction bs rule: b64_sextets.induct) (simp_all add: mid_parts byte_parts)

lemma b64_sextets_bound: "\<forall>b\<in>set bs. b < 256 \<Longrightarrow> \<forall>x\<in>set (b64_sextets bs). x < 64"
  by (induction bs rule: b64_sextets.induct) (simp_all add: mid_parts byte_parts)

lemma b64_char_table:
  "list_all (\<lambda>n. b64_val (b64_char n) = Some n \<and> b64_char n \<noteq> CHR ''.'' \<and>
               b64_char n \<noteq> CHR 0x0A \<and> b64_char n \<noteq> CHR 0x0D) [0..<64]"
  by code_simp

lemma b64_charD:
  assumes "n < 64"
  shows "b64_val (b64_char n) = Some n" "b64_char n \<noteq> CHR ''.''" "b64_char n \<noteq> CHR 0x0A" "b64_char n \<noteq> CHR 0x0D"
  using b64_char_table assms by (auto simp: list_all_iff)

lemma those_map_b64: "\<forall>x\<in>set xs. x < 64 \<Longrightarrow> those (map b64_val (map b64_char xs)) = Some xs"
  by (induction xs) (simp_all add: b64_charD)

lemma DecodeString_b64 [simp]: "DecodeString (b64 s) = Some s"
proof -
  let ?bs = "map of_char s :: nat list"
  have bytes: "\<forall>b\<in>set ?bs. b < 256" by auto
  note bound = b64_sextets_bound [OF bytes]
  have "filter (\<lambda>c. c \<noteq> CHR 0x0A \<and> c \<noteq> CHR 0x0D) (b64 s) = b64 s"
    using bound b64_charD(3,4) by (auto simp: b64_def filter_id_conv)
  then show ?thesis
    using those_map_b64 [OF bound] b64_bytes_sextets [OF bytes] by (simp add: DecodeString_def b64_def map_idI)
qed

lemma b64_no_dot [simp]: "CHR ''.'' \<notin> set (b64 s)"
proof -
  have "\<forall>x\<in>set (b64_sextets (map of_char s)). x < 64" by (rule b64_sextets_bound) auto
  then show ?thesis using b64_charD(2) by (force simp: b64_def)
qed

section \<open>Tokens\<close>

record Claims =
  cl_Subject :: string
  cl_Scopes :: "string list option"
  cl_IssuedAt :: int
  cl_ExpiresAt :: int

datatype token_error = ErrEmptySecret | ErrInvalidToken | ErrExpiredToken

definition ScopeJobsSubmit :: string where
  "ScopeJobsSubmit = ''jobs:submit''"

definition ScopeWorkersDrain :: string where
  "ScopeWorkersDrain = ''workers:drain''"

definition HasScope :: "Claims \<Rightarrow> string \<Rightarrow> bool" where
  "HasScope c scope \<longleftrightarrow> (case cl_Scopes c of None \<Rightarrow> False | Some ss \<Rightarrow> list_ex (\<lambda>s. s = scope) ss)"

text \<open>HMAC-SHA256 under a secret, and \<open>json.Marshal\<close> and \<open>json.Unmarshal\<close> on the claims.\<close>

record jwt_lib =
  jl_hmac :: "string \<Rightarrow> string \<Rightarrow> string"
  jl_Marshal :: "Claims \<Rightarrow> string"
  jl_Unmarshal :: "string \<Rightarrow> Claims option"

definition claims_ok :: "Claims \<Rightarrow> bool" where
  "claims_ok c \<longleftrightarrow> - max_int64 \<le> cl_IssuedAt c \<and> cl_IssuedAt c \<le> max_int64 \<and>
                   - max_int64 \<le> cl_ExpiresAt c \<and> cl_ExpiresAt c \<le> max_int64"

definition jwt_lib_ok :: "jwt_lib \<Rightarrow> bool" where
  "jwt_lib_ok L \<longleftrightarrow> (\<forall>c. claims_ok c \<longrightarrow> jl_Unmarshal L (jl_Marshal L c) = Some c)"

definition headerJSON :: string where
  "headerJSON = ''{\"alg\":\"HS256\",\"typ\":\"JWT\"}''"

definition sign :: "jwt_lib \<Rightarrow> string \<Rightarrow> string \<Rightarrow> string" where
  "sign L secret signingInput = jl_hmac L secret signingInput"

definition signToken :: "jwt_lib \<Rightarrow> string \<Rightarrow> Claims \<Rightarrow> string" where
  "signToken L secret claims =
     (let signingInput = b64 headerJSON @ ''.'' @ b64 (jl_Marshal L claims)
      in signingInput @ ''.'' @ b64 (sign L secret signingInput))"

definition IssueToken ::
    "jwt_lib \<Rightarrow> int \<Rightarrow> string \<Rightarrow> string \<Rightarrow> string list option \<Rightarrow> int \<Rightarrow> token_error + string" where
  "IssueToken L now secret subject scopes ttl =
     (if secret = '''' then Inl ErrEmptySecret
      else Inr (signToken L secret
             \<lparr>cl_Subject = subject, cl_Scopes = scopes, cl_IssuedAt = unix now, cl_ExpiresAt = unix (now + ttl)\<rparr>))"

definition VerifyToken :: "jwt_lib \<Rightarrow> int \<Rightarrow> string \<Rightarrow> string \<Rightarrow> token_error + Claims" where
  "VerifyToken L now secret token =
     (case Split token CHR ''.'' of
        [p0, p1, p2] \<Rightarrow>
          (case DecodeString p2 of
             None \<Rightarrow> Inl ErrInvalidToken
           | Some gotSig \<Rightarrow>
               if sign L secret (p0 @ ''.'' @ p1) \<noteq> gotSig then Inl ErrInvalidToken
               else case DecodeString p1 of
                 None \<Rightarrow> Inl ErrInvalidToken
               | Some payload \<Rightarrow>
                   (case jl_Unmarshal L payload of
                      None \<Rightarrow> Inl ErrInvalidToken
                    | Some claims \<Rightarrow>
                        if cl_ExpiresAt claims < unix now then Inl ErrExpiredToken else Inr claims))
      | _ \<Rightarrow> Inl ErrInvalidToken)"

section \<open>Properties\<close>

lemma VerifyToken_signed:
  assumes "jwt_lib_ok L" and "claims_ok c"
  shows "VerifyToken L now secret (signToken L secret c)
           = (if cl_ExpiresAt c < unix now then Inl ErrExpiredToken else Inr c)"
  using assms by (simp add: VerifyToken_def signToken_def Let_def Split_append Split_no_sep jwt_lib_ok_def)

lemma VerifyToken_accepts:
  assumes "VerifyToken L now secret token = Inr c"
  shows "\<exists>p0 p1 p2. token = p0 @ ''.'' @ p1 @ ''.'' @ p2 \<and> unix now \<le> cl_ExpiresAt c \<and>
           DecodeString p2 = Some (sign L secret (p0 @ ''.'' @ p1)) \<and>
           map_option (jl_Unmarshal L) (DecodeString p1) = Some (Some c)"
proof -
  obtain p0 p1 p2 where parts: "Split token CHR ''.'' = [p0, p1, p2]"
    using assms by (auto simp: VerifyToken_def split: list.splits)
  moreover have "token = p0 @ ''.'' @ p1 @ ''.'' @ p2"
    using Join_Split [of token "CHR ''.''"] by (simp add: parts)
  ultimately show ?thesis
    using assms by (auto simp: VerifyToken_def split: option.splits if_splits)
qed


text \<open>A simple text form of the claims, and a checksum in the place of the HMAC.\<close>

definition ex_lib :: jwt_lib where
  "ex_lib =
     \<lparr>jl_hmac = (\<lambda>secret msg. [char_of (sum_list (map of_char (secret @ msg)) :: nat)]),
      jl_Marshal = (\<lambda>c. Join ([b64 (cl_Subject c), Itoa (cl_IssuedAt c), Itoa (cl_ExpiresAt c)] @
                             (case cl_Scopes c of None \<Rightarrow> [] | Some ss \<Rightarrow> ''+'' # map b64 ss)) CHR ''.''),
      jl_Unmarshal = (\<lambda>s. case Split s CHR ''.'' of
          sub # iat # exp # rest \<Rightarrow>
            Some \<lparr>cl_Subject = the (DecodeString sub),
                  cl_Scopes = (if rest = [] then None else Some (map (the \<circ> DecodeString) (tl rest))),
                  cl_IssuedAt = ParseInt iat 64, cl_ExpiresAt = ParseInt exp 64\<rparr>
        | _ \<Rightarrow> None)\<rparr>"

lemma ex_lib_ok: "jwt_lib_ok ex_lib"
  unfolding jwt_lib_ok_def
proof (intro allI impI)
  fix c
  assume c: "claims_ok c"
  let ?fs = "[b64 (cl_Subject c), Itoa (cl_IssuedAt c), Itoa (cl_ExpiresAt c)] @
             (case cl_Scopes c of None \<Rightarrow> [] | Some ss \<Rightarrow> ''+'' # map b64 ss)"
  have "Split (Join ?fs CHR ''.'') CHR ''.'' = ?fs"
    by (rule Split_Join) (auto simp: Itoa_no_sep split: option.splits)
  moreover have "ParseInt (Itoa (cl_IssuedAt c)) 64 = cl_IssuedAt c" "ParseInt (Itoa (cl_ExpiresAt c)) 64 = cl_ExpiresAt c"
    using c by (simp_all add: ParseInt_Itoa_64 claims_ok_def max_int64_def)
  ultimately show "jl_Unmarshal ex_lib (jl_Marshal ex_lib c) = Some c"
    by (cases c) (auto simp: ex_lib_def comp_def map_idI split: option.splits)
qed


end
