(* ===== verification/RestApi.thy ===== *)
theory RestApi
  imports Scheduling StoreProperties Auth
begin

text \<open>
  \<open>internal/api\<close>: the REST handlers, the scope check in front of the writing ones, and the routes. A
  handler is a function of its environment, its request and the world to a response and the world
  after it. A request comes with its body decoded (\<open>None\<close> for a body that is not JSON of the right
  shape) and its path matched to a route, the work of \<open>encoding/json\<close> and of chi; \<open>fmt\<close> is the RFC 3339
  form of an instant in the server's time zone.
\<close>

section \<open>Requests and responses\<close>

record submitJobRequest =
  sj_Priority :: "int option"
  sj_Repository :: string
  sj_Branch :: string
  sj_CommitSHA :: string
  sj_Labels :: "labels option"
  sj_RequiredCapabilities :: "string list option"
  sj_MaxRetries :: int
  sj_IdempotencyKey :: string

record jobResponse =
  jr_ID :: string
  jr_Priority :: int
  jr_Repository :: string
  jr_Branch :: string
  jr_CommitSHA :: string
  jr_Labels :: labels
  jr_RequiredCapabilities :: "string list"
  jr_Retries :: int
  jr_MaxRetries :: int
  jr_Status :: string
  jr_WorkerID :: "string option"
  jr_LogRef :: "string option"
  jr_CreatedAt :: string
  jr_StartedAt :: "string option"
  jr_FinishedAt :: "string option"

record workerResponse =
  wp_ID :: string
  wp_Hostname :: string
  wp_OS :: string
  wp_CPUCores :: int
  wp_MemoryMB :: int
  wp_Labels :: labels
  wp_Capabilities :: "string list"
  wp_Status :: string
  wp_CurrentJobID :: "string option"
  wp_LastHeartbeat :: "string option"
  wp_Version :: string
  wp_AvailableCapacity :: int
  wp_Epoch :: int
  wp_RegisteredAt :: string
  wp_DrainRequested :: bool

datatype body =
    ErrorBody string string
  | JobBody jobResponse
  | JobsBody "jobResponse list" nat
  | WorkersBody "workerResponse list" nat
  | DrainBody string string
  | ReadyBody bool bool bool
  | NoBody

type_synonym http_response = "nat \<times> body"

definition StatusOK :: nat where "StatusOK = 200"
definition StatusAccepted :: nat where "StatusAccepted = 202"
definition StatusBadRequest :: nat where "StatusBadRequest = 400"
definition StatusUnauthorized :: nat where "StatusUnauthorized = 401"
definition StatusForbidden :: nat where "StatusForbidden = 403"
definition StatusNotFound :: nat where "StatusNotFound = 404"
definition StatusConflict :: nat where "StatusConflict = 409"
definition StatusInternalServerError :: nat where "StatusInternalServerError = 500"
definition StatusServiceUnavailable :: nat where "StatusServiceUnavailable = 503"

lemmas status_defs = StatusOK_def StatusAccepted_def StatusBadRequest_def StatusUnauthorized_def
  StatusForbidden_def StatusNotFound_def StatusConflict_def StatusInternalServerError_def
  StatusServiceUnavailable_def

definition writeError :: "nat \<Rightarrow> string \<Rightarrow> string \<Rightarrow> http_response" where
  "writeError status code message = (status, ErrorBody code message)"

section \<open>handlers_jobs.go\<close>

definition toJobResponse :: "(int \<Rightarrow> string) \<Rightarrow> Job \<Rightarrow> jobResponse" where
  "toJobResponse fmt j =
     \<lparr>jr_ID = jb_ID j, jr_Priority = jb_Priority j, jr_Repository = jb_Repository j,
      jr_Branch = jb_Branch j, jr_CommitSHA = jb_CommitSHA j, jr_Labels = jb_Labels j,
      jr_RequiredCapabilities = jb_RequiredCapabilities j, jr_Retries = jb_Retries j,
      jr_MaxRetries = jb_MaxRetries j, jr_Status = jb_Status j, jr_WorkerID = jb_WorkerID j,
      jr_LogRef = jb_LogRef j, jr_CreatedAt = fmt (jb_CreatedAt j),
      jr_StartedAt = map_option fmt (jb_StartedAt j), jr_FinishedAt = map_option fmt (jb_FinishedAt j)\<rparr>"

definition submit_params :: "int \<Rightarrow> submitJobRequest \<Rightarrow> CreateJobParams" where
  "submit_params priority req =
     \<lparr>cj_Priority = priority, cj_Repository = sj_Repository req, cj_Branch = sj_Branch req,
      cj_CommitSHA = sj_CommitSHA req, cj_Labels = sj_Labels req,
      cj_RequiredCapabilities = sj_RequiredCapabilities req, cj_MaxRetries = sj_MaxRetries req,
      cj_IdempotencyKey = sj_IdempotencyKey req\<rparr>"

definition job_message :: "Job \<Rightarrow> JobMessage" where
  "job_message job =
     \<lparr>jm_JobID = jb_ID job, jm_Priority = jb_Priority job, jm_Repository = jb_Repository job,
      jm_Branch = jb_Branch job, jm_CommitSHA = jb_CommitSHA job,
      jm_RequiredCapabilities = jb_RequiredCapabilities job\<rparr>"

definition SubmitJob ::
    "'r redis_client \<Rightarrow> (int \<Rightarrow> string) \<Rightarrow> call_env \<Rightarrow> string \<Rightarrow> submitJobRequest option \<Rightarrow> 'r world
       \<Rightarrow> http_response \<times> 'r world" where
  "SubmitJob C fmt E uuid body w =
     (case body of
        None \<Rightarrow> (writeError StatusBadRequest ''invalid_request'' ''malformed JSON body'', w)
      | Some req \<Rightarrow>
          if sj_Repository req = '''' \<or> sj_Branch req = '''' \<or> sj_CommitSHA req = '''' then
            (writeError StatusBadRequest ''invalid_request'' ''repository, branch, and commit_sha are required'', w)
          else
            let priority = (case sj_Priority req of None \<Rightarrow> 5 | Some p \<Rightarrow> p) in
            if priority < 0 \<or> 9 < priority then
              (writeError StatusBadRequest ''invalid_request'' ''priority must be between 0 and 9'', w)
            else case JobStore_Create (ce_pg E) (ce_now E S_create_insert) uuid (submit_params priority req) (wdb w) of
              (Inl _, d) \<Rightarrow>
                (writeError StatusInternalServerError ''internal_error'' ''failed to create job'', w\<lparr>wdb := d\<rparr>)
            | (Inr (job, True), d) \<Rightarrow> ((StatusConflict, JobBody (toJobResponse fmt job)), w\<lparr>wdb := d\<rparr>)
            | (Inr (job, False), d) \<Rightarrow>
                ((StatusAccepted, JobBody (toJobResponse fmt job)),
                 w\<lparr>wdb := d, wrd := snd (Enqueue C (ce_redis E R_xadd) (job_message job) (wrd w))\<rparr>))"

definition GetJob ::
    "(int \<Rightarrow> string) \<Rightarrow> call_env \<Rightarrow> string \<Rightarrow> 'r world \<Rightarrow> http_response \<times> 'r world" where
  "GetJob fmt E jobID w =
     ((case JobStore_Get (ce_pg E) jobID (wdb w) of
         Inl _ \<Rightarrow> writeError StatusNotFound ''not_found'' ''job not found''
       | Inr job \<Rightarrow> (StatusOK, JobBody (toJobResponse fmt job))), w)"

definition ListJobs ::
    "(int \<Rightarrow> string) \<Rightarrow> call_env \<Rightarrow> string \<Rightarrow> string \<Rightarrow> string \<Rightarrow> 'r world \<Rightarrow> http_response \<times> 'r world" where
  "ListJobs fmt E status repository worker_id w =
     ((case JobStore_List (ce_pg E) \<lparr>lf_Status = status, lf_Repository = repository,
                                      lf_WorkerID = worker_id, lf_Limit = 100\<rparr> (wdb w) of
         Inl _ \<Rightarrow> writeError StatusInternalServerError ''internal_error'' ''failed to list jobs''
       | Inr js \<Rightarrow> let items = map (toJobResponse fmt) js in (StatusOK, JobsBody items (length items))), w)"

section \<open>handlers_workers.go\<close>

definition toWorkerResponse :: "(int \<Rightarrow> string) \<Rightarrow> WorkerRow \<Rightarrow> workerResponse" where
  "toWorkerResponse fmt row =
     \<lparr>wp_ID = wr_ID row, wp_Hostname = wr_Hostname row, wp_OS = wr_OS row, wp_CPUCores = wr_CPUCores row,
      wp_MemoryMB = wr_MemoryMB row, wp_Labels = wr_Labels row, wp_Capabilities = wr_Capabilities row,
      wp_Status = wr_Status row, wp_CurrentJobID = wr_CurrentJobID row,
      wp_LastHeartbeat = map_option fmt (wr_LastHeartbeat row), wp_Version = wr_Version row,
      wp_AvailableCapacity = wr_AvailableCapacity row, wp_Epoch = wr_Epoch row,
      wp_RegisteredAt = fmt (wr_RegisteredAt row), wp_DrainRequested = wr_DrainRequested row\<rparr>"

definition ListWorkers ::
    "(int \<Rightarrow> string) \<Rightarrow> call_env \<Rightarrow> string \<Rightarrow> 'r world \<Rightarrow> http_response \<times> 'r world" where
  "ListWorkers fmt E statusFilter w =
     ((case WorkerStore_List (ce_pg E) statusFilter 100 (wdb w) of
         Inl _ \<Rightarrow> writeError StatusInternalServerError ''internal_error'' ''failed to list workers''
       | Inr rows \<Rightarrow> let items = map (toWorkerResponse fmt) rows in (StatusOK, WorkersBody items (length items))), w)"

definition drained_state :: "DrainResult \<Rightarrow> WorkerState" where
  "drained_state result =
     \<lparr>ws_Epoch = dr_Epoch result, ws_Status = dr_Status result,
      ws_CurrentJobID = (case dr_CurrentJobID result of None \<Rightarrow> '''' | Some j \<Rightarrow> j),
      ws_AvailableCapacity = dr_AvailableCapacity result, ws_LastPGFlushUnix = 0, ws_DrainRequested = False\<rparr>"

definition syncDrainToCache ::
    "'r redis_client \<Rightarrow> call_env \<Rightarrow> string \<Rightarrow> DrainResult \<Rightarrow> bool \<Rightarrow> 'r \<Rightarrow> 'r" where
  "syncDrainToCache C E workerID result drainRequested r =
     snd (SetDrainRequested C (ce_redis E R_drain) workerID drainRequested
       (snd (SetState C (ce_redis E R_set) workerID (drained_state result) r)))"

definition DrainWorker ::
    "'r redis_client \<Rightarrow> call_env \<Rightarrow> string \<Rightarrow> 'r world \<Rightarrow> http_response \<times> 'r world" where
  "DrainWorker C E workerID w =
     (case RequestDrain (ce_pg E) (ce_now E S_drain) workerID (wdb w) of
        (Inl _, d) \<Rightarrow>
          (writeError StatusInternalServerError ''internal_error'' ''failed to request drain'', w\<lparr>wdb := d\<rparr>)
      | (Inr None, d) \<Rightarrow>
          (writeError StatusNotFound ''not_found'' ''worker not found, or already OFFLINE/DEAD'', w\<lparr>wdb := d\<rparr>)
      | (Inr (Some result), d) \<Rightarrow>
          ((StatusOK, DrainBody workerID (dr_Status result)),
           w\<lparr>wdb := d, wrd := syncDrainToCache C E workerID result True (wrd w)\<rparr>))"

definition ResumeWorker ::
    "'r redis_client \<Rightarrow> call_env \<Rightarrow> string \<Rightarrow> 'r world \<Rightarrow> http_response \<times> 'r world" where
  "ResumeWorker C E workerID w =
     (case ResumeDrain (ce_pg E) (ce_now E S_resume) workerID (wdb w) of
        (Inl _, d) \<Rightarrow>
          (writeError StatusInternalServerError ''internal_error'' ''failed to resume from drain'', w\<lparr>wdb := d\<rparr>)
      | (Inr None, d) \<Rightarrow>
          (writeError StatusNotFound ''not_found'' ''worker not found, or already OFFLINE/DEAD'', w\<lparr>wdb := d\<rparr>)
      | (Inr (Some result), d) \<Rightarrow>
          ((StatusOK, DrainBody workerID (dr_Status result)),
           w\<lparr>wdb := d, wrd := syncDrainToCache C E workerID result False (wrd w)\<rparr>))"

section \<open>middleware_auth.go and router.go\<close>

definition CutPrefix :: "string \<Rightarrow> string \<Rightarrow> string option" where
  "CutPrefix s pre = (if take (length pre) s = pre then Some (drop (length pre) s) else None)"

definition RequireScope ::
    "jwt_lib \<Rightarrow> int \<Rightarrow> string \<Rightarrow> string \<Rightarrow> string
       \<Rightarrow> ('r world \<Rightarrow> http_response \<times> 'r world) \<Rightarrow> 'r world \<Rightarrow> http_response \<times> 'r world" where
  "RequireScope L now secret scope authorization next w =
     (case CutPrefix authorization ''Bearer '' of
        None \<Rightarrow> (writeError StatusUnauthorized ''unauthorized'' ''missing bearer token'', w)
      | Some token \<Rightarrow>
          if token = '''' then (writeError StatusUnauthorized ''unauthorized'' ''missing bearer token'', w)
          else case VerifyToken L now secret token of
            Inl _ \<Rightarrow> (writeError StatusUnauthorized ''unauthorized'' ''invalid or expired token'', w)
          | Inr claims \<Rightarrow>
              if \<not> HasScope claims scope then
                (writeError StatusForbidden ''forbidden'' (''token missing required scope: '' @ scope), w)
              else next w)"

datatype route =
    GetWorkers string
  | PostDrain string
  | PostResume string
  | PostJobs "submitJobRequest option"
  | GetJobs string string string
  | GetJobById string
  | GetHealthz
  | GetReadyz

record router =
  rt_lib :: jwt_lib
  rt_fmt :: "int \<Rightarrow> string"
  rt_jwtSecret :: string
  rt_isReady :: "bool \<times> bool \<times> bool"

definition requireScope ::
    "router \<Rightarrow> int \<Rightarrow> string \<Rightarrow> string
       \<Rightarrow> ('r world \<Rightarrow> http_response \<times> 'r world) \<Rightarrow> 'r world \<Rightarrow> http_response \<times> 'r world" where
  "requireScope R now scope authorization next =
     (if 0 < length (rt_jwtSecret R)
      then RequireScope (rt_lib R) now (rt_jwtSecret R) scope authorization next
      else next)"

fun NewRouter ::
    "router \<Rightarrow> 'r redis_client \<Rightarrow> call_env \<Rightarrow> string \<Rightarrow> string \<Rightarrow> route \<Rightarrow> 'r world
       \<Rightarrow> http_response \<times> 'r world" where
  "NewRouter R C E uuid authorization (GetWorkers st) = ListWorkers (rt_fmt R) E st"
| "NewRouter R C E uuid authorization (PostDrain wid) =
     requireScope R (ce_clock E 0) ScopeWorkersDrain authorization (DrainWorker C E wid)"
| "NewRouter R C E uuid authorization (PostResume wid) =
     requireScope R (ce_clock E 0) ScopeWorkersDrain authorization (ResumeWorker C E wid)"
| "NewRouter R C E uuid authorization (PostJobs req) =
     requireScope R (ce_clock E 0) ScopeJobsSubmit authorization (SubmitJob C (rt_fmt R) E uuid req)"
| "NewRouter R C E uuid authorization (GetJobs st repo wid) = ListJobs (rt_fmt R) E st repo wid"
| "NewRouter R C E uuid authorization (GetJobById jid) = GetJob (rt_fmt R) E jid"
| "NewRouter R C E uuid authorization GetHealthz = (\<lambda>w. ((StatusOK, NoBody), w))"
| "NewRouter R C E uuid authorization GetReadyz =
     (\<lambda>w. let (pgOK, redisOK, leader) = rt_isReady R
          in ((if \<not> pgOK then StatusServiceUnavailable else StatusOK, ReadyBody pgOK redisOK leader), w))"

section \<open>Writes need a token\<close>

lemma handlers_read_only:
  "snd (GetJob fmt E jid w) = w" "snd (ListJobs fmt E st repo wid w) = w" "snd (ListWorkers fmt E st w) = w"
  by (simp_all add: GetJob_def ListJobs_def ListWorkers_def)

lemma CutPrefix_Some: "CutPrefix s pre = Some t \<longleftrightarrow> s = pre @ t"
  by (auto simp: CutPrefix_def) (metis append_take_drop_id)

lemma RequireScope_cases:
  obtains (let_through) token claims where "authorization = ''Bearer '' @ token"
      "VerifyToken L now secret token = Inr claims" "HasScope claims scope"
      "RequireScope L now secret scope authorization nxt w = nxt w"
  | (refused) "snd (RequireScope L now secret scope authorization nxt w) = w"
      "fst (fst (RequireScope L now secret scope authorization nxt w)) \<in> {StatusUnauthorized, StatusForbidden}"
proof (cases "CutPrefix authorization ''Bearer ''")
  case None
  then show ?thesis by (intro refused) (simp_all add: RequireScope_def writeError_def)
next
  case (Some token)
  then have auth: "authorization = ''Bearer '' @ token" by (simp only: CutPrefix_Some)
  show ?thesis
  proof (cases "\<exists>claims. token \<noteq> '''' \<and> VerifyToken L now secret token = Inr claims \<and> HasScope claims scope")
    case True
    then obtain claims where "token \<noteq> ''''" "VerifyToken L now secret token = Inr claims" "HasScope claims scope"
      by blast
    with Some auth show ?thesis by (intro let_through [of token claims]) (simp_all add: RequireScope_def)
  next
    case False
    with Some show ?thesis
      by (intro refused) (auto simp: RequireScope_def writeError_def split: sum.splits)
  qed
qed

text \<open>The scope a route asks for.\<close>

fun needs :: "route \<Rightarrow> string option" where
  "needs (PostDrain _) = Some ScopeWorkersDrain"
| "needs (PostResume _) = Some ScopeWorkersDrain"
| "needs (PostJobs _) = Some ScopeJobsSubmit"
| "needs _ = None"

text \<open>
  C26. With a secret configured, nobody writes without a token: a route that needs no scope never
  changes anything, and one that does changes the database or Redis only for a request whose
  \<open>Authorization\<close> header is \<open>Bearer\<close> and a token that verifies under the secret, has not expired and
  carries the scope; every other request to it is answered 401 or 403 and leaves everything as it was.
\<close>

theorem writes_need_scope:
  assumes "rt_jwtSecret R \<noteq> ''''"
  shows "(case needs rte of
            None \<Rightarrow> snd (NewRouter R C E uuid authorization rte w) = w
          | Some scope \<Rightarrow>
              (\<exists>token claims. authorization = ''Bearer '' @ token \<and>
                 VerifyToken (rt_lib R) (ce_clock E 0) (rt_jwtSecret R) token = Inr claims \<and>
                 HasScope claims scope \<and> unix (ce_clock E 0) \<le> cl_ExpiresAt claims) \<or>
              (snd (NewRouter R C E uuid authorization rte w) = w \<and>
               fst (fst (NewRouter R C E uuid authorization rte w)) \<in> {StatusUnauthorized, StatusForbidden}))"
proof (cases "needs rte")
  case None
  then show ?thesis by (cases rte) (auto simp: handlers_read_only split: prod.splits)
next
  case (Some scope)
  then obtain h where "NewRouter R C E uuid authorization rte = requireScope R (ce_clock E 0) scope authorization h"
    by (cases rte) auto
  then have eq: "NewRouter R C E uuid authorization rte w
      = RequireScope (rt_lib R) (ce_clock E 0) (rt_jwtSecret R) scope authorization h w"
    using assms by (simp add: requireScope_def)
  show ?thesis
  proof (cases rule: RequireScope_cases [where authorization = authorization and L = "rt_lib R" and now = "ce_clock E 0"
         and secret = "rt_jwtSecret R" and scope = scope and nxt = h and w = w])
    case (let_through token claims)
    with Some VerifyToken_accepts [OF let_through(2)] show ?thesis by auto
  next
    case refused
    with Some show ?thesis by (simp add: eq)
  qed
qed

definition ex_router :: router where
  "ex_router = \<lparr>rt_lib = ex_lib, rt_fmt = Itoa, rt_jwtSecret = ''s'', rt_isReady = (True, True, True)\<rparr>"

theorem writes_need_scope_witness:
  "snd (NewRouter ex_router mem_redis (calm 9) ''j7'' '''' (PostDrain ''w1'') ex_world) = ex_world"
proof -
  have "rt_jwtSecret ex_router \<noteq> ''''" by (simp add: ex_router_def)
  from writes_need_scope [OF this, where rte = "PostDrain ''w1''" and C = mem_redis and E = "calm 9" and uuid = "''j7''"
      and authorization = "''''" and w = ex_world]
  show ?thesis by simp
qed

section \<open>Submission\<close>

lemma Create_new:
  assumes "JobStore_Create flt now uuid p d = (Inr (job, False), d')"
  defines "row \<equiv> Create_row now uuid (Create_defaults p)"
  shows "job = scanJob row" and "d' = d\<lparr>jobs := jobs d @ [row]\<rparr>"
proof -
  have "exec flt S_create_insert (Create_insert now uuid (Create_defaults p)) d = (Inr job, d')"
    using assms(1) by (auto simp: JobStore_Create_def Let_def split: if_splits sum.splits prod.splits pg_error.splits)
  then have "Create_insert now uuid (Create_defaults p) d = Inr (job, d')"
    by (auto simp: exec_def split: fault.splits sum.splits prod.splits)
  then show "job = scanJob row" and "d' = d\<lparr>jobs := jobs d @ [row]\<rparr>"
    by (auto simp: Create_insert_def Let_def row_def split: if_splits)
qed

lemma Create_existing:
  assumes "JobStore_Create flt now uuid p d = (Inr (job, True), d')"
  shows "d' = d" and "\<exists>j\<in>set (jobs d). j_idempotency_key j = Some (cj_IdempotencyKey p) \<and> job = scanJob j"
proof -
  have r: "d' = d \<and> getByIdempotencyKey flt (cj_IdempotencyKey p) d = Inr job"
    using assms by (auto simp: JobStore_Create_def Let_def Create_defaults_def split: if_splits sum.splits prod.splits pg_error.splits)
  then show "d' = d" ..
  obtain j js where "sort_key (\<lambda>j. - j_created_at j) (filter (\<lambda>j. j_idempotency_key j = Some (cj_IdempotencyKey p)) (jobs d)) = j # js"
    "job = scanJob j"
    using r by (auto simp: getByIdempotencyKey_def query_def split: list.splits if_splits)
  moreover from this have "j \<in> set (filter (\<lambda>j. j_idempotency_key j = Some (cj_IdempotencyKey p)) (jobs d))"
    by (metis list.set_intros(1) set_sort)
  ultimately show "\<exists>j\<in>set (jobs d). j_idempotency_key j = Some (cj_IdempotencyKey p) \<and> job = scanJob j" by auto
qed

text \<open>A request the handler accepts for submission.\<close>

definition submittable :: "submitJobRequest option \<Rightarrow> bool" where
  "submittable body \<longleftrightarrow> (case body of None \<Rightarrow> False | Some req \<Rightarrow>
     sj_Repository req \<noteq> '''' \<and> sj_Branch req \<noteq> '''' \<and> sj_CommitSHA req \<noteq> '''' \<and>
     (case sj_Priority req of None \<Rightarrow> True | Some p \<Rightarrow> 0 \<le> p \<and> p \<le> 9))"

lemma submittable_cases:
  assumes "submittable body"
  obtains req p where "body = Some req" "p = (case sj_Priority req of None \<Rightarrow> 5 | Some p \<Rightarrow> p)" "0 \<le> p" "p \<le> 9"
    and "SubmitJob C fmt E uuid body w =
       (case JobStore_Create (ce_pg E) (ce_now E S_create_insert) uuid (submit_params p req) (wdb w) of
          (Inl _, d) \<Rightarrow> (writeError StatusInternalServerError ''internal_error'' ''failed to create job'', w\<lparr>wdb := d\<rparr>)
        | (Inr (job, True), d) \<Rightarrow> ((StatusConflict, JobBody (toJobResponse fmt job)), w\<lparr>wdb := d\<rparr>)
        | (Inr (job, False), d) \<Rightarrow>
            ((StatusAccepted, JobBody (toJobResponse fmt job)),
             w\<lparr>wdb := d, wrd := snd (Enqueue C (ce_redis E R_xadd) (job_message job) (wrd w))\<rparr>))"
proof -
  from assms obtain req where req: "body = Some req" "sj_Repository req \<noteq> ''''" "sj_Branch req \<noteq> ''''"
    "sj_CommitSHA req \<noteq> ''''" "\<forall>p. sj_Priority req = Some p \<longrightarrow> 0 \<le> p \<and> p \<le> 9"
    by (auto simp: submittable_def split: option.splits)
  let ?p = "case sj_Priority req of None \<Rightarrow> 5 | Some p \<Rightarrow> p"
  have p: "0 \<le> ?p" "?p \<le> 9" using req(5) by (auto split: option.splits)
  show ?thesis
    by (rule that [OF req(1) refl p]) (use req(2-4) p in \<open>simp add: SubmitJob_def req(1) Let_def\<close>)
qed

lemma Create_total:
  assumes "uuid \<notin> j_id ` set (jobs d)" and "0 \<le> cj_Priority p" "cj_Priority p \<le> 9"
    and "\<forall>j\<in>set (jobs d). j_idempotency_key j \<noteq> Some (cj_IdempotencyKey p)"
  shows "\<exists>job d'. JobStore_Create no_faults now uuid p d = (Inr (job, False), d')"
proof -
  have "filter (\<lambda>j. j_idempotency_key j = Some (cj_IdempotencyKey p)) (jobs d) = []"
    using assms(4) by (simp add: filter_empty_conv)
  then have "getByIdempotencyKey no_faults (cj_IdempotencyKey p) d = Inl ErrJobNotFound"
    by (simp add: getByIdempotencyKey_def)
  moreover have "Create_insert now uuid (Create_defaults p) d
      = Inr (scanJob (Create_row now uuid (Create_defaults p)),
             d\<lparr>jobs := jobs d @ [Create_row now uuid (Create_defaults p)]\<rparr>)"
    using assms by (auto simp: Create_insert_def Let_def Create_defaults_def Create_row_def list_ex_iff)
  ultimately show ?thesis
    by (simp add: JobStore_Create_def Let_def Create_defaults_def)
qed

text \<open>A new job of the request, and that it is the last entry of its stream.\<close>

definition submitted :: "string \<Rightarrow> submitJobRequest \<Rightarrow> db \<Rightarrow> db \<Rightarrow> job_row \<Rightarrow> bool" where
  "submitted uuid req d d' j \<longleftrightarrow>
     jobs d' = jobs d @ [j] \<and> workers d' = workers d \<and>
     j_id j = uuid \<and> j_status j = QUEUED \<and> j_retries j = 0 \<and>
     j_priority j = (case sj_Priority req of None \<Rightarrow> 5 | Some p \<Rightarrow> p) \<and>
     j_repository j = sj_Repository req \<and> j_branch j = sj_Branch req \<and> j_commit_sha j = sj_CommitSHA req \<and>
     j_required_capabilities j = (case sj_RequiredCapabilities req of None \<Rightarrow> [] | Some cs \<Rightarrow> cs) \<and>
     j_max_retries j = (if sj_MaxRetries req \<le> 0 then 3 else sj_MaxRetries req)"

definition enqueued :: "'r redis_client \<Rightarrow> job_row \<Rightarrow> 'r \<Rightarrow> 'r \<Rightarrow> bool" where
  "enqueued C j r r' \<longleftrightarrow>
     (\<exists>n. queued C r' (j_priority j) = drop n (queued C r (j_priority j)) @ [brief (job_message (scanJob j))] \<and>
          (length (queued C r (j_priority j)) < 100000 \<longrightarrow> n = 0)) \<and>
     (\<forall>p. p \<noteq> j_priority j \<longrightarrow> queued C r' p = queued C r p)"

lemma enqueued_Enqueue:
  assumes "redis_ok C" and "caps_ok (job_message (scanJob j))"
  shows "enqueued C j r (snd (Enqueue C NoFault (job_message (scanJob j)) r))"
proof -
  have "jm_Priority (job_message (scanJob j)) = j_priority j" by (simp add: job_message_def scanJob_def)
  with queued_Enqueue [OF assms, where r = r] show ?thesis by (auto simp: enqueued_def)
qed

text \<open>The three ways a well-formed submission ends.\<close>

lemma SubmitJob_outcome:
  assumes ok: "submittable body" and sub: "SubmitJob C fmt E uuid body w = ((status, b), w')"
  obtains (failed) req where "body = Some req" "status = StatusInternalServerError"
      "\<not> (ce_pg E = no_faults \<and> uuid \<notin> j_id ` set (jobs (wdb w)) \<and>
          (\<forall>j\<in>set (jobs (wdb w)). j_idempotency_key j \<noteq> Some (sj_IdempotencyKey req)))"
  | (existing) req j where "body = Some req" "status = StatusConflict" "w' = w" "j \<in> set (jobs (wdb w))"
      "j_idempotency_key j = Some (sj_IdempotencyKey req)" "b = JobBody (toJobResponse fmt (scanJob j))"
  | (created) req j where "body = Some req" "status = StatusAccepted" "b = JobBody (toJobResponse fmt (scanJob j))"
      "submitted uuid req (wdb w) (wdb w') j"
      "wrd w' = snd (Enqueue C (ce_redis E R_xadd) (job_message (scanJob j)) (wrd w))"
proof -
  from ok obtain req p where req: "body = Some req" and p: "p = (case sj_Priority req of None \<Rightarrow> 5 | Some p \<Rightarrow> p)"
      "0 \<le> p" "p \<le> 9"
    and eq: "SubmitJob C fmt E uuid body w =
       (case JobStore_Create (ce_pg E) (ce_now E S_create_insert) uuid (submit_params p req) (wdb w) of
          (Inl _, d) \<Rightarrow> (writeError StatusInternalServerError ''internal_error'' ''failed to create job'', w\<lparr>wdb := d\<rparr>)
        | (Inr (job, True), d) \<Rightarrow> ((StatusConflict, JobBody (toJobResponse fmt job)), w\<lparr>wdb := d\<rparr>)
        | (Inr (job, False), d) \<Rightarrow>
            ((StatusAccepted, JobBody (toJobResponse fmt job)),
             w\<lparr>wdb := d, wrd := snd (Enqueue C (ce_redis E R_xadd) (job_message job) (wrd w))\<rparr>))"
    by (rule submittable_cases [where C = C and fmt = fmt and E = E and uuid = uuid and w = w])
  let ?create = "JobStore_Create (ce_pg E) (ce_now E S_create_insert) uuid (submit_params p req) (wdb w)"
  have key: "cj_IdempotencyKey (submit_params p req) = sj_IdempotencyKey req" by (simp add: submit_params_def)
  consider (err) e d where "?create = (Inl e, d)" | (old) job d where "?create = (Inr (job, True), d)"
    | (new) job d where "?create = (Inr (job, False), d)"
    by (cases ?create; cases "fst ?create") auto
  then show ?thesis
  proof cases
    case err
    have "status = StatusInternalServerError" using sub eq err by (simp add: writeError_def)
    moreover have "cj_Priority (submit_params p req) = p" by (simp add: submit_params_def)
    then have "\<exists>job d'. ?create = (Inr (job, False), d')"
      if "ce_pg E = no_faults" "uuid \<notin> j_id ` set (jobs (wdb w))"
        "\<forall>j\<in>set (jobs (wdb w)). j_idempotency_key j \<noteq> Some (sj_IdempotencyKey req)"
      using Create_total [of uuid "wdb w" "submit_params p req"] that p(2,3) by (simp add: key)
    ultimately show ?thesis using err by (intro failed [OF req]) force+
  next
    case old
    then obtain j where "j \<in> set (jobs (wdb w))" "j_idempotency_key j = Some (sj_IdempotencyKey req)" "job = scanJob j"
      using Create_existing(2) [OF old] key by auto
    with sub eq old Create_existing(1) [OF old] show ?thesis by (intro existing [OF req, of j]) auto
  next
    case new
    let ?j = "Create_row (ce_now E S_create_insert) uuid (Create_defaults (submit_params p req))"
    note row = Create_new [OF new]
    have ans: "status = StatusAccepted" "b = JobBody (toJobResponse fmt (scanJob ?j))"
      and w': "w' = w\<lparr>wdb := d, wrd := snd (Enqueue C (ce_redis E R_xadd) (job_message (scanJob ?j)) (wrd w))\<rparr>"
      using sub eq new row(1) by auto
    have "submitted uuid req (wdb w) (wdb w') ?j"
      using row(2) p(1) by (simp add: submitted_def w' Create_row_def Create_defaults_def submit_params_def split: option.splits)
    then show ?thesis by (rule created [OF req ans]) (simp add: w')
  qed
qed


definition ex_submit :: submitJobRequest where
  "ex_submit = \<lparr>sj_Priority = None, sj_Repository = ''r'', sj_Branch = ''main'', sj_CommitSHA = ''c0'', sj_Labels = None,
                sj_RequiredCapabilities = Some [''docker''], sj_MaxRetries = 0, sj_IdempotencyKey = ''''\<rparr>"


section \<open>Drain and resume in both stores\<close>


lemma cached_syncDrain:
  assumes "redis_ok C" and "state_ok (drained_state dr)" and "ce_redis E R_set = NoFault" "ce_redis E R_drain = NoFault"
  shows "cached C (syncDrainToCache C E wid dr b r) wid' =
     (if wid' = wid then Some ((drained_state dr)\<lparr>ws_DrainRequested := b\<rparr>) else cached C r wid')"
  using assms(3,4) unfolding syncDrainToCache_def
  by (simp add: cached_SetDrainRequested [OF assms(1)] cached_SetState [OF assms(1,2)])

text \<open>What the cache has to show of a row, and that a row's numbers fit Go's types.\<close>

definition shown :: "worker_row \<Rightarrow> WorkerState" where
  "shown x =
     \<lparr>ws_Epoch = w_epoch x, ws_Status = worker_status_str (w_status x),
      ws_CurrentJobID = (case w_current_job_id x of None \<Rightarrow> '''' | Some j \<Rightarrow> j),
      ws_AvailableCapacity = w_available_capacity x, ws_LastPGFlushUnix = 0,
      ws_DrainRequested = w_drain_requested x\<rparr>"

lemma shown_drained:
  "(drained_state (to_DrainResult x))\<lparr>ws_DrainRequested := w_drain_requested x\<rparr> = shown x"
  by (simp add: shown_def drained_state_def to_DrainResult_def)

lemma state_ok_drained: "state_ok (drained_state (to_DrainResult x)) \<longleftrightarrow> state_ok (shown x)"
  by (simp add: shown_def drained_state_def to_DrainResult_def state_ok_def)

lemma drain_resume_effect:
  assumes inv: "db_inv (wdb w)" and C: "redis_ok C"
    and x: "x \<in> set (workers (wdb w))" "w_status x \<notin> {OFFLINE, DEAD}" and ok: "state_ok (shown x)"
    and h: "h = (if resume then ResumeWorker C (calm t) (w_id x) w else DrainWorker C (calm t) (w_id x) w)"
  shows "\<exists>x' w'. h = ((StatusOK, DrainBody (w_id x) (worker_status_str (w_status x'))), w') \<and>
           workers (wdb w') = map (\<lambda>y. if y = x then x' else y) (workers (wdb w)) \<and> jobs (wdb w') = jobs (wdb w) \<and>
           w_drain_requested x' = (\<not> resume) \<and>
           w_status x' = (if \<not> resume \<and> w_status x = READY then DRAINING
                          else if resume \<and> w_status x = DRAINING then READY else w_status x) \<and>
           (\<not> resume \<longrightarrow> \<not> ready_candidate caps x') \<and>
           cached C (wrd w') (w_id x) = Some (shown x') \<and>
           (\<forall>wid. wid \<noteq> w_id x \<longrightarrow> cached C (wrd w') wid = cached C (wrd w) wid)"
proof (cases resume)
  case False
  let ?x = "RequestDrain_set (w_id x, t) x"
  let ?r = "syncDrainToCache C (calm t) (w_id x) (to_DrainResult ?x) True (wrd w)"
  have "state_ok (drained_state (to_DrainResult ?x))"
    using ok unfolding state_ok_drained by (simp add: shown_def state_ok_def set_updated_at_def)
  then have "cached C ?r wid = (if wid = w_id x then Some (shown ?x) else cached C (wrd w) wid)" for wid
    using cached_syncDrain [OF C, of "to_DrainResult ?x" "calm t" "w_id x" True "wrd w" wid] shown_drained [of ?x]
    by (simp add: calm_def set_updated_at_def)
  moreover have "dr_Status (to_DrainResult ?x) = worker_status_str (w_status ?x)" by (simp only: to_DrainResult_def DrainResult.select_convs)
  ultimately show ?thesis
    using False h
    by (intro exI [of _ ?x] exI [of _ "snd h"] conjI)
       (simp_all add: DrainWorker_def RequestDrain_exact [OF inv x] calm_pg del: RequestDrain_set.simps,
        simp_all add: ready_candidate_def set_updated_at_def)
next
  case True
  let ?x = "ResumeDrain_set (w_id x, t) x"
  let ?r = "syncDrainToCache C (calm t) (w_id x) (to_DrainResult ?x) False (wrd w)"
  have "state_ok (drained_state (to_DrainResult ?x))"
    using ok unfolding state_ok_drained by (simp add: shown_def state_ok_def set_updated_at_def)
  then have "cached C ?r wid = (if wid = w_id x then Some (shown ?x) else cached C (wrd w) wid)" for wid
    using cached_syncDrain [OF C, of "to_DrainResult ?x" "calm t" "w_id x" False "wrd w" wid] shown_drained [of ?x]
    by (simp add: calm_def set_updated_at_def)
  moreover have "dr_Status (to_DrainResult ?x) = worker_status_str (w_status ?x)" by (simp only: to_DrainResult_def DrainResult.select_convs)
  ultimately show ?thesis
    using True h
    by (intro exI [of _ ?x] exI [of _ "snd h"] conjI)
       (simp_all add: ResumeWorker_def ResumeDrain_exact [OF inv x] calm_pg del: ResumeDrain_set.simps,
        simp_all add: set_updated_at_def)
qed

text \<open>
  The operator's drain and resume take effect in both stores at once: for a worker that is neither
  \<open>OFFLINE\<close> nor \<open>DEAD\<close>, and without faults, the drain is answered 200 with the worker's new status; the database
  has the drain flag set and a \<open>READY\<close> worker \<open>DRAINING\<close>, so that no new job goes to it; the cache shows the
  same epoch, status, job, capacity and flag as the database row; jobs and the cache entries of the other workers
  are untouched. Resume does the same with the flag cleared and a \<open>DRAINING\<close> worker \<open>READY\<close>.
\<close>

theorem drain_in_both_stores:
  assumes inv: "db_inv (wdb w)" and C: "redis_ok C"
    and x: "x \<in> set (workers (wdb w))" "w_status x \<notin> {OFFLINE, DEAD}" and ok: "state_ok (shown x)"
    and h: "h = (if resume then ResumeWorker C (calm t) (w_id x) w else DrainWorker C (calm t) (w_id x) w)"
  shows "\<exists>x' w'. h = ((StatusOK, DrainBody (w_id x) (worker_status_str (w_status x'))), w') \<and>
           workers (wdb w') = map (\<lambda>y. if y = x then x' else y) (workers (wdb w)) \<and> jobs (wdb w') = jobs (wdb w) \<and>
           w_drain_requested x' = (\<not> resume) \<and>
           w_status x' = (if \<not> resume \<and> w_status x = READY then DRAINING
                          else if resume \<and> w_status x = DRAINING then READY else w_status x) \<and>
           (\<not> resume \<longrightarrow> \<not> ready_candidate caps x') \<and>
           cached C (wrd w') (w_id x) = Some (shown x') \<and>
           (\<forall>wid. wid \<noteq> w_id x \<longrightarrow> cached C (wrd w') wid = cached C (wrd w) wid)"
  by (rule drain_resume_effect [OF assms])

theorem drain_in_both_stores_witness:
  "\<exists>x' w'. DrainWorker mem_redis (calm 9) (w_id ex_worker) ex_world
       = ((StatusOK, DrainBody (w_id ex_worker) (worker_status_str (w_status x'))), w') \<and>
     w_status x' = DRAINING \<and> cached mem_redis (wrd w') (w_id ex_worker) = Some (shown x')"
proof -
  have inv: "db_inv (wdb ex_world)" by (simp add: ex_world_def)
  have "ex_worker \<in> set (workers (wdb ex_world))" "w_status ex_worker \<notin> {OFFLINE, DEAD}"
    "state_ok (shown ex_worker)" "w_status ex_worker = READY"
    by (simp_all add: ex_world_def ex_defs shown_def state_ok_def max_int64_def max_int32_def)
  from drain_in_both_stores [OF inv mem_redis_ok this(1-3) refl, of False 9 "[]"] this(4)
  show ?thesis by auto
qed

end
