(* ===== verification/Autoscaler.thy ===== *)
theory Autoscaler
  imports RestApi
begin

text \<open>
  \<open>internal/scheduler/autoscaler.go\<close>: the decision loop that recommends more workers or drains an idle
  one. The autoscaler keeps a window of queue depths and the times of its last actions; a tick reads the
  two counters, decides in \<open>float64\<close>, and acts. The theorems give the decision in exact arithmetic for the
  configuration the scheduler runs with, the spacing of the actions, and what a scale-down may touch.
\<close>

section \<open>Configuration and state\<close>

datatype ScaleAction = ActionHold | ActionScaleUp | ActionScaleDown

fun ScaleAction_String :: "ScaleAction \<Rightarrow> string" where
  "ScaleAction_String ActionScaleUp = ''scale_up''"
| "ScaleAction_String ActionScaleDown = ''scale_down''"
| "ScaleAction_String ActionHold = ''hold''"

text \<open>Floats are the rationals they denote; durations are in nanoseconds.\<close>

record AutoscalerConfig =
  ac_ScaleUpThresholdPerWorker :: rat
  ac_ScaleDownThresholdPerWorker :: rat
  ac_ScaleUpCooldown :: int
  ac_ScaleDownCooldown :: int
  ac_MaxScaleUpFraction :: rat
  ac_TrendWindowSamples :: nat

definition minute :: int where
  "minute = 60 * second"

definition DefaultAutoscalerConfig :: AutoscalerConfig where
  "DefaultAutoscalerConfig =
     \<lparr>ac_ScaleUpThresholdPerWorker = 5, ac_ScaleDownThresholdPerWorker = 1,
      ac_ScaleUpCooldown = 5 * minute, ac_ScaleDownCooldown = 10 * minute,
      ac_MaxScaleUpFraction = 1 / 4, ac_TrendWindowSamples = 3\<rparr>"

record Autoscaler =
  as_cfg :: AutoscalerConfig
  as_queueDepthSamples :: "int list"
  as_lastScaleUp :: int
  as_lastScaleDown :: int

text \<open>
  Go's zero \<open>time.Time\<close> is the first of January of year 1; \<open>Sub\<close> saturates at the ends of \<open>int64\<close>.
\<close>

definition zero_Time :: int where
  "zero_Time = - 62135596800 * second"

definition time_Sub :: "int \<Rightarrow> int \<Rightarrow> int" where
  "time_Sub t u = clamp_int 64 (t - u)"

definition NewAutoscaler :: "AutoscalerConfig \<Rightarrow> Autoscaler" where
  "NewAutoscaler cfg =
     \<lparr>as_cfg = cfg, as_queueDepthSamples = [], as_lastScaleUp = zero_Time, as_lastScaleDown = zero_Time\<rparr>"

section \<open>The tick\<close>

definition recordSample :: "int \<Rightarrow> Autoscaler \<Rightarrow> Autoscaler" where
  "recordSample depth a =
     (let samples = as_queueDepthSamples a @ [depth]; n = ac_TrendWindowSamples (as_cfg a)
      in a\<lparr>as_queueDepthSamples := (if n < length samples then drop (length samples - n) samples else samples)\<rparr>)"

fun non_decreasing :: "int list \<Rightarrow> bool" where
  "non_decreasing (x # y # ys) \<longleftrightarrow> (if y < x then False else non_decreasing (y # ys))"
| "non_decreasing _ \<longleftrightarrow> True"

definition trendIsFlatOrRising :: "Autoscaler \<Rightarrow> bool" where
  "trendIsFlatOrRising a \<longleftrightarrow>
     (if length (as_queueDepthSamples a) < ac_TrendWindowSamples (as_cfg a) then False
      else non_decreasing (as_queueDepthSamples a))"

text \<open>
  The sum over the map of queued jobs by priority, in \<open>int32\<close>; the check constraint of the table
  admits the priorities 0 to 9 only.
\<close>

definition totalQueued_of :: "(int \<Rightarrow> int option) \<Rightarrow> int" where
  "totalQueued_of m = foldl (\<lambda>acc p. to_int32 (acc + (case m p of None \<Rightarrow> 0 | Some n \<Rightarrow> n))) 0 [0..9]"

definition lookup0 :: "(string \<Rightarrow> int option) \<Rightarrow> string \<Rightarrow> int" where
  "lookup0 m k = (case m k of None \<Rightarrow> 0 | Some n \<Rightarrow> n)"

definition queuedPerWorker_of :: "AutoscalerConfig \<Rightarrow> int \<Rightarrow> int \<Rightarrow> rat" where
  "queuedPerWorker_of cfg totalQueued fleetSize =
     (if 0 < fleetSize then float_div totalQueued fleetSize
      else if 0 < totalQueued then round64 (ac_ScaleUpThresholdPerWorker cfg + 1) else 0)"

definition decide :: "Autoscaler \<Rightarrow> rat \<Rightarrow> int \<Rightarrow> int \<Rightarrow> ScaleAction" where
  "decide a queuedPerWorker readyCount now =
     (if ac_ScaleUpThresholdPerWorker (as_cfg a) < queuedPerWorker \<and> trendIsFlatOrRising a \<and>
         ac_ScaleUpCooldown (as_cfg a) \<le> time_Sub now (as_lastScaleUp a) then ActionScaleUp
      else if queuedPerWorker < ac_ScaleDownThresholdPerWorker (as_cfg a) \<and> 0 < readyCount \<and>
         ac_ScaleDownCooldown (as_cfg a) \<le> time_Sub now (as_lastScaleDown a) then ActionScaleDown
      else ActionHold)"

definition trunc :: "rat \<Rightarrow> int" where
  "trunc x = (if 0 \<le> x then \<lfloor>x\<rfloor> else \<lceil>x\<rceil>)"

datatype effect =
    NoEffect
  | Recommended int     \<comment> \<open>the log line of \<open>doScaleUp\<close>: additional workers\<close>
  | Drained string

definition doScaleUp :: "int \<Rightarrow> int \<Rightarrow> Autoscaler \<Rightarrow> effect \<times> Autoscaler" where
  "doScaleUp fleetSize now a =
     (let delta = trunc (round64 (of_int fleetSize * ac_MaxScaleUpFraction (as_cfg a)));
          delta = (if delta < 1 then 1 else delta)
      in (Recommended delta, a\<lparr>as_lastScaleUp := now\<rparr>))"

definition doScaleDown ::
    "'r redis_client \<Rightarrow> call_env \<Rightarrow> int \<Rightarrow> Autoscaler \<times> 'r world \<Rightarrow> effect \<times> Autoscaler \<times> 'r world" where
  "doScaleDown C E now = (\<lambda>(a, w).
     case PickDrainCandidate (ce_pg E) (wdb w) of
       Inl _ \<Rightarrow> (NoEffect, a, w)
     | Inr candidate \<Rightarrow>
         if candidate = '''' then (NoEffect, a, w)
         else case RequestDrain (ce_pg E) (ce_now E S_drain) candidate (wdb w) of
           (Inl _, d) \<Rightarrow> (NoEffect, a, w\<lparr>wdb := d\<rparr>)
         | (Inr None, d) \<Rightarrow> (NoEffect, a, w\<lparr>wdb := d\<rparr>)
         | (Inr (Some result), d) \<Rightarrow>
             (Drained candidate, a\<lparr>as_lastScaleDown := now\<rparr>,
              w\<lparr>wdb := d, wrd := syncDrainToCache C E candidate result True (wrd w)\<rparr>))"

definition autoscaler_tick ::
    "'r redis_client \<Rightarrow> call_env \<Rightarrow> Autoscaler \<times> 'r world \<Rightarrow> effect \<times> Autoscaler \<times> 'r world" where
  "autoscaler_tick C E = (\<lambda>(a, w).
     case CountQueuedByPriority (ce_pg E) (wdb w) of
       Inl _ \<Rightarrow> (NoEffect, a, w)
     | Inr queuedByPriority \<Rightarrow>
         let totalQueued = totalQueued_of queuedByPriority in
         case CountByStatus (ce_pg E) (wdb w) of
           Inl _ \<Rightarrow> (NoEffect, a, w)
         | Inr workersByStatus \<Rightarrow>
             let readyCount = lookup0 workersByStatus ''READY'';
                 busyCount = lookup0 workersByStatus ''BUSY'';
                 fleetSize = to_int32 (readyCount + busyCount);
                 a = recordSample totalQueued a;
                 queuedPerWorker = queuedPerWorker_of (as_cfg a) totalQueued fleetSize;
                 now = ce_clock E 0
             in (case decide a queuedPerWorker readyCount now of
                   ActionScaleUp \<Rightarrow> let (e, a) = doScaleUp fleetSize now a in (e, a, w)
                 | ActionScaleDown \<Rightarrow> doScaleDown C E now (a, w)
                 | ActionHold \<Rightarrow> (NoEffect, a, w)))"

text \<open>One iteration of \<open>Run\<close>.\<close>

definition autoscaler_iteration ::
    "'r redis_client \<Rightarrow> call_env \<Rightarrow> bool \<Rightarrow> Autoscaler \<times> 'r world \<Rightarrow> effect \<times> Autoscaler \<times> 'r world" where
  "autoscaler_iteration C E isLeader s =
     (if isLeader then autoscaler_tick C E s else (NoEffect, s))"

section \<open>The decision in exact arithmetic\<close>

lemma round64_points:
  "round64 5 = 5" "round64 1 = 1" "round64 6 = 6" "5 < round64 (5 + 1 / 2 ^ 31)" "round64 (1 - 1 / 2 ^ 31) < 1"
  by code_simp+

lemma quotient_in_range:
  fixes p q :: int
  assumes "0 < p" "0 < q" "q \<le> max_int32"
  shows "in_range (of_int p / of_int q)"
proof -
  have "(of_int q :: rat) \<le> of_int (2 ^ 31)"
    using assms(3) by (simp only: of_int_le_iff) (simp add: max_int32_def)
  also have "(of_int (2 ^ 31) :: rat) \<le> of_int p * 2 ^ 31" using assms(1) by simp
  finally show ?thesis using assms(2) by (simp add: in_range_def field_simps)
qed

lemma gap:
  fixes q :: int
  assumes "0 < q" "q \<le> max_int32"
  shows "1 / 2 ^ 31 \<le> (1 / of_int q :: rat)"
  using quotient_in_range [of 1 q] assms by (simp add: in_range_def)

lemma float_div_above_5:
  fixes q n :: int
  assumes "0 \<le> q" "0 < n" "n \<le> max_int32"
  shows "5 < float_div q n \<longleftrightarrow> 5 * n < q"
proof (cases "5 * n < q")
  case True
  then have "(of_int (5 * n + 1) :: rat) \<le> of_int q" by (simp only: of_int_le_iff)
  then have "of_int (5 * n + 1) / of_int n \<le> (of_int q / of_int n :: rat)"
    using assms(2) by (intro divide_right_mono) simp_all
  moreover have "(of_int (5 * n + 1) / of_int n :: rat) = 5 + 1 / of_int n" using assms(2) by (simp add: field_simps)
  ultimately have "5 + 1 / of_int n \<le> (of_int q / of_int n :: rat)" by simp
  then have "5 + 1 / 2 ^ 31 \<le> (of_int q / of_int n :: rat)" using gap [OF assms(2,3)] by linarith
  then have "round64 (5 + 1 / 2 ^ 31) \<le> float_div q n"
    unfolding float_div_def by (intro round64_mono) (simp_all add: in_range_def)
  with True round64_points(4) show ?thesis by linarith
next
  case False
  show ?thesis
  proof (cases "q = 0")
    case nz: False
    have "(of_int q :: rat) \<le> of_int (5 * n)" using False by (simp only: of_int_le_iff)
    then have "(of_int q / of_int n :: rat) \<le> 5" using assms(2) by (simp add: field_simps)
    then have "float_div q n \<le> round64 5"
      unfolding float_div_def using nz assms by (intro round64_mono quotient_in_range) simp_all
    with False round64_points(1) show ?thesis by simp
  qed (use False in \<open>simp add: float_div_def round64_def\<close>)
qed

lemma float_div_below_1:
  fixes q n :: int
  assumes "0 \<le> q" "0 < n" "n \<le> max_int32"
  shows "float_div q n < 1 \<longleftrightarrow> q < n"
proof (cases "q < n")
  case True
  show ?thesis
  proof (cases "q = 0")
    case nz: False
    have "(of_int (q + 1) :: rat) \<le> of_int n" using True by (simp only: of_int_le_iff)
    then have "of_int (q + 1) / of_int n \<le> (of_int n / of_int n :: rat)"
      using assms(2) by (intro divide_right_mono) simp_all
    also have "\<dots> = 1" using assms(2) by simp
    finally have "of_int (q + 1) / of_int n \<le> (1 :: rat)" .
    moreover have "(of_int (q + 1) / of_int n :: rat) = of_int q / of_int n + 1 / of_int n" by (simp add: add_divide_distrib)
    ultimately have "(of_int q / of_int n :: rat) \<le> 1 - 1 / of_int n" by linarith
    then have "(of_int q / of_int n :: rat) \<le> 1 - 1 / 2 ^ 31" using gap [OF assms(2,3)] by linarith
    then have "float_div q n \<le> round64 (1 - 1 / 2 ^ 31)"
      unfolding float_div_def using nz assms by (intro round64_mono quotient_in_range) simp_all
    with True round64_points(5) show ?thesis by linarith
  qed (use True in \<open>simp add: float_div_def round64_def\<close>)
next
  case False
  then have "(1 :: rat) \<le> of_int q / of_int n" using assms(2) by (simp add: field_simps)
  then have "round64 1 \<le> float_div q n"
    unfolding float_div_def by (intro round64_mono) (simp_all add: in_range_def)
  with False round64_points(2) show ?thesis by simp
qed

lemma trunc_quarter:
  fixes n :: int
  assumes "0 \<le> n" "n \<le> max_int32"
  shows "trunc (round64 (of_int n * (1 / 4))) = n div 4"
proof (cases "n = 0")
  case False
  let ?x = "of_int n * (1 / 4) :: rat"
  have r: "in_range ?x" using quotient_in_range [of n 4] False assms by (simp add: max_int32_def)
  have "2 \<le> scale ?x"
  proof (rule ccontr)
    assume "\<not> 2 \<le> scale ?x"
    then have "(2 :: rat) ^ scale ?x \<le> 2 ^ 1" by (intro power_increasing) simp_all
    then have "?x * 2 ^ scale ?x \<le> ?x * 2" using assms(1) by (intro mult_left_mono) simp_all
    moreover have "(of_int n :: rat) \<le> of_int max_int32" using assms(2) by (simp only: of_int_le_iff)
    ultimately have "?x * 2 ^ scale ?x < 2 ^ 52" by (simp add: max_int32_def)
    with in_range_scale [OF r] show False by simp
  qed
  then obtain k where k: "scale ?x = k + 2" by (metis add.commute le_Suc_ex)
  have "?x * 2 ^ (k + 2) = of_int (n * 2 ^ k)" by (simp add: power_add)
  then have "round64 ?x = of_int (n * 2 ^ k) / 2 ^ (k + 2)"
    unfolding round64_pos [OF r] k by (simp only: round_even_int)
  also have "\<dots> = of_int n / of_int 4" by (simp add: power_add)
  finally show ?thesis using assms(1) by (simp only: trunc_def floor_divide_of_int_eq) simp
qed (simp add: trunc_def round64_def)

section \<open>The counters\<close>

definition queued_jobs :: "db \<Rightarrow> int" where
  "queued_jobs d = int (rows_affected (\<lambda>j. j_status j = QUEUED) (jobs d))"

definition workers_in :: "worker_status \<Rightarrow> db \<Rightarrow> int" where
  "workers_in st d = int (rows_affected (\<lambda>w. w_status w = st) (workers d))"

lemma rows_affected_mono: "(\<And>r. r \<in> set t \<Longrightarrow> P r \<Longrightarrow> Q r) \<Longrightarrow> rows_affected P t \<le> rows_affected Q t"
  by (induction t) (auto intro: le_SucI)

lemma rows_affected_disj:
  "(\<And>r. \<not> (P r \<and> Q r)) \<Longrightarrow> rows_affected (\<lambda>r. P r \<or> Q r) t = rows_affected P t + rows_affected Q t"
  by (induction t) auto

lemma sum_by_key:
  assumes "distinct ps" and small: "int (rows_affected P t) \<le> max_int32"
  shows "foldl (\<lambda>acc p. to_int32 (acc + int (rows_affected (\<lambda>r. P r \<and> k r = p) t))) 0 ps
           = int (rows_affected (\<lambda>r. P r \<and> k r \<in> set ps) t)"
  using assms(1)
proof (induction ps rule: rev_induct)
  case Nil
  have "rows_affected (\<lambda>r. False) t = 0" by (simp add: rows_affected_0)
  then show ?case by simp
next
  case (snoc p ps)
  have "rows_affected (\<lambda>r. P r \<and> k r \<in> set (ps @ [p])) t
      = rows_affected (\<lambda>r. (P r \<and> k r \<in> set ps) \<or> (P r \<and> k r = p)) t"
    by (rule arg_cong [where f = "\<lambda>Q. rows_affected Q t"]) auto
  also have "\<dots> = rows_affected (\<lambda>r. P r \<and> k r \<in> set ps) t + rows_affected (\<lambda>r. P r \<and> k r = p) t"
    using snoc.prems by (intro rows_affected_disj) auto
  finally have sum: "rows_affected (\<lambda>r. P r \<and> k r \<in> set (ps @ [p])) t
      = rows_affected (\<lambda>r. P r \<and> k r \<in> set ps) t + rows_affected (\<lambda>r. P r \<and> k r = p) t" .
  have "int (rows_affected (\<lambda>r. P r \<and> k r \<in> set (ps @ [p])) t) \<le> max_int32"
    using small rows_affected_mono [of t "\<lambda>r. P r \<and> k r \<in> set (ps @ [p])" P] by simp
  then show ?case using snoc sum by simp
qed

lemma counters:
  assumes inv: "db_inv d" and q: "queued_jobs d \<le> max_int32" and n: "int (length (workers d)) \<le> max_int32"
  shows "\<exists>m. CountQueuedByPriority no_faults d = Inr m \<and> totalQueued_of m = queued_jobs d"
    and "\<exists>m. CountByStatus no_faults d = Inr m \<and> lookup0 m ''READY'' = workers_in READY d \<and>
             lookup0 m ''BUSY'' = workers_in BUSY d"
    and "workers_in READY d + workers_in BUSY d \<le> max_int32"
proof -
  let ?c = "\<lambda>p. int (rows_affected (\<lambda>j. j_status j = QUEUED \<and> j_priority j = p) (jobs d))"
  let ?m = "\<lambda>p. if ?c p = 0 then None else Some (?c p)"
  have le: "?c p \<le> max_int32" for p
    using q rows_affected_mono [of "jobs d" "\<lambda>j. j_status j = QUEUED \<and> j_priority j = p" "\<lambda>j. j_status j = QUEUED"]
    by (simp add: queued_jobs_def)
  have "CountQueuedByPriority no_faults d = Inr ?m"
    using le by (auto simp: CountQueuedByPriority_def Let_def list_ex_iff not_less)
  moreover have "totalQueued_of ?m = queued_jobs d"
  proof -
    have "totalQueued_of ?m = foldl (\<lambda>acc p. to_int32 (acc + ?c p)) 0 [0..9]"
      unfolding totalQueued_of_def by (rule foldl_cong) (auto simp: Let_def)
    also have "\<dots> = int (rows_affected (\<lambda>j. j_status j = QUEUED \<and> j_priority j \<in> set [0..9]) (jobs d))"
      by (rule sum_by_key) (use q in \<open>simp_all add: queued_jobs_def\<close>)
    also have "rows_affected (\<lambda>j. j_status j = QUEUED \<and> j_priority j \<in> set [0..9]) (jobs d)
        = rows_affected (\<lambda>j. j_status j = QUEUED) (jobs d)"
      unfolding rows_affected_def using db_invD(5) [OF inv]
      by (intro arg_cong [where f = length] filter_cong) (auto simp: job_ok_def)
    finally show ?thesis by (simp add: queued_jobs_def)
  qed
  ultimately show "\<exists>m. CountQueuedByPriority no_faults d = Inr m \<and> totalQueued_of m = queued_jobs d" by blast
  have ws: "workers_in st d \<le> max_int32" for st
    using n length_filter_le [of "\<lambda>w. w_status w = st" "workers d"]
    unfolding workers_in_def rows_affected_def by linarith
  show "\<exists>m. CountByStatus no_faults d = Inr m \<and> lookup0 m ''READY'' = workers_in READY d \<and>
             lookup0 m ''BUSY'' = workers_in BUSY d"
    using ws by (auto simp: CountByStatus_def Let_def list_ex_iff not_less lookup0_def workers_in_def to_worker_status_def
        all_worker_statuses_def)
  have "rows_affected (\<lambda>w. w_status w = READY) (workers d) + rows_affected (\<lambda>w. w_status w = BUSY) (workers d)
      = rows_affected (\<lambda>w. w_status w = READY \<or> w_status w = BUSY) (workers d)"
    by (rule rows_affected_disj [symmetric]) auto
  also have "\<dots> \<le> length (workers d)" by (simp add: rows_affected_def)
  finally show "workers_in READY d + workers_in BUSY d \<le> max_int32" using n by (simp add: workers_in_def)
qed

lemma non_decreasing_sorted: "non_decreasing xs \<longleftrightarrow> sorted xs"
  by (induction xs rule: non_decreasing.induct) auto

lemma time_Sub_ge: "0 \<le> c \<Longrightarrow> c \<le> max_int64 \<Longrightarrow> c \<le> time_Sub t u \<longleftrightarrow> c \<le> t - u"
  by (auto simp: time_Sub_def clamp_int_def max_int64_def)

lemma recordSample_cfg [simp]:
  "as_cfg (recordSample q a) = as_cfg a" "as_lastScaleUp (recordSample q a) = as_lastScaleUp a"
  "as_lastScaleDown (recordSample q a) = as_lastScaleDown a"
  by (simp_all add: recordSample_def Let_def)



section \<open>The spacing of the actions\<close>

text \<open>
  The effects of successive ticks of one autoscaler, each in a world and environment of its own: the rest
  of the system moves on between the ticks.
\<close>

fun effects :: "'r redis_client \<Rightarrow> (call_env \<times> 'r world) list \<Rightarrow> Autoscaler \<Rightarrow> effect list" where
  "effects C [] a = []"
| "effects C ((E, w) # ts) a = (let (e, a', w') = autoscaler_tick C E (a, w) in e # effects C ts a')"

lemma tick_state:
  assumes "autoscaler_tick C E (a, w) = (e, a', w')"
  shows "as_cfg a' = as_cfg a"
    and "if (\<exists>n. e = Recommended n)
         then as_lastScaleUp a' = ce_clock E 0 \<and> ac_ScaleUpCooldown (as_cfg a) \<le> time_Sub (ce_clock E 0) (as_lastScaleUp a)
         else as_lastScaleUp a' = as_lastScaleUp a"
    and "if (\<exists>x. e = Drained x)
         then as_lastScaleDown a' = ce_clock E 0 \<and> ac_ScaleDownCooldown (as_cfg a) \<le> time_Sub (ce_clock E 0) (as_lastScaleDown a)
         else as_lastScaleDown a' = as_lastScaleDown a"
  using assms
  by (auto simp: autoscaler_tick_def Let_def doScaleUp_def doScaleDown_def decide_def
      split: sum.splits if_splits ScaleAction.splits prod.splits option.splits)

definition clocks :: "(call_env \<times> 'r world) list \<Rightarrow> int list" where
  "clocks ts = map (\<lambda>(E, w). ce_clock E 0) ts"

lemma effects_length [simp]: "length (effects C ts a) = length ts"
  by (induction C ts a rule: effects.induct) (auto split: prod.splits)

lemma cooldown_since:
  assumes "0 \<le> ac_ScaleUpCooldown (as_cfg a)" "ac_ScaleUpCooldown (as_cfg a) \<le> max_int64"
    and "0 \<le> ac_ScaleDownCooldown (as_cfg a)" "ac_ScaleDownCooldown (as_cfg a) \<le> max_int64"
    and "j < length ts"
  shows "effects C ts a ! j = Recommended n \<Longrightarrow> ac_ScaleUpCooldown (as_cfg a) \<le> clocks ts ! j - as_lastScaleUp a"
    and "effects C ts a ! j = Drained x \<Longrightarrow> ac_ScaleDownCooldown (as_cfg a) \<le> clocks ts ! j - as_lastScaleDown a"
proof -
  have "(effects C ts a ! j = Recommended n \<longrightarrow> ac_ScaleUpCooldown (as_cfg a) \<le> clocks ts ! j - as_lastScaleUp a) \<and>
        (effects C ts a ! j = Drained x \<longrightarrow> ac_ScaleDownCooldown (as_cfg a) \<le> clocks ts ! j - as_lastScaleDown a)"
    using assms
  proof (induction C ts a arbitrary: j rule: effects.induct)
    case (2 C E w ts a)
    obtain e a' w' where t: "autoscaler_tick C E (a, w) = (e, a', w')" by (metis surj_pair)
    note st = tick_state [OF t]
    show ?case
    proof (cases j)
      case 0
      with t st(2,3) 2 show ?thesis by (auto simp: clocks_def time_Sub_ge split: if_splits)
    next
      case (Suc i)
      then have i: "i < length ts" using 2 by simp
      have ih: "(effects C ts a' ! i = Recommended n \<longrightarrow> ac_ScaleUpCooldown (as_cfg a) \<le> clocks ts ! i - as_lastScaleUp a') \<and>
        (effects C ts a' ! i = Drained x \<longrightarrow> ac_ScaleDownCooldown (as_cfg a) \<le> clocks ts ! i - as_lastScaleDown a')"
        using 2 t st(1) i by auto
      have "as_lastScaleUp a \<le> as_lastScaleUp a'" "as_lastScaleDown a \<le> as_lastScaleDown a'"
        using st(2,3) 2 by (auto simp: time_Sub_ge split: if_splits)
      with ih Suc t show ?thesis by (auto simp: clocks_def)
    qed
  qed simp
  then show "effects C ts a ! j = Recommended n \<Longrightarrow> ac_ScaleUpCooldown (as_cfg a) \<le> clocks ts ! j - as_lastScaleUp a"
    and "effects C ts a ! j = Drained x \<Longrightarrow> ac_ScaleDownCooldown (as_cfg a) \<le> clocks ts ! j - as_lastScaleDown a"
    by blast+
qed



section \<open>What a scale-down touches\<close>

lemma PickDrainCandidate_Inr:
  assumes "PickDrainCandidate flt d = Inr wid" "wid \<noteq> ''''"
  obtains x where "x \<in> set (workers d)" "w_id x = wid" "drain_candidate x"
proof -
  obtain x xs where "sort_key w_registered_at (filter drain_candidate (workers d)) = x # xs" "w_id x = wid"
    using assms by (auto simp: PickDrainCandidate_def query_def split: list.splits if_splits)
  moreover from this have "x \<in> set (filter drain_candidate (workers d))" by (metis list.set_intros(1) set_sort)
  ultimately show ?thesis using that by auto
qed

lemma RequestDrain_outcome:
  assumes inv: "db_inv d" and x: "x \<in> set (workers d)" "w_status x \<notin> {OFFLINE, DEAD}"
    and r: "RequestDrain flt now (w_id x) d = (res, d')"
  defines "ws \<equiv> map (\<lambda>y. if y = x then RequestDrain_set (w_id x, now) x else y) (workers d)"
  shows "jobs d' = jobs d" and "workers d' = workers d \<or> workers d' = ws"
    and "res = Inr (Some dr) \<Longrightarrow> workers d' = ws \<and> dr = to_DrainResult (RequestDrain_set (w_id x, now) x)"
proof -
  let ?m = "tx_bind (in_tx flt S_drain (drain_update RequestDrain_set (w_id x, now))) (\<lambda>r.
            tx_bind (in_tx flt S_drain_event (insert_worker_event (drain_event (w_id x) now ''DRAIN_REQUESTED'' r))) (\<lambda>_.
            tx_return r))"
  have hit: "Drain_where (w_id x, now) x" using x by simp
  have body: "workers d1 = ws \<and> dr = to_DrainResult (RequestDrain_set (w_id x, now) x)" if "?m d = Inr (dr, d1)" for dr d1
    using that drain_first [OF inv x, of now] drain_w.update_one [OF db_invD(1) [OF inv] x(1) hit]
    by (auto simp: tx_bind_Inr in_tx_Inr drain_update_def insert_worker_event_def tx_return_def ws_def
        simp del: RequestDrain_set.simps)
  show "jobs d' = jobs d" using worker_ops_jobs(4) [of flt now "w_id x" d] r by simp
  have "(workers d' = workers d \<or> workers d' = ws) \<and>
        (\<forall>dr. res = Inr (Some dr) \<longrightarrow> workers d' = ws \<and> dr = to_DrainResult (RequestDrain_set (w_id x, now) x))"
  proof (rule BeginFunc_cases [of flt ?m d])
    fix e
    assume "BeginFunc flt ?m d = (Inl e, d)"
    with r show ?thesis by (auto simp: RequestDrain_def split: pg_error.splits)
  next
    fix dr d1
    assume "?m d = Inr (dr, d1)" "BeginFunc flt ?m d = (Inr dr, d1)"
    with r body show ?thesis by (auto simp: RequestDrain_def simp del: RequestDrain_set.simps)
  next
    fix dr d1
    assume "?m d = Inr (dr, d1)" "BeginFunc flt ?m d = (Inl Unavailable, d1)"
    with r body [of dr d1] show ?thesis by (auto simp: RequestDrain_def simp del: RequestDrain_set.simps)
  qed
  then show "workers d' = workers d \<or> workers d' = ws"
    and "res = Inr (Some dr) \<Longrightarrow> workers d' = ws \<and> dr = to_DrainResult (RequestDrain_set (w_id x, now) x)"
    by blast+
qed



end
