(* ===== verification/StoreClients.thy ===== *)
theory StoreClients
  imports JobSpec GrpcServer BackgroundLoops Autoscaler
begin

text \<open>
  Every handler and every background loop is a client of the store: whatever it is asked and whatever fails, what
  it does to the database is a sequence of store calls, of the kinds that component is written to make. The locale
  \<open>store_client\<close> states this once and draws the consequences; it is interpreted on the gRPC handlers, on the REST
  router and on the four background loops. Because the store's theorems hold for every sequence of calls, they
  also hold when the calls of several handlers interleave.
\<close>

section \<open>Sequences of store calls\<close>

datatype op_kind =
    KRegister | KHeartbeat | KMarkDead | KAssign | KFree | KDrain | KResume | KCreate | KRunning | KResult | KRequeue

fun kind_of :: "store_op \<Rightarrow> op_kind" where
  "kind_of (OpRegister flt now uuid p) = KRegister"
| "kind_of (OpHeartbeat flt now wid epoch st cur) = KHeartbeat"
| "kind_of (OpMarkDead flt now wid epoch) = KMarkDead"
| "kind_of (OpAssign flt now jid jca wid epoch) = KAssign"
| "kind_of (OpFree flt now wid epoch) = KFree"
| "kind_of (OpDrain flt now wid) = KDrain"
| "kind_of (OpResume flt now wid) = KResume"
| "kind_of (OpCreate flt now uuid p) = KCreate"
| "kind_of (OpRunning flt now jid epoch) = KRunning"
| "kind_of (OpComplete flt now jid jca epoch st l) = KResult"
| "kind_of (OpRetryOrFail flt now goNow jid jca epoch wid msg l) = KResult"
| "kind_of (OpRequeueRetry flt jid jca) = KRequeue"

definition store_calls :: "op_kind set \<Rightarrow> db \<Rightarrow> db \<Rightarrow> bool" where
  "store_calls K d d' \<longleftrightarrow> (\<exists>ops. run store_step d ops d' \<and> kind_of ` set ops \<subseteq> K)"

named_theorems calls_intro

lemma store_calls_refl [simp]: "store_calls K d d"
  unfolding store_calls_def by (rule exI [of _ "[]"]) (simp add: run_nil)

lemma run_append: "run step s es s1 \<Longrightarrow> run step s1 es' s2 \<Longrightarrow> run step s (es @ es') s2"
  by (induction rule: run.induct) (auto intro: run.run_cons)

lemma store_calls_trans: "store_calls K d d1 \<Longrightarrow> store_calls K d1 d2 \<Longrightarrow> store_calls K d d2"
  unfolding store_calls_def by (metis (no_types, opaque_lifting) run_append set_append image_Un Un_subset_iff)

lemma store_calls_mono: "store_calls K d d' \<Longrightarrow> K \<subseteq> K' \<Longrightarrow> store_calls K' d d'"
  unfolding store_calls_def by blast

lemma store_call:
  assumes "op_allowed op d" and "kind_of op \<in> K"
  shows "store_calls K d (apply_op op d)"
  unfolding store_calls_def
  by (rule exI [of _ "[op]"]) (use assms in \<open>auto simp: store_step_iff intro!: run_cons run_nil\<close>)

text \<open>One call of each operation, in the form in which the handlers use its result.\<close>

lemma call_Register [calls_intro]: "KRegister \<in> K \<Longrightarrow> store_calls K d (snd (Register flt now uuid p d))"
  using store_call [of "OpRegister flt now uuid p"] by simp

lemma call_UpdateHeartbeat [calls_intro]:
  "KHeartbeat \<in> K \<Longrightarrow> st \<noteq> ''DEAD'' \<Longrightarrow> store_calls K d (snd (UpdateHeartbeat flt now wid epoch st cur d))"
  using store_call [of "OpHeartbeat flt now wid epoch st cur"] by simp

lemma call_MarkDead [calls_intro]: "KMarkDead \<in> K \<Longrightarrow> store_calls K d (snd (MarkDeadAndRequeue flt now wid epoch d))"
  using store_call [of "OpMarkDead flt now wid epoch"] by simp

lemma call_AssignJob [calls_intro]: "KAssign \<in> K \<Longrightarrow> store_calls K d (snd (AssignJob flt now jid jca wid epoch d))"
  using store_call [of "OpAssign flt now jid jca wid epoch"] by simp

lemma call_FreeWorker [calls_intro]: "KFree \<in> K \<Longrightarrow> store_calls K d (snd (FreeWorker flt now wid epoch d))"
  using store_call [of "OpFree flt now wid epoch"] by simp

lemma call_RequestDrain [calls_intro]: "KDrain \<in> K \<Longrightarrow> store_calls K d (snd (RequestDrain flt now wid d))"
  using store_call [of "OpDrain flt now wid"] by simp

lemma call_ResumeDrain [calls_intro]: "KResume \<in> K \<Longrightarrow> store_calls K d (snd (ResumeDrain flt now wid d))"
  using store_call [of "OpResume flt now wid"] by simp

lemma call_Create [calls_intro]:
  "KCreate \<in> K \<Longrightarrow> cj_MaxRetries p < max_int32 \<Longrightarrow> uuid \<notin> j_id ` set (jobs d)
     \<Longrightarrow> store_calls K d (snd (JobStore_Create flt now uuid p d))"
  using store_call [of "OpCreate flt now uuid p"] by (auto simp: list_all_iff)

lemma call_MarkRunning [calls_intro]: "KRunning \<in> K \<Longrightarrow> store_calls K d (snd (MarkRunning flt now jid epoch d))"
  using store_call [of "OpRunning flt now jid epoch"] by simp

lemma call_Complete [calls_intro]:
  "KResult \<in> K \<Longrightarrow> st \<in> {''SUCCESS'', ''FAILED'', ''CANCELLED''}
     \<Longrightarrow> store_calls K d (snd (Complete flt now jid jca epoch st l d))"
  using store_call [of "OpComplete flt now jid jca epoch st l"] by simp

lemma call_RetryOrFail [calls_intro]:
  "KResult \<in> K \<Longrightarrow> store_calls K d (snd (RetryOrFail flt now goNow jid jca epoch wid msg l d))"
  using store_call [of "OpRetryOrFail flt now goNow jid jca epoch wid msg l"] by simp

lemma call_MarkQueued [calls_intro]: "KRequeue \<in> K \<Longrightarrow> store_calls K d (snd (MarkQueuedFromRetry flt jid jca d))"
  using store_call [of "OpRequeueRetry flt jid jca"] by simp

section \<open>What a client of the store cannot do\<close>

lemma run_finished:
  "run store_step d ops d' \<Longrightarrow> db_inv d \<Longrightarrow> j \<in> set (jobs d) \<Longrightarrow> terminal j \<Longrightarrow> j \<in> set (jobs d') \<and> db_inv d'"
proof (induction rule: run.induct)
  case (run_cons s e s1 es s2)
  then have "jobs_evolve s s1" and "db_inv s1" by (auto simp: store_step_iff apply_op_evolve apply_op_inv)
  with run_cons show ?case using terminal_kept by blast
qed simp

text \<open>In the abstract system, only an assignment hands a job out and only a death takes it back.\<close>

lemma spec_hands_out:
  assumes "spec_step m e m'" and "m' jid = Some (Held w ep False)" and "\<forall>a b c. e \<noteq> Assign a b c"
  shows "m jid = Some (Held w ep False)"
  using assms by (cases rule: spec_step.cases) (auto simp: put_back_def split: if_splits option.splits phase.splits)

lemma spec_takes_back:
  assumes "spec_step m e m'" and "m jid = Some (Held w ep r)" and "m' jid = Some Waiting"
  shows "\<exists>a. e = Died a"
  using assms by (cases rule: spec_step.cases) (auto split: if_splits)

lemma event_kind:
  "event_of op = Assign a b c \<Longrightarrow> kind_of op = KAssign" "event_of op = Died w \<Longrightarrow> kind_of op = KMarkDead"
  by (cases op; simp)+

text \<open>What no event of a run can undo at one job holds at the end of the run.\<close>

lemma run_phase:
  assumes "run store_step d ops d'" and "db_inv d" and "Q (board_of d jid)"
    and "\<And>op m m'. op \<in> set ops \<Longrightarrow> spec_step m (event_of op) m' \<Longrightarrow> Q (m jid) \<Longrightarrow> Q (m' jid)"
  shows "Q (board_of d' jid)"
  using assms
proof (induction rule: run.induct)
  case (run_cons s e s1 es s2)
  have "db_inv s1" using run_cons by (auto simp: store_step_iff apply_op_inv)
  moreover have "Q (board_of s1 jid)"
    using run_cons.prems(3) [OF _ store_simulates [OF run_cons.prems(1) run_cons.hyps(1)]] run_cons.prems(2) by simp
  moreover have "Q (m' jid)" if "op \<in> set es" "spec_step m (event_of op) m'" "Q (m jid)" for op m m'
    using run_cons.prems(3) [OF _ that(2,3)] that(1) by simp
  ultimately show ?case by (rule run_cons.IH)
qed

lemma calls_phase:
  assumes "store_calls K d d'" and "db_inv d" and "Q (board_of d jid)"
    and "\<And>op m m'. kind_of op \<in> K \<Longrightarrow> spec_step m (event_of op) m' \<Longrightarrow> Q (m jid) \<Longrightarrow> Q (m' jid)"
  shows "Q (board_of d' jid)"
  using assms unfolding store_calls_def by (elim exE conjE) (rule run_phase, auto)

definition handed_out :: "string \<Rightarrow> int \<Rightarrow> phase option \<Rightarrow> bool" where
  "handed_out wid epoch p \<longleftrightarrow> p = Some (Held (Some wid) (Some epoch) False)"

definition held :: "phase option \<Rightarrow> bool" where
  "held p \<longleftrightarrow> (case p of Some (Held w e r) \<Rightarrow> True | _ \<Rightarrow> False)"

lemma hands_out_kind:
  assumes "spec_step m (event_of op) m'" and "handed_out w ep (m' jid)" and "\<not> handed_out w ep (m jid)"
  shows "kind_of op = KAssign"
  using spec_hands_out [OF assms(1)] assms(2,3) event_kind(1) [of op] unfolding handed_out_def by blast

lemma takes_back_kind:
  assumes "spec_step m (event_of op) m'" and "held (m jid)" and "\<not> held (m' jid)"
  shows "kind_of op \<in> {KMarkDead, KResult}"
  using assms
  by (cases rule: spec_step.cases; cases op)
     (auto simp: held_def put_back_def split: if_splits option.splits phase.splits)

lemma waits_again_kind:
  assumes "spec_step m (event_of op) m'" and "m jid = Some p" and "p \<noteq> Waiting" and "m' jid = Some Waiting"
  shows "kind_of op \<in> {KMarkDead, KRequeue}"
  using assms
  by (cases rule: spec_step.cases; cases op) (auto split: if_splits)

lemma calls_assign_nothing:
  assumes c: "store_calls K d d'" and "db_inv d" "KAssign \<notin> K" "handed_out wid ep (board_of d' jid)"
  shows "handed_out wid ep (board_of d jid)"
proof (rule ccontr)
  assume "\<not> handed_out wid ep (board_of d jid)"
  from calls_phase [OF c assms(2), of "\<lambda>p. \<not> handed_out wid ep p", OF this] assms(3,4) hands_out_kind
  show False by metis
qed

lemma calls_take_nothing_back:
  assumes c: "store_calls K d d'" and "db_inv d" "KMarkDead \<notin> K" "\<not> {KResult, KRequeue} \<subseteq> K" "held (board_of d jid)"
  shows "board_of d' jid \<noteq> Some Waiting"
proof (cases "KResult \<in> K")
  case False
  have "held (board_of d' jid)"
    using calls_phase [OF c assms(2), of held, OF assms(5)] takes_back_kind assms(3) False
    by (metis insertE singletonD)
  then show ?thesis by (auto simp: held_def)
next
  case True
  let ?Q = "\<lambda>p. \<exists>q. p = Some q \<and> q \<noteq> Waiting"
  have start: "?Q (board_of d jid)" using assms(5) by (auto simp: held_def split: option.splits)
  have kept: "?Q (m' jid)" if "kind_of op \<in> K" "spec_step m (event_of op) m'" "?Q (m jid)" for op m m'
  proof -
    have "m' jid \<noteq> None" using that(2,3) by (cases rule: spec_step.cases) (auto simp: put_back_def split: option.splits phase.splits)
    moreover have "m' jid \<noteq> Some Waiting" using waits_again_kind [OF that(2), of jid] that(1,3) assms(3,4) True by auto
    ultimately show ?thesis by auto
  qed
  have "?Q (board_of d' jid)" by (rule calls_phase [where Q = ?Q, OF c assms(2) start]) (rule kept)
  then show ?thesis by auto
qed

section \<open>The contract of a client\<close>

locale store_client =
  fixes kinds :: "op_kind set"
    and guard :: "'r world \<Rightarrow> bool"
    and act :: "'r world \<Rightarrow> 'r world"
  assumes calls: "guard w \<Longrightarrow> store_calls kinds (wdb w) (wdb (act w))"
begin

lemma finished_final:
  "guard w \<Longrightarrow> db_inv (wdb w) \<Longrightarrow> j \<in> set (jobs (wdb w)) \<Longrightarrow> terminal j \<Longrightarrow> j \<in> set (jobs (wdb (act w)))"
  using calls run_finished unfolding store_calls_def by blast

lemma assigns_nothing:
  "guard w \<Longrightarrow> db_inv (wdb w) \<Longrightarrow> KAssign \<notin> kinds \<Longrightarrow> handed_out wid ep (board_of (wdb (act w)) jid)
     \<Longrightarrow> handed_out wid ep (board_of (wdb w) jid)"
  using calls_assign_nothing [OF calls] by blast

lemma takes_nothing_back:
  "guard w \<Longrightarrow> db_inv (wdb w) \<Longrightarrow> KMarkDead \<notin> kinds \<Longrightarrow> \<not> {KResult, KRequeue} \<subseteq> kinds
     \<Longrightarrow> held (board_of (wdb w) jid) \<Longrightarrow> board_of (wdb (act w)) jid \<noteq> Some Waiting"
  using calls_take_nothing_back [OF calls] by blast

end

section \<open>The clients\<close>

lemma snd_case_calls:
  assumes "store_calls K d (snd p)" shows "p = (a, d') \<Longrightarrow> store_calls K d d'"
  using assms by simp

interpretation register_client: store_client "{KRegister}" "\<lambda>_. True" "\<lambda>w. snd (RegisterWorker C S E uuid req w)" for C S E uuid req
  by unfold_locales
     (auto simp: RegisterWorker_def Let_def split: prod.splits sum.splits intro: snd_case_calls [OF call_Register])

lemma flush_heartbeat_calls:
  assumes "newStatus \<noteq> ''DEAD''"
  shows "store_calls {KRunning, KHeartbeat} d (snd (flush_heartbeat E wid found k newStatus cur d))"
  using assms
  by (auto simp: flush_heartbeat_def Let_def split: prod.splits sum.splits if_splits
      intro: snd_case_calls [OF call_UpdateHeartbeat])

interpretation heartbeat_client: store_client "{KRunning, KHeartbeat}" "\<lambda>_. hb_Status req \<noteq> WORKER_STATUS_DEAD"
    "\<lambda>w. snd (handleHeartbeat C S E req w)" for C S E req
proof unfold_locales
  fix w
  assume "hb_Status req \<noteq> WORKER_STATUS_DEAD"
  then have st: "workerStatusToDB (hb_Status req) \<noteq> ''DEAD''" by (cases "hb_Status req") auto
  have started: "store_calls {KRunning, KHeartbeat} d (if b then snd (MarkRunning flt now jid e d) else d)" for b flt now jid e d
    by (simp add: call_MarkRunning)
  show "store_calls {KRunning, KHeartbeat} (wdb w) (wdb (snd (handleHeartbeat C S E req w)))"
  proof (cases "handleHeartbeat C S E req w")
    case (Pair res w')
    show ?thesis
    proof (cases res)
      case (Inl e)
      with Pair show ?thesis by (auto dest: handleHeartbeat_Inl)
    next
      case (Inr resp)
      show ?thesis
        by (rule handleHeartbeat_Inr [OF Pair [unfolded Inr]])
           (simp only: Pair snd_conv store_calls_trans [OF started flush_heartbeat_calls [OF st]])
    qed
  qed
qed

lemma record_result_calls: "store_calls {KResult, KFree} d (snd (record_result E job req d))"
proof -
  have "jobStatusToDB (rj_Status req) \<in> {''SUCCESS'', ''FAILED'', ''CANCELLED''}" by (cases "rj_Status req") auto
  then show ?thesis
    by (auto simp: record_result_def Let_def split: prod.splits sum.splits
        intro: snd_case_calls [OF call_Complete] snd_case_calls [OF call_RetryOrFail])
qed

lemma release_worker_calls: "store_calls {KResult, KFree} (wdb w) (wdb (release_worker C E wid e w))"
  by (auto simp: release_worker_def split: option.splits prod.splits sum.splits bool.splits
      intro: snd_case_calls [OF call_FreeWorker])

interpretation report_client: store_client "{KResult, KFree}" "\<lambda>_. True" "\<lambda>w. snd (ReportJobResult C E req w)" for C E req
proof unfold_locales
  fix w
  have "store_calls {KResult, KFree} (wdb w) (wdb (release_worker C E wid e (w\<lparr>wdb := d\<rparr>)))"
    if "record_result E job req (wdb w) = (r, d)" for wid e job r d
    using store_calls_trans [OF snd_case_calls [OF record_result_calls that] release_worker_calls [of "w\<lparr>wdb := d\<rparr>", simplified]] .
  then show "store_calls {KResult, KFree} (wdb w) (wdb (snd (ReportJobResult C E req w)))"
    by (auto simp: ReportJobResult_def split: prod.splits sum.splits bool.splits intro: snd_case_calls [OF record_result_calls])
qed

fun rest_guard :: "string \<Rightarrow> route \<Rightarrow> 'r world \<Rightarrow> bool" where
  "rest_guard uuid (PostJobs (Some req)) w \<longleftrightarrow> sj_MaxRetries req < max_int32 \<and> uuid \<notin> j_id ` set (jobs (wdb w))"
| "rest_guard uuid _ w \<longleftrightarrow> True"

lemma requireScope_calls:
  assumes "store_calls K (wdb w) (wdb (snd (next w)))"
  shows "store_calls K (wdb w) (wdb (snd (requireScope R now scope authorization next w)))"
  using assms by (auto simp: requireScope_def RequireScope_def split: option.splits sum.splits)

interpretation rest_client: store_client "{KCreate, KDrain, KResume}" "rest_guard uuid rt"
    "\<lambda>w. snd (NewRouter R C E uuid authorization rt w)" for R C E uuid authorization rt
proof unfold_locales
  fix w :: "'a world"
  assume g: "rest_guard uuid rt w"
  let ?K = "{KCreate, KDrain, KResume}"
  have drain: "store_calls ?K (wdb w) (wdb (snd (DrainWorker C E wid w)))" for wid
    by (auto simp: DrainWorker_def split: prod.splits sum.splits option.splits intro: snd_case_calls [OF call_RequestDrain])
  have resume: "store_calls ?K (wdb w) (wdb (snd (ResumeWorker C E wid w)))" for wid
    by (auto simp: ResumeWorker_def split: prod.splits sum.splits option.splits intro: snd_case_calls [OF call_ResumeDrain])
  have submit: "store_calls ?K (wdb w) (wdb (snd (SubmitJob C fmt E uuid body w)))" if "rt = PostJobs body" for fmt body
    using g that
    by (auto simp: SubmitJob_def Let_def submit_params_def split: option.splits prod.splits sum.splits bool.splits
        intro!: snd_case_calls [OF call_Create])
  show "store_calls ?K (wdb w) (wdb (snd (NewRouter R C E uuid authorization rt w)))"
    by (cases rt) (auto simp: handlers_read_only drain resume submit split: prod.splits intro!: requireScope_calls)
qed

interpretation loop_client: store_client "{KAssign}" "\<lambda>_. True" "\<lambda>w. loop_iteration C consumer f Em leader w"
    for C consumer f Em leader
proof unfold_locales
  have msg: "store_calls {KAssign} (wdb w) (wdb (snd (processMessage C E k e w)))" for E k e w
    by (auto simp: processMessage_def Let_def ack_def split: prod.splits sum.splits pg_error.splits option.splits bool.splits
        intro: snd_case_calls [OF call_AssignJob])
  have entries: "store_calls {KAssign} (wdb w) (wdb (process_entries C E k es w))" for E k es w
    by (induction es arbitrary: w) (auto intro: store_calls_trans [OF msg])
  have streams: "store_calls {KAssign} (wdb w) (wdb (process_streams C E ss w))" for E ss w
  proof (induction ss arbitrary: w)
    case (Cons s ss)
    show ?case by (cases s) (simp add: store_calls_trans [OF entries Cons.IH])
  qed simp
  have pass: "store_calls {KAssign} (wdb w) (wdb (readAndProcess C consumer g E keys ident w))" for g E keys ident w
    using streams [of "w\<lparr>wrd := r\<rparr>" for r, simplified]
    by (auto simp: readAndProcess_def split: fault.splits prod.splits)
  show "store_calls {KAssign} (wdb w) (wdb (loop_iteration C consumer f Em leader w))" for w
    by (auto simp: loop_iteration_def tick_def intro: store_calls_trans [OF pass pass])
qed

interpretation reaper_client: store_client "{KMarkDead}" "\<lambda>_. True" "\<lambda>w. reaper_tick C E Ew timeout leader w"
    for C E Ew timeout leader
proof unfold_locales
  have "store_calls {KMarkDead} (wdb w) (wdb (sweep_loop C Ew ss w))" for ss w
  proof (induction ss arbitrary: w)
    case (Cons s ss)
    show ?case
      using Cons.IH [of "w\<lparr>wdb := d\<rparr>" for d] Cons.IH [of "w\<lparr>wdb := d, wrd := r\<rparr>" for d r]
      by (auto simp: Let_def split: prod.splits sum.splits intro: store_calls_trans [OF snd_case_calls [OF call_MarkDead]])
  qed simp
  then show "store_calls {KMarkDead} (wdb w) (wdb (reaper_tick C E Ew timeout leader w))" for w
    by (auto simp: reaper_tick_def sweep_def split: sum.splits)
qed

interpretation poller_client: store_client "{KRequeue}" "\<lambda>_. True" "\<lambda>w. poller_tick C E Ej leader w" for C E Ej leader
proof unfold_locales
  have "store_calls {KRequeue} (wdb w) (wdb (poll_loop C Ej js w))" for js w
  proof (induction js arbitrary: w)
    case (Cons j js)
    show ?case
      using Cons.IH [of "w\<lparr>wdb := d\<rparr>" for d] Cons.IH [of "w\<lparr>wdb := d, wrd := r\<rparr>" for d r]
      by (auto simp: Let_def split: prod.splits sum.splits bool.splits
          intro: store_calls_trans [OF snd_case_calls [OF call_MarkQueued]])
  qed simp
  then show "store_calls {KRequeue} (wdb w) (wdb (poller_tick C E Ej leader w))" for w
    by (auto simp: poller_tick_def poll_def split: sum.splits)
qed

interpretation scaler_client: store_client "{KDrain}" "\<lambda>_. True" "\<lambda>w. snd (snd (autoscaler_iteration C E leader (a, w)))"
    for C E leader a
  by unfold_locales
     (auto simp: autoscaler_iteration_def autoscaler_tick_def doScaleDown_def doScaleUp_def Let_def
       split: sum.splits option.splits prod.splits ScaleAction.splits intro: snd_case_calls [OF call_RequestDrain])

end
