(* ===== verification/Leader.thy ===== *)
theory Leader
  imports Prelude
begin

text \<open>
  The leader election of \<open>internal/scheduler/leader.go\<close>: every replica of the scheduler has a
  \<open>LeaderElector\<close> that tries to take a session-scoped advisory lock of PostgreSQL and keeps the
  connection that holds it. The sessions of the server and the lock are shared by all replicas, so
  the theory gives the elector's operations as functions of the elector and the server, and the
  cluster as a step relation over the electors, in which sessions end and processes crash at any
  moment. The theorems say what leadership means: the lock is exclusive, a replica believes
  itself leader only on a connection that has taken it, and the one window in which two replicas
  do is the time until the one that has lost its session checks again.
\<close>

section \<open>Sessions and the advisory lock\<close>

text \<open>
  A session is a number. \<open>ls_live\<close> are the sessions the server still has, \<open>ls_closed\<close> those whose
  connection a client has given up; the server may notice that later. The lock belongs to a
  session and goes with it.
\<close>

record lock_server =
  ls_live :: "nat \<Rightarrow> bool"
  ls_closed :: "nat \<Rightarrow> bool"
  ls_holder :: "nat option"

definition pg_try_advisory_lock :: "nat \<Rightarrow> lock_server \<Rightarrow> bool \<times> lock_server" where
  "pg_try_advisory_lock s S =
     (if ls_holder S = None \<or> ls_holder S = Some s then (True, S\<lparr>ls_holder := Some s\<rparr>) else (False, S))"

definition pg_advisory_unlock :: "nat \<Rightarrow> lock_server \<Rightarrow> lock_server" where
  "pg_advisory_unlock s S = (if ls_holder S = Some s then S\<lparr>ls_holder := None\<rparr> else S)"

definition end_session :: "nat \<Rightarrow> lock_server \<Rightarrow> lock_server" where
  "end_session s S = pg_advisory_unlock s (S\<lparr>ls_live := (ls_live S)(s := False)\<rparr>)"

definition close_conn :: "nat \<Rightarrow> lock_server \<Rightarrow> lock_server" where
  "close_conn s S = S\<lparr>ls_closed := (ls_closed S)(s := True)\<rparr>"

section \<open>The elector\<close>

record LeaderElector =
  le_conn :: "nat option"
  le_isLeader :: bool

definition NewLeaderElector :: LeaderElector where
  "NewLeaderElector = \<lparr>le_conn = None, le_isLeader = False\<rparr>"

definition IsLeader :: "LeaderElector \<Rightarrow> bool" where
  "IsLeader le = le_isLeader le"

text \<open>
  What the environment decides in one call: the answer of the ping, the session the pool hands
  out, and the fate of the lock and unlock statements. A command that fails on the wire makes the
  driver close the connection, and the pool destroys a closed connection when it is released.
\<close>

record lock_env =
  le_ping :: bool
  le_acquire :: "nat option"
  le_lock :: fault
  le_unlock :: fault

definition tryAcquireOrVerify ::
    "lock_env \<Rightarrow> LeaderElector \<times> lock_server \<Rightarrow> LeaderElector \<times> lock_server" where
  "tryAcquireOrVerify E = (\<lambda>(le, S).
     if le_conn le \<noteq> None \<and> le_ping E then (le, S)
     else
       let (le, S) = (case le_conn le of
                        None \<Rightarrow> (le, S)
                      | Some c \<Rightarrow> (le\<lparr>le_conn := None, le_isLeader := False\<rparr>, close_conn c S))
       in case le_acquire E of
            None \<Rightarrow> (le, S)
          | Some s \<Rightarrow>
              (case le_lock E of
                 NotApplied \<Rightarrow> (le, S)
               | AckLost \<Rightarrow> (le, close_conn s (snd (pg_try_advisory_lock s S)))
               | NoFault \<Rightarrow>
                   let (acquired, S) = pg_try_advisory_lock s S in
                   if \<not> acquired then (le, S) else (le\<lparr>le_conn := Some s, le_isLeader := True\<rparr>, S)))"

definition release :: "lock_env \<Rightarrow> LeaderElector \<times> lock_server \<Rightarrow> LeaderElector \<times> lock_server" where
  "release E = (\<lambda>(le, S).
     case le_conn le of
       None \<Rightarrow> (le, S)
     | Some c \<Rightarrow>
         (le\<lparr>le_conn := None, le_isLeader := False\<rparr>,
          (case le_unlock E of
             NoFault \<Rightarrow> pg_advisory_unlock c S
           | NotApplied \<Rightarrow> close_conn c S
           | AckLost \<Rightarrow> close_conn c (pg_advisory_unlock c S))))"

section \<open>The cluster\<close>

record cluster =
  cl_electors :: "LeaderElector list"
  cl_server :: lock_server

datatype cluster_event =
    Check nat lock_env     \<comment> \<open>\<open>Run\<close> calls \<open>tryAcquireOrVerify\<close> on this replica\<close>
  | Stop nat lock_env      \<comment> \<open>\<open>Run\<close> ends with its context and calls \<open>release\<close>\<close>
  | Crash nat              \<comment> \<open>the process dies and starts again\<close>
  | Connect nat            \<comment> \<open>the server opens a session\<close>
  | SessionEnd nat         \<comment> \<open>the server ends a session, for whatever reason\<close>

definition on_replica ::
    "nat \<Rightarrow> (LeaderElector \<times> lock_server \<Rightarrow> LeaderElector \<times> lock_server) \<Rightarrow> cluster \<Rightarrow> cluster" where
  "on_replica i f c =
     (let (le, S) = f (cl_electors c ! i, cl_server c)
      in c\<lparr>cl_electors := (cl_electors c)[i := le], cl_server := S\<rparr>)"

fun crash :: "LeaderElector \<times> lock_server \<Rightarrow> LeaderElector \<times> lock_server" where
  "crash (le, S) = (NewLeaderElector, (case le_conn le of None \<Rightarrow> S | Some s \<Rightarrow> close_conn s S))"

fun cluster_next :: "cluster_event \<Rightarrow> cluster \<Rightarrow> cluster" where
  "cluster_next (Check i E) c = on_replica i (tryAcquireOrVerify E) c"
| "cluster_next (Stop i E) c = on_replica i (release E) c"
| "cluster_next (Crash i) c = on_replica i crash c"
| "cluster_next (Connect s) c =
     c\<lparr>cl_server := (cl_server c)\<lparr>ls_live := (ls_live (cl_server c))(s := True)\<rparr>\<rparr>"
| "cluster_next (SessionEnd s) c = c\<lparr>cl_server := end_session s (cl_server c)\<rparr>"

definition checked_out :: "nat \<Rightarrow> cluster \<Rightarrow> bool" where
  "checked_out s c \<longleftrightarrow> list_ex (\<lambda>le. le_conn le = Some s) (cl_electors c)"

text \<open>
  What PostgreSQL and the pool guarantee: only a live session answers, and the pool hands out
  only connections that are neither closed nor checked out.
\<close>

fun cluster_allowed :: "cluster_event \<Rightarrow> cluster \<Rightarrow> bool" where
  "cluster_allowed (Check i E) c \<longleftrightarrow>
     i < length (cl_electors c) \<and>
     (case le_conn (cl_electors c ! i) of None \<Rightarrow> True
      | Some s \<Rightarrow> le_ping E \<longrightarrow> ls_live (cl_server c) s) \<and>
     (case le_acquire E of None \<Rightarrow> True
      | Some s \<Rightarrow> \<not> ls_closed (cl_server c) s \<and> \<not> checked_out s c \<and>
                  (le_lock E \<noteq> NotApplied \<longrightarrow> ls_live (cl_server c) s))"
| "cluster_allowed (Stop i E) c \<longleftrightarrow> i < length (cl_electors c)"
| "cluster_allowed (Crash i) c \<longleftrightarrow> i < length (cl_electors c)"
| "cluster_allowed (Connect s) c \<longleftrightarrow> \<not> ls_live (cl_server c) s \<and> \<not> ls_closed (cl_server c) s \<and> \<not> checked_out s c"
| "cluster_allowed (SessionEnd s) c \<longleftrightarrow> True"

inductive cluster_step :: "cluster \<Rightarrow> cluster_event \<Rightarrow> cluster \<Rightarrow> bool" where
  event: "cluster_allowed e c \<Longrightarrow> cluster_step c e (cluster_next e c)"

inductive_simps cluster_step_iff: "cluster_step c e c'"

definition fresh_cluster :: "nat \<Rightarrow> cluster" where
  "fresh_cluster n =
     \<lparr>cl_electors = replicate n NewLeaderElector,
      cl_server = \<lparr>ls_live = (\<lambda>_. False), ls_closed = (\<lambda>_. False), ls_holder = None\<rparr>\<rparr>"

section \<open>The invariant\<close>

definition elector_ok :: "lock_server \<Rightarrow> LeaderElector \<Rightarrow> bool" where
  "elector_ok S le \<longleftrightarrow>
     (le_isLeader le \<longleftrightarrow> le_conn le \<noteq> None) \<and>
     (\<forall>s. le_conn le = Some s \<longrightarrow> \<not> ls_closed S s \<and> (ls_live S s \<longrightarrow> ls_holder S = Some s))"

definition lock_inv :: "cluster \<Rightarrow> bool" where
  "lock_inv c \<longleftrightarrow>
     (\<forall>le\<in>set (cl_electors c). elector_ok (cl_server c) le) \<and>
     (\<forall>i<length (cl_electors c). \<forall>j<length (cl_electors c). \<forall>s.
        le_conn (cl_electors c ! i) = Some s \<longrightarrow> le_conn (cl_electors c ! j) = Some s \<longrightarrow> i = j) \<and>
     (\<forall>s. ls_holder (cl_server c) = Some s \<longrightarrow> ls_live (cl_server c) s \<and> (ls_closed (cl_server c) s \<or> checked_out s c))"

lemmas lock_defs = pg_try_advisory_lock_def pg_advisory_unlock_def end_session_def close_conn_def

lemma checked_out_iff: "checked_out s c \<longleftrightarrow> (\<exists>i<length (cl_electors c). le_conn (cl_electors c ! i) = Some s)"
  by (auto simp: checked_out_def list_ex_length)

lemma elector_ok_nth: "lock_inv c \<Longrightarrow> i < length (cl_electors c) \<Longrightarrow> elector_ok (cl_server c) (cl_electors c ! i)"
  by (simp add: lock_inv_def)

text \<open>
  What an operation of one replica may do to the server without disturbing the others: sessions
  stay, only its own connection or one nobody uses is closed, and the lock is taken away from
  nobody else.
\<close>

definition local_change :: "cluster \<Rightarrow> nat \<Rightarrow> LeaderElector \<Rightarrow> lock_server \<Rightarrow> bool" where
  "local_change c i le S \<longleftrightarrow>
     ls_live S = ls_live (cl_server c) \<and>
     (\<forall>s. ls_closed (cl_server c) s \<longrightarrow> ls_closed S s) \<and>
     (\<forall>s. ls_closed S s \<longrightarrow>
        ls_closed (cl_server c) s \<or> le_conn (cl_electors c ! i) = Some s \<or> \<not> checked_out s c) \<and>
     (\<forall>s. ls_holder (cl_server c) = Some s \<longrightarrow>
        ls_holder S = Some s \<or> le_conn (cl_electors c ! i) = Some s) \<and>
     (\<forall>s. le_conn le = Some s \<longrightarrow> le_conn (cl_electors c ! i) = Some s \<or> \<not> checked_out s c) \<and>
     (\<forall>s. ls_holder S = Some s \<longrightarrow> ls_live S s \<and>
        (ls_closed S s \<or> le_conn le = Some s \<or>
         ls_holder (cl_server c) = Some s \<and> le_conn (cl_electors c ! i) \<noteq> Some s))"

lemma one_elector_per_session:
  assumes "lock_inv c" and "k < length (cl_electors c)" and "j < length (cl_electors c)"
    and "le_conn (cl_electors c ! k) = Some s" and "le_conn (cl_electors c ! j) = Some s"
  shows "k = j"
  using assms by (auto simp: lock_inv_def)

lemma local_change_other:
  assumes inv: "lock_inv c" and i: "i < length (cl_electors c)" and loc: "local_change c i le S"
    and j: "j < length (cl_electors c)" "j \<noteq> i"
  shows "elector_ok S (cl_electors c ! j)"
  unfolding elector_ok_def
proof (intro conjI allI impI)
  show "le_isLeader (cl_electors c ! j) = (le_conn (cl_electors c ! j) \<noteq> None)"
    using elector_ok_nth [OF inv j(1)] by (simp add: elector_ok_def)
  fix s
  assume s: "le_conn (cl_electors c ! j) = Some s"
  with j have "checked_out s c" "le_conn (cl_electors c ! i) \<noteq> Some s"
    using one_elector_per_session [OF inv j(1) i s] by (auto simp: checked_out_iff)
  with s loc elector_ok_nth [OF inv j(1)]
  show "\<not> ls_closed S s" and "ls_live S s \<Longrightarrow> ls_holder S = Some s"
    by (auto simp: elector_ok_def local_change_def)
qed

lemma local_change_inv:
  assumes inv: "lock_inv c" and i: "i < length (cl_electors c)"
    and ok: "elector_ok S le" and loc: "local_change c i le S"
  shows "lock_inv (c\<lparr>cl_electors := (cl_electors c)[i := le], cl_server := S\<rparr>)"
proof -
  let ?es = "cl_electors c" and ?c = "c\<lparr>cl_electors := (cl_electors c)[i := le], cl_server := S\<rparr>"
  note other = local_change_other [OF inv i loc]
  have upd: "?es[i := le] ! j = (if j = i then le else ?es ! j)" if "j < length ?es" for j
    using that by simp
  have out: "checked_out s ?c \<longleftrightarrow> le_conn le = Some s \<or> (\<exists>j<length ?es. j \<noteq> i \<and> le_conn (?es ! j) = Some s)" for s
    using i by (auto simp: checked_out_iff upd split: if_splits)
  show ?thesis
    unfolding lock_inv_def
  proof (intro conjI allI impI ballI)
    fix x
    assume "x \<in> set (cl_electors ?c)"
    then show "elector_ok (cl_server ?c) x"
      using ok other by (auto simp: in_set_conv_nth upd split: if_splits)
  next
    fix k j s
    assume "k < length (cl_electors ?c)" "j < length (cl_electors ?c)"
      "le_conn (cl_electors ?c ! k) = Some s" "le_conn (cl_electors ?c ! j) = Some s"
    then show "k = j"
      using loc one_elector_per_session [OF inv, of k j s] i unfolding local_change_def checked_out_iff
      by (auto simp: upd split: if_splits)
  next
    fix s
    assume h: "ls_holder (cl_server ?c) = Some s"
    then have "ls_live S s" using loc unfolding local_change_def by auto
    then show "ls_live (cl_server ?c) s" by simp
    from h loc consider "ls_closed S s" | "le_conn le = Some s"
      | "ls_holder (cl_server c) = Some s" "le_conn (?es ! i) \<noteq> Some s"
      by (auto simp: local_change_def)
    then show "ls_closed (cl_server ?c) s \<or> checked_out s ?c"
    proof cases
      case 3
      with inv have "ls_closed (cl_server c) s \<or> checked_out s c" by (simp add: lock_inv_def)
      then show ?thesis
      proof
        assume "ls_closed (cl_server c) s"
        with loc show ?thesis by (simp add: local_change_def)
      next
        assume "checked_out s c"
        with 3 show ?thesis unfolding out unfolding checked_out_iff by metis
      qed
    qed (auto simp: out)
  qed
qed

lemma on_replica_inv:
  assumes "lock_inv c" and "i < length (cl_electors c)"
    and "\<And>le S. f (cl_electors c ! i, cl_server c) = (le, S) \<Longrightarrow> elector_ok S le \<and> local_change c i le S"
  shows "lock_inv (on_replica i f c)"
  using assms by (auto simp: on_replica_def split: prod.splits intro!: local_change_inv)

lemma holder_facts:
  assumes "lock_inv c" and "i < length (cl_electors c)"
  shows "ls_holder (cl_server c) = Some s \<Longrightarrow> ls_live (cl_server c) s"
    and "ls_holder (cl_server c) = Some s \<Longrightarrow> ls_closed (cl_server c) s \<or> checked_out s c"
    and "le_conn (cl_electors c ! i) = Some s \<Longrightarrow> checked_out s c"
    and "le_conn (cl_electors c ! i) = Some s \<Longrightarrow> \<not> ls_closed (cl_server c) s"
    and "le_conn (cl_electors c ! i) = Some s \<Longrightarrow> ls_live (cl_server c) s \<Longrightarrow> ls_holder (cl_server c) = Some s"
    and "le_isLeader (cl_electors c ! i) \<longleftrightarrow> le_conn (cl_electors c ! i) \<noteq> None"
  using assms elector_ok_nth [OF assms] by (auto simp: lock_inv_def checked_out_iff elector_ok_def)

lemma local_change_refl:
  "lock_inv c \<Longrightarrow> i < length (cl_electors c) \<Longrightarrow> local_change c i (cl_electors c ! i) (cl_server c)"
  using holder_facts [of c i] by (auto simp: local_change_def)

text \<open>The elector without its connection, and the server once that is closed.\<close>

definition demoted :: "LeaderElector \<Rightarrow> LeaderElector" where
  "demoted le = le\<lparr>le_conn := None, le_isLeader := False\<rparr>"

definition dropped :: "LeaderElector \<Rightarrow> lock_server \<Rightarrow> lock_server" where
  "dropped le S = (case le_conn le of None \<Rightarrow> S | Some s \<Rightarrow> close_conn s S)"

lemma tryAcquireOrVerify_cases:
  assumes "tryAcquireOrVerify E (le0, S0) = (le, S)" and "elector_ok S0 le0"
  obtains (verified) s where "le_conn le0 = Some s" "le_ping E" "le = le0" "S = S0"
  | (failed) "le_conn le0 = None \<or> \<not> le_ping E" "le = demoted le0" "S = dropped le0 S0"
  | (lost) s where "le_acquire E = Some s" "le_lock E = AckLost" "le = demoted le0"
      "S = close_conn s (snd (pg_try_advisory_lock s (dropped le0 S0)))"
  | (won) s where "le_conn le0 = None \<or> \<not> le_ping E" "le_acquire E = Some s" "le_lock E = NoFault"
      "pg_try_advisory_lock s (dropped le0 S0) = (True, S)"
      "le = (demoted le0)\<lparr>le_conn := Some s, le_isLeader := True\<rparr>"
proof (cases "le_conn le0 \<noteq> None \<and> le_ping E")
  case True
  then obtain s where s: "le_conn le0 = Some s" "le_ping E" by auto
  with assms(1) have "le = le0" "S = S0" by (simp_all add: tryAcquireOrVerify_def)
  with s show ?thesis by (rule verified)
next
  case False
  have eq: "(case le_conn le0 of None \<Rightarrow> (le0, S0)
         | Some c \<Rightarrow> (le0\<lparr>le_conn := None, le_isLeader := False\<rparr>, close_conn c S0)) = (demoted le0, dropped le0 S0)"
  proof (cases "le_conn le0")
    case None
    with assms(2) have "le_isLeader le0 = False" by (simp add: elector_ok_def)
    with None have "demoted le0 = le0" unfolding demoted_def by (cases le0) simp
    with None show ?thesis by (simp add: dropped_def)
  qed (simp add: demoted_def dropped_def)
  have r: "(case le_acquire E of None \<Rightarrow> (demoted le0, dropped le0 S0)
      | Some s \<Rightarrow> (case le_lock E of NotApplied \<Rightarrow> (demoted le0, dropped le0 S0)
         | AckLost \<Rightarrow> (demoted le0, close_conn s (snd (pg_try_advisory_lock s (dropped le0 S0))))
         | NoFault \<Rightarrow> let (acquired, S) = pg_try_advisory_lock s (dropped le0 S0) in
             if \<not> acquired then (demoted le0, S)
             else ((demoted le0)\<lparr>le_conn := Some s, le_isLeader := True\<rparr>, S))) = (le, S)"
    using assms(1) unfolding tryAcquireOrVerify_def prod.case if_not_P [OF False] eq Let_def .
  show ?thesis
  proof (cases "le_acquire E")
    case None
    with r False failed show ?thesis by auto
  next
    case (Some s)
    show ?thesis
    proof (cases "le_lock E")
      case NoFault
      obtain b S' where t: "pg_try_advisory_lock s (dropped le0 S0) = (b, S')" by fastforce
      then have "S' = dropped le0 S0" if "\<not> b"
        using that by (auto simp: pg_try_advisory_lock_def split: if_splits)
      with t r Some NoFault False failed won show ?thesis by (cases b) auto
    qed (use r Some False failed lost in auto)
  qed
qed

lemma Check_local:
  assumes inv: "lock_inv c" and al: "cluster_allowed (Check i E) c"
    and r: "tryAcquireOrVerify E (cl_electors c ! i, cl_server c) = (le, S)"
  shows "elector_ok S le \<and> local_change c i le S"
proof -
  have i: "i < length (cl_electors c)" using al by simp
  note facts = holder_facts [OF inv i]
  let ?le = "cl_electors c ! i" and ?S = "cl_server c"
  have S0: "ls_live (dropped ?le ?S) = ls_live ?S" "ls_holder (dropped ?le ?S) = ls_holder ?S"
    "\<And>s. ls_closed (dropped ?le ?S) s \<longleftrightarrow> ls_closed ?S s \<or> le_conn ?le = Some s"
    by (auto simp: dropped_def close_conn_def split: option.splits)
  have free: "ls_holder ?S \<noteq> Some s" "\<not> ls_closed (dropped ?le ?S) s" "\<not> checked_out s c" "le_lock E \<noteq> NotApplied \<Longrightarrow> ls_live ?S s"
    if "le_acquire E = Some s" for s
    using that al facts(2) [of s] facts(3) [of s] by (auto simp: S0)
  from r elector_ok_nth [OF inv i] show ?thesis
  proof (cases rule: tryAcquireOrVerify_cases)
    case (verified s)
    then show ?thesis using elector_ok_nth [OF inv i] local_change_refl [OF inv i] by metis
  next
    case failed
    then show ?thesis using facts(1,4)
      by (auto simp: local_change_def elector_ok_def demoted_def S0)
  next
    case (lost s)
    then show ?thesis using facts(1,4) free [of s]
      by (auto simp: local_change_def elector_ok_def demoted_def S0 lock_defs)
  next
    case (won s)
    then show ?thesis using facts(1,4) free [of s]
      by (auto simp: local_change_def elector_ok_def demoted_def S0 lock_defs split: if_splits)
  qed
qed

lemma Stop_local:
  assumes inv: "lock_inv c" and i: "i < length (cl_electors c)"
    and r: "release E (cl_electors c ! i, cl_server c) = (le, S)"
  shows "elector_ok S le \<and> local_change c i le S"
proof (cases "le_conn (cl_electors c ! i)")
  case None
  with r have "le = cl_electors c ! i" "S = cl_server c" by (simp_all add: release_def)
  then show ?thesis using local_change_refl [OF inv i] elector_ok_nth [OF inv i] by metis
next
  case (Some s)
  then show ?thesis
    using r holder_facts(1) [OF inv i] by (cases "le_unlock E")
      (auto simp: release_def local_change_def elector_ok_def lock_defs split: if_splits)
qed

lemma Crash_local:
  assumes inv: "lock_inv c" and i: "i < length (cl_electors c)"
    and r: "crash (cl_electors c ! i, cl_server c) = (le, S)"
  shows "elector_ok S le \<and> local_change c i le S"
  using r holder_facts(1,4) [OF inv i]
  by (cases "le_conn (cl_electors c ! i)")
     (auto simp: local_change_def elector_ok_def NewLeaderElector_def close_conn_def)

lemma server_change_inv:
  assumes inv: "lock_inv c"
    and "\<And>s. checked_out s c \<Longrightarrow> \<not> ls_closed S s \<and> (ls_live S s \<longrightarrow> ls_holder S = Some s)"
    and "\<And>s. ls_holder S = Some s \<Longrightarrow> ls_live S s \<and> (ls_closed S s \<or> checked_out s c)"
  shows "lock_inv (c\<lparr>cl_server := S\<rparr>)"
proof -
  have "elector_ok S le" if "le \<in> set (cl_electors c)" for le
    using that inv assms(2) by (auto simp: elector_ok_def lock_inv_def checked_out_def list_ex_iff)
  with assms show ?thesis by (auto simp: lock_inv_def checked_out_def)
qed

lemma lock_inv_server:
  assumes "lock_inv c"
  shows "checked_out s c \<Longrightarrow> \<not> ls_closed (cl_server c) s"
    and "checked_out s c \<Longrightarrow> ls_live (cl_server c) s \<Longrightarrow> ls_holder (cl_server c) = Some s"
    and "ls_holder (cl_server c) = Some s \<Longrightarrow> ls_live (cl_server c) s \<and> (ls_closed (cl_server c) s \<or> checked_out s c)"
  using assms by (auto simp: lock_inv_def elector_ok_def checked_out_def list_ex_iff)

lemma cluster_next_inv:
  assumes inv: "lock_inv c" and al: "cluster_allowed e c"
  shows "lock_inv (cluster_next e c)"
proof (cases e)
  case (Check i E)
  with al show ?thesis by (auto intro!: on_replica_inv [OF inv] Check_local [OF inv])
next
  case (Stop i E)
  with al show ?thesis by (auto intro!: on_replica_inv [OF inv] Stop_local [OF inv])
next
  case (Crash i)
  with al show ?thesis by (auto intro!: on_replica_inv [OF inv] Crash_local [OF inv] simp del: crash.simps)
next
  case (Connect s)
  let ?S = "(cl_server c)\<lparr>ls_live := (ls_live (cl_server c))(s := True)\<rparr>"
  have "lock_inv (c\<lparr>cl_server := ?S\<rparr>)"
  proof (rule server_change_inv [OF inv])
    fix s'
    show "checked_out s' c \<Longrightarrow> \<not> ls_closed ?S s' \<and> (ls_live ?S s' \<longrightarrow> ls_holder ?S = Some s')"
      using lock_inv_server(1,2) [OF inv, of s'] al Connect by (cases "s' = s") simp_all
    show "ls_holder ?S = Some s' \<Longrightarrow> ls_live ?S s' \<and> (ls_closed ?S s' \<or> checked_out s' c)"
      using lock_inv_server(3) [OF inv, of s'] by simp
  qed
  with Connect show ?thesis by simp
next
  case (SessionEnd s)
  have "lock_inv (c\<lparr>cl_server := end_session s (cl_server c)\<rparr>)"
  proof (rule server_change_inv [OF inv])
    fix s'
    show "checked_out s' c \<Longrightarrow> \<not> ls_closed (end_session s (cl_server c)) s' \<and>
        (ls_live (end_session s (cl_server c)) s' \<longrightarrow> ls_holder (end_session s (cl_server c)) = Some s')"
      using lock_inv_server(1,2) [OF inv, of s'] by (cases "s' = s") (auto simp: lock_defs)
    show "ls_holder (end_session s (cl_server c)) = Some s' \<Longrightarrow> ls_live (end_session s (cl_server c)) s' \<and>
        (ls_closed (end_session s (cl_server c)) s' \<or> checked_out s' c)"
      using lock_inv_server(3) [OF inv, of s'] by (simp add: lock_defs split: if_splits)
  qed
  with SessionEnd show ?thesis by simp
qed

interpretation election: step_invariant "\<lambda>c. \<exists>n. c = fresh_cluster n" cluster_step lock_inv
proof unfold_locales
  fix c :: cluster
  assume "\<exists>n. c = fresh_cluster n"
  then show "lock_inv c"
    by (auto simp: fresh_cluster_def lock_inv_def elector_ok_def NewLeaderElector_def)
qed (auto simp: cluster_step_iff cluster_next_inv)

section \<open>What leadership means\<close>

lemma on_replica_nth:
  "i < length (cl_electors c) \<Longrightarrow>
     cl_electors (on_replica i f c) ! i = fst (f (cl_electors c ! i, cl_server c)) \<and>
     cl_server (on_replica i f c) = snd (f (cl_electors c ! i, cl_server c)) \<and>
     length (cl_electors (on_replica i f c)) = length (cl_electors c)"
  by (simp add: on_replica_def split: prod.splits)

text \<open>Leadership that the server backs: the session of the replica is live and holds the lock.\<close>

definition backed :: "cluster \<Rightarrow> nat \<Rightarrow> bool" where
  "backed c i \<longleftrightarrow> (case le_conn (cl_electors c ! i) of None \<Rightarrow> False
     | Some s \<Rightarrow> ls_live (cl_server c) s \<and> ls_holder (cl_server c) = Some s)"

lemma checked_is_backed:
  assumes inv: "lock_inv c" and al: "cluster_allowed (Check i E) c"
    and lead: "IsLeader (cl_electors (cluster_next (Check i E) c) ! i)"
  shows "backed (cluster_next (Check i E) c) i"
proof -
  let ?c = "cluster_next (Check i E) c"
  have i: "i < length (cl_electors c)" using al by simp
  obtain le S where r: "tryAcquireOrVerify E (cl_electors c ! i, cl_server c) = (le, S)" by fastforce
  have now: "cl_electors ?c ! i = le" "cl_server ?c = S" "length (cl_electors ?c) = length (cl_electors c)"
    using on_replica_nth [OF i, of "tryAcquireOrVerify E"] r by simp_all
  have "\<exists>s. le_conn le = Some s \<and> ls_live S s"
    using r elector_ok_nth [OF inv i]
  proof (cases rule: tryAcquireOrVerify_cases)
    case (won s)
    then show ?thesis using al by (auto simp: dropped_def lock_defs split: if_splits option.splits)
  qed (use al lead now in \<open>auto simp: IsLeader_def demoted_def\<close>)
  then obtain s where "le_conn le = Some s" "ls_live S s" by blast
  moreover have "ls_holder S = Some s"
    using holder_facts(5) [OF cluster_next_inv [OF inv al], of i s] calculation now i by simp
  ultimately show ?thesis using now by (simp add: backed_def)
qed

text \<open>
  C22. In every reachable state of the cluster, whatever sessions end and whatever processes crash,
  the lock is exclusive: a replica believes itself leader on a connection that the server, as long
  as it has that session, counts as the holder of the lock, so two replicas whose leadership the
  server backs are the same; and a replica whose session is gone steps down at its next check:
  right after a check a replica believes itself leader only if the server backs it.
\<close>

theorem leader_unique:
  assumes run: "run cluster_step (fresh_cluster n) es c"
    and i: "i < length (cl_electors c)" and j: "j < length (cl_electors c)"
  shows "(backed c i \<longrightarrow> backed c j \<longrightarrow> i = j) \<and>
         (IsLeader (cl_electors c ! i) \<longleftrightarrow> (\<exists>s. le_conn (cl_electors c ! i) = Some s \<and>
            (ls_live (cl_server c) s \<longrightarrow> backed c i))) \<and>
         (cluster_allowed (Check i E) c \<longrightarrow> IsLeader (cl_electors (cluster_next (Check i E) c) ! i) \<longrightarrow>
            backed (cluster_next (Check i E) c) i)"
proof -
  have inv: "lock_inv c" using run by (blast intro: election.reachable_invar)
  have "i = j" if "backed c i" "backed c j"
    using that inv i j by (auto simp: backed_def lock_inv_def split: option.splits)
  moreover have "IsLeader (cl_electors c ! i) \<longleftrightarrow> (\<exists>s. le_conn (cl_electors c ! i) = Some s \<and>
            (ls_live (cl_server c) s \<longrightarrow> backed c i))"
    using holder_facts(5,6) [OF inv i] by (auto simp: IsLeader_def backed_def)
  ultimately show ?thesis using checked_is_backed [OF inv] by blast
qed

definition grab :: "nat \<Rightarrow> lock_env" where
  "grab s = \<lparr>le_ping = False, le_acquire = Some s, le_lock = NoFault, le_unlock = NoFault\<rparr>"

lemmas cluster_eval = cluster_step_iff fresh_cluster_def NewLeaderElector_def on_replica_def
  tryAcquireOrVerify_def grab_def checked_out_def lock_defs IsLeader_def backed_def

fun allowed_run :: "cluster_event list \<Rightarrow> cluster \<Rightarrow> bool" where
  "allowed_run [] c \<longleftrightarrow> True"
| "allowed_run (e # es) c \<longleftrightarrow> cluster_allowed e c \<and> allowed_run es (cluster_next e c)"

lemma allowed_run_run: "allowed_run es c \<Longrightarrow> run cluster_step c es (fold cluster_next es c)"
  by (induction es arbitrary: c) (auto intro!: run.intros cluster_step.event)

definition ex_events :: "cluster_event list" where
  "ex_events = [Connect 7, Check 0 (grab 7)]"

definition ex_cluster :: cluster where
  "ex_cluster = fold cluster_next ex_events (fresh_cluster 2)"

lemma ex_cluster_eq:
  "ex_cluster = \<lparr>cl_electors = [\<lparr>le_conn = Some 7, le_isLeader = True\<rparr>, NewLeaderElector],
     cl_server = \<lparr>ls_live = (\<lambda>_. False)(7 := True), ls_closed = (\<lambda>_. False), ls_holder = Some 7\<rparr>\<rparr>"
  by (simp add: ex_cluster_def ex_events_def cluster_eval numeral_2_eq_2)

lemma ex_events_allowed: "allowed_run ex_events (fresh_cluster 2)"
  by (simp add: ex_events_def cluster_eval numeral_2_eq_2)

lemma ex_cluster_run: "run cluster_step (fresh_cluster 2) ex_events ex_cluster"
  using allowed_run_run [OF ex_events_allowed] by (simp add: ex_cluster_def)

lemma allowed_run_append: "allowed_run (xs @ ys) c \<longleftrightarrow> allowed_run xs c \<and> allowed_run ys (fold cluster_next xs c)"
  by (induction xs arbitrary: c) simp_all

lemma ex_cluster_extend:
  assumes "allowed_run es ex_cluster"
  shows "run cluster_step (fresh_cluster 2) (ex_events @ es) (fold cluster_next es ex_cluster)"
  using allowed_run_run [of "ex_events @ es" "fresh_cluster 2"] assms ex_events_allowed
  by (simp add: allowed_run_append ex_cluster_def)

theorem leader_unique_witness:
  "backed ex_cluster 0 \<and> \<not> backed ex_cluster 1"
proof -
  have "length (cl_electors ex_cluster) = 2" "backed ex_cluster 0"
    by (simp_all add: ex_cluster_eq backed_def)
  with leader_unique [OF ex_cluster_run, of 0 1] show ?thesis by auto
qed



text \<open>
  The window: the elector checks every two seconds and \<open>IsLeader\<close> reads a flag, so between the
  end of the leader's session and its next check two replicas believe themselves leader. The
  failure scenarios of the documentation exclude this by a check of the lock before every
  assignment, which the scheduling loop does not make; what keeps the window harmless is that
  every transition of a job is a compare-and-swap in the database.
\<close>

theorem two_leaders_reachable:
  "\<exists>es c. run cluster_step (fresh_cluster 2) es c \<and>
          IsLeader (cl_electors c ! 0) \<and> IsLeader (cl_electors c ! 1) \<and> \<not> backed c 0 \<and> backed c 1"
proof (intro exI conjI)
  let ?es = "[SessionEnd 7, Connect 8, Check 1 (grab 8)]"
  show "run cluster_step (fresh_cluster 2) (ex_events @ ?es) (fold cluster_next ?es ex_cluster)"
    by (rule ex_cluster_extend) (simp add: ex_cluster_eq cluster_eval)
  show "IsLeader (cl_electors (fold cluster_next ?es ex_cluster) ! 0)"
    "IsLeader (cl_electors (fold cluster_next ?es ex_cluster) ! 1)"
    "\<not> backed (fold cluster_next ?es ex_cluster) 0" "backed (fold cluster_next ?es ex_cluster) 1"
    by (simp_all add: ex_cluster_eq cluster_eval)
qed

end
