(* ===== verification/System.thy ===== *)
theory System
  imports StoreClients Leader
begin

text \<open>
  The deployed control plane: any number of scheduler replicas (\<open>cmd/scheduler\<close>), each with its leader elector, its
  autoscaler and its four background loops, in front of one database and one Redis. Every replica serves gRPC and
  REST; the loops read \<open>IsLeader\<close> of their own replica at each iteration. One step of the system is one handler call,
  one iteration of a loop, or one event of the election; workers and operators may call anything at any time.
\<close>

section \<open>The system\<close>

record 'r deployment =
  dp_redis :: "'r redis_client"
  dp_server :: Server
  dp_router :: router
  dp_timeoutSeconds :: int

definition consumerName :: string where
  "consumerName = ''scheduler-leader''"

record 'r system =
  sy_world :: "'r world"
  sy_cluster :: cluster
  sy_scalers :: "Autoscaler list"

datatype system_event =
    Election cluster_event
  | CallRegister call_env string RegisterWorkerParams
  | CallHeartbeat call_env HeartbeatRequest
  | CallReport call_env ReportJobResultRequest
  | CallRest call_env string string route
  | TickLoop nat "string \<Rightarrow> fault" "string \<Rightarrow> string \<Rightarrow> string \<Rightarrow> call_env"
  | TickReaper nat call_env "string \<Rightarrow> call_env"
  | TickPoller nat call_env "string \<Rightarrow> call_env"
  | TickScaler nat call_env

definition leads :: "'r system \<Rightarrow> nat \<Rightarrow> bool" where
  "leads s i = IsLeader (cl_electors (sy_cluster s) ! i)"

fun restart_scaler :: "cluster_event \<Rightarrow> Autoscaler list \<Rightarrow> Autoscaler list" where
  "restart_scaler (Crash i) as = as[i := NewAutoscaler DefaultAutoscalerConfig]"
| "restart_scaler _ as = as"

fun system_next :: "'r deployment \<Rightarrow> system_event \<Rightarrow> 'r system \<Rightarrow> 'r system" where
  "system_next D (Election e) s =
     s\<lparr>sy_cluster := cluster_next e (sy_cluster s), sy_scalers := restart_scaler e (sy_scalers s)\<rparr>"
| "system_next D (CallRegister E uuid req) s =
     s\<lparr>sy_world := snd (RegisterWorker (dp_redis D) (dp_server D) E uuid req (sy_world s))\<rparr>"
| "system_next D (CallHeartbeat E req) s =
     s\<lparr>sy_world := snd (handleHeartbeat (dp_redis D) (dp_server D) E req (sy_world s))\<rparr>"
| "system_next D (CallReport E req) s =
     s\<lparr>sy_world := snd (ReportJobResult (dp_redis D) E req (sy_world s))\<rparr>"
| "system_next D (CallRest E uuid authorization rt) s =
     s\<lparr>sy_world := snd (NewRouter (dp_router D) (dp_redis D) E uuid authorization rt (sy_world s))\<rparr>"
| "system_next D (TickLoop i f Em) s =
     s\<lparr>sy_world := loop_iteration (dp_redis D) consumerName f Em (leads s i) (sy_world s)\<rparr>"
| "system_next D (TickReaper i E Ew) s =
     s\<lparr>sy_world := reaper_tick (dp_redis D) E Ew (dp_timeoutSeconds D) (leads s i) (sy_world s)\<rparr>"
| "system_next D (TickPoller i E Ej) s =
     s\<lparr>sy_world := poller_tick (dp_redis D) E Ej (leads s i) (sy_world s)\<rparr>"
| "system_next D (TickScaler i E) s =
     (let (e, a, w) = autoscaler_iteration (dp_redis D) E (leads s i) (sy_scalers s ! i, sy_world s)
      in s\<lparr>sy_world := w, sy_scalers := (sy_scalers s)[i := a]\<rparr>)"

text \<open>
  What the environment keeps to: the contract of the PostgreSQL lock server, an agent does not report itself \<open>DEAD\<close>,
  \<open>gen_random_uuid()\<close> is fresh, and a submission asks for fewer than \<open>2^31 - 1\<close> retries.
\<close>

fun system_allowed :: "system_event \<Rightarrow> 'r system \<Rightarrow> bool" where
  "system_allowed (Election e) s \<longleftrightarrow> cluster_allowed e (sy_cluster s)"
| "system_allowed (CallHeartbeat E req) s \<longleftrightarrow> hb_Status req \<noteq> WORKER_STATUS_DEAD"
| "system_allowed (CallRest E uuid authorization rt) s \<longleftrightarrow> rest_guard uuid rt (sy_world s)"
| "system_allowed (TickLoop i f Em) s \<longleftrightarrow> i < length (cl_electors (sy_cluster s))"
| "system_allowed (TickReaper i E Ew) s \<longleftrightarrow> i < length (cl_electors (sy_cluster s))"
| "system_allowed (TickPoller i E Ej) s \<longleftrightarrow> i < length (cl_electors (sy_cluster s))"
| "system_allowed (TickScaler i E) s \<longleftrightarrow> i < length (cl_electors (sy_cluster s)) \<and> i < length (sy_scalers s)"
| "system_allowed _ s \<longleftrightarrow> True"

inductive system_step :: "'r deployment \<Rightarrow> 'r system \<Rightarrow> system_event \<Rightarrow> 'r system \<Rightarrow> bool" for D where
  event: "system_allowed e s \<Longrightarrow> system_step D s e (system_next D e s)"

inductive_simps system_step_iff: "system_step D s e s'"

definition fresh_system :: "nat \<Rightarrow> 'r \<Rightarrow> 'r system" where
  "fresh_system n r =
     \<lparr>sy_world = \<lparr>wdb = empty_db, wrd = r\<rparr>, sy_cluster = fresh_cluster n,
      sy_scalers = replicate n (NewAutoscaler DefaultAutoscalerConfig)\<rparr>"

abbreviation sy_db :: "'r system \<Rightarrow> db" where
  "sy_db s \<equiv> wdb (sy_world s)"

section \<open>Every step is a sequence of store calls\<close>

fun kinds_of :: "system_event \<Rightarrow> op_kind set" where
  "kinds_of (Election e) = {}"
| "kinds_of (CallRegister E uuid req) = {KRegister}"
| "kinds_of (CallHeartbeat E req) = {KRunning, KHeartbeat}"
| "kinds_of (CallReport E req) = {KResult, KFree}"
| "kinds_of (CallRest E uuid authorization rt) = {KCreate, KDrain, KResume}"
| "kinds_of (TickLoop i f Em) = {KAssign}"
| "kinds_of (TickReaper i E Ew) = {KMarkDead}"
| "kinds_of (TickPoller i E Ej) = {KRequeue}"
| "kinds_of (TickScaler i E) = {KDrain}"

lemma next_calls:
  assumes "system_allowed e s"
  shows "store_calls (kinds_of e) (sy_db s) (sy_db (system_next D e s))"
proof (cases e)
  case (TickScaler i E)
  with scaler_client.calls [OF TrueI, of "sy_world s" "dp_redis D" E "leads s i" "sy_scalers s ! i"] show ?thesis
    by (auto split: prod.splits)
qed (use assms in \<open>simp_all add: register_client.calls heartbeat_client.calls report_client.calls rest_client.calls
  loop_client.calls reaper_client.calls poller_client.calls\<close>)

lemma step_calls: "system_step D s e s' \<Longrightarrow> store_calls (kinds_of e) (sy_db s) (sy_db s')"
  by (auto simp: system_step_iff next_calls)

lemma step_inv: "system_step D s e s' \<Longrightarrow> db_inv (sy_db s) \<Longrightarrow> db_inv (sy_db s')"
  using step_calls store.invar_run unfolding store_calls_def by blast

lemma step_cluster:
  assumes "system_step D s e s'"
  shows "sy_cluster s' = sy_cluster s \<or> (\<exists>c. cluster_step (sy_cluster s) c (sy_cluster s'))"
  using assms by (cases e) (auto simp: system_step_iff cluster_step_iff split: prod.splits)

lemma step_lock: "system_step D s e s' \<Longrightarrow> lock_inv (sy_cluster s) \<Longrightarrow> lock_inv (sy_cluster s')"
  using step_cluster election.invar_step by metis

lemma fresh_lock: "lock_inv (fresh_cluster n)"
  by (rule election.invar_start) blast

interpretation system_run: step_invariant "\<lambda>s. \<exists>n r. s = fresh_system n r" "system_step D"
    "\<lambda>s. db_inv (sy_db s) \<and> lock_inv (sy_cluster s)" for D
proof unfold_locales
  fix s :: "'a system"
  assume "\<exists>n r. s = fresh_system n r"
  then show "db_inv (sy_db s) \<and> lock_inv (sy_cluster s)"
    by (auto simp: fresh_system_def db_inv_empty fresh_lock)
qed (auto dest: step_inv step_lock)

lemma system_inv: "run (system_step D) (fresh_system n r) es s \<Longrightarrow> db_inv (sy_db s) \<and> lock_inv (sy_cluster s)"
  by (rule system_run.reachable_invar) auto

lemma run_calls: "run (system_step D) s es s' \<Longrightarrow> \<exists>ops. run store_step (sy_db s) ops (sy_db s')"
proof (induction rule: run.induct)
  case (run_cons s e s1 es s2)
  then show ?case using step_calls run_append unfolding store_calls_def by metis
qed (blast intro: run_nil)

section \<open>What the whole system guarantees\<close>



section \<open>A run of the system\<close>

fun allowed_events :: "'r deployment \<Rightarrow> system_event list \<Rightarrow> 'r system \<Rightarrow> bool" where
  "allowed_events D [] s \<longleftrightarrow> True"
| "allowed_events D (e # es) s \<longleftrightarrow> system_allowed e s \<and> allowed_events D es (system_next D e s)"

lemma allowed_events_run: "allowed_events D es s \<Longrightarrow> run (system_step D) s es (fold (system_next D) es s)"
  by (induction es arbitrary: s) (auto intro!: run.intros system_step.event)

definition ex_deployment :: "mem_server deployment" where
  "ex_deployment = \<lparr>dp_redis = mem_redis, dp_server = ex_server, dp_router = ex_router\<lparr>rt_jwtSecret := ''''\<rparr>,
                    dp_timeoutSeconds = 20\<rparr>"

definition ex_history :: "system_event list" where
  "ex_history =
     [Election (Connect 7), Election (Check 0 (grab 7)), CallRegister (calm 1) ''w1'' (ex_params\<lparr>rp_Capabilities := Some [''docker'']\<rparr>),
      CallRest (calm 2) ''j7'' '''' (PostJobs (Some ex_submit))]"

definition ex_system :: "mem_server system" where
  "ex_system = fold (system_next ex_deployment) ex_history (fresh_system 2 mem_empty)"

lemma RegisterWorker_jobs: "jobs (wdb (snd (RegisterWorker C S E uuid req w))) = jobs (wdb w)"
  using worker_ops_jobs(1) [of "ce_pg E" "ce_now E S_register_upsert" uuid req "wdb w"]
  by (auto simp: RegisterWorker_def Let_def split: prod.splits sum.splits)

lemma ex_history_allowed: "allowed_events ex_deployment ex_history (fresh_system 2 mem_empty)"
  by (simp add: ex_history_def fresh_system_def cluster_eval RegisterWorker_jobs empty_db_def ex_submit_def max_int32_def
      numeral_2_eq_2)

lemma ex_system_run: "run (system_step ex_deployment) (fresh_system 2 mem_empty) ex_history ex_system"
  unfolding ex_system_def by (rule allowed_events_run [OF ex_history_allowed])

lemma ex_system_cluster: "sy_cluster ex_system = ex_cluster"
  by (simp add: ex_system_def ex_history_def ex_cluster_def ex_events_def fresh_system_def)

lemma ex_system_leads: "leads ex_system 0" "\<not> leads ex_system 1" "length (cl_electors (sy_cluster ex_system)) = 2"
  by (simp_all add: leads_def ex_system_cluster ex_cluster_eq IsLeader_def NewLeaderElector_def)



end
