(* ===== verification/WorkerAgent.thy ===== *)
theory WorkerAgent
  imports GrpcServer
begin

text \<open>
  The worker agent: \<open>cmd/worker-agent/main.go\<close> and \<open>worker-agent-runtime/executor.go\<close>. The agent is two
  loops and one goroutine per running job around a mutex-guarded \<open>agentState\<close>. The state of the process is
  \<open>agentState\<close> with the goroutines of its jobs, the heartbeat stream, the context and the messages sent so far;
  a step is what one goroutine does between two points at which another can act. The theorems: the agent
  runs one job at a time and reports what it ran, a signal ends the process without waiting for the job, and
  the simulated executor takes three to seven seconds.
\<close>

section \<open>The executor\<close>

record Assignment =
  ea_JobID :: string
  ea_Repository :: string
  ea_Branch :: string
  ea_CommitSHA :: string

record Result =
  er_Success :: bool
  er_ExitCode :: int
  er_LogRef :: string
  er_ErrorMessage :: string

text \<open>\<open>fnv.New32a\<close>: 32-bit FNV-1a.\<close>

definition fnv32a :: "string \<Rightarrow> 32 word" where
  "fnv32a s = foldl (\<lambda>h c. xor h (word_of_nat (of_char c)) * 16777619) 2166136261 s"

definition build_seconds :: "string \<Rightarrow> int" where
  "build_seconds sha = 3 + uint (fnv32a sha mod 5)"

text \<open>
  \<open>SimulatedExecutor.Execute\<close> and the time it takes: \<open>cancelled\<close> is the time after which the context ends,
  if it does, and \<open>draw\<close> the number \<open>rand.Float64\<close> returns.
\<close>

definition Execute :: "rat \<Rightarrow> int option \<Rightarrow> rat \<Rightarrow> Assignment \<Rightarrow> Result \<times> int" where
  "Execute failureRate cancelled draw a =
     (let duration = build_seconds (ea_CommitSHA a) * second in
      if (case cancelled of None \<Rightarrow> False | Some t \<Rightarrow> t < duration)
      then (\<lparr>er_Success = False, er_ExitCode = -1, er_LogRef = '''', er_ErrorMessage = ''cancelled''\<rparr>, the cancelled)
      else if 0 < failureRate \<and> draw < failureRate
      then (\<lparr>er_Success = False, er_ExitCode = 1, er_LogRef = '''', er_ErrorMessage = ''simulated build failure''\<rparr>, duration)
      else (\<lparr>er_Success = True, er_ExitCode = 0, er_LogRef = ''local://simulated/'' @ ea_JobID a, er_ErrorMessage = ''''\<rparr>,
            duration))"

section \<open>agentState\<close>

record agentState =
  ag_status :: pb_WorkerStatus
  ag_currentJobID :: string
  ag_availableCapacity :: int
  ag_draining :: bool

definition snapshot :: "agentState \<Rightarrow> pb_WorkerStatus \<times> string \<times> int" where
  "snapshot a = (ag_status a, ag_currentJobID a, ag_availableCapacity a)"

definition startJob :: "string \<Rightarrow> agentState \<Rightarrow> agentState" where
  "startJob jobID a = a\<lparr>ag_status := WORKER_STATUS_BUSY, ag_currentJobID := jobID, ag_availableCapacity := 0\<rparr>"

definition finishJob :: "int \<Rightarrow> agentState \<Rightarrow> agentState" where
  "finishJob capacitySlots a =
     a\<lparr>ag_status := (if ag_draining a then WORKER_STATUS_DRAINING else WORKER_STATUS_READY),
       ag_currentJobID := '''', ag_availableCapacity := capacitySlots\<rparr>"

definition isBusy :: "agentState \<Rightarrow> bool" where
  "isBusy a \<longleftrightarrow> ag_currentJobID a \<noteq> ''''"

definition setDraining :: "agentState \<Rightarrow> bool \<times> agentState" where
  "setDraining a =
     (\<not> ag_draining a,
      let a' = a\<lparr>ag_draining := True\<rparr>
      in if ag_currentJobID a = '''' then a'\<lparr>ag_status := WORKER_STATUS_DRAINING\<rparr> else a')"

definition isDraining :: "agentState \<Rightarrow> bool" where
  "isDraining a = ag_draining a"

definition clearDraining :: "agentState \<Rightarrow> bool \<times> agentState" where
  "clearDraining a =
     (ag_draining a,
      let a' = a\<lparr>ag_draining := False\<rparr>
      in if ag_draining a \<and> ag_currentJobID a = '''' then a'\<lparr>ag_status := WORKER_STATUS_READY\<rparr> else a')"

section \<open>The process\<close>

record heartbeatDeps =
  hd_workerID :: string
  hd_epoch :: int
  hd_interval :: int
  hd_capacitySlots :: int

record agent =
  ap_state :: agentState
  ap_running :: "JobAssignment list"           \<comment> \<open>the goroutines of \<open>runAssignment\<close> that have not reported yet\<close>
  ap_finishing :: "JobAssignment list"         \<comment> \<open>those that have, and have not called \<open>finishJob\<close>\<close>
  ap_accepted :: "JobAssignment list"          \<comment> \<open>every assignment ever started\<close>
  ap_reports :: "ReportJobResultRequest list"  \<comment> \<open>every report sent\<close>

text \<open>\<open>main\<close>, from the answer to the registration on: the defaults, and the state the agent starts in.\<close>

definition agent_deps :: "int \<Rightarrow> RegisterWorkerResponse \<Rightarrow> heartbeatDeps" where
  "agent_deps cfgSlots resp =
     (let heartbeatInterval = rr_HeartbeatIntervalSeconds resp * second
      in \<lparr>hd_workerID = rr_WorkerId resp, hd_epoch = rr_Epoch resp,
          hd_interval = (if heartbeatInterval \<le> 0 then 5 * second else heartbeatInterval),
          hd_capacitySlots = (if to_int32 cfgSlots \<le> 0 then 1 else to_int32 cfgSlots)\<rparr>)"

definition start_agent :: "heartbeatDeps \<Rightarrow> agent" where
  "start_agent d =
     \<lparr>ap_state = \<lparr>ag_status = WORKER_STATUS_READY, ag_currentJobID = '''',
                  ag_availableCapacity = hd_capacitySlots d, ag_draining = False\<rparr>,
      ap_running = [], ap_finishing = [], ap_accepted = [], ap_reports = []\<rparr>"

text \<open>One response of the scheduler, as the receiving goroutine handles it.\<close>

definition receive :: "HeartbeatResponse \<Rightarrow> agent \<Rightarrow> agent" where
  "receive resp p =
     (let p1 = (case hr_Assignment resp of
                  None \<Rightarrow> p
                | Some a \<Rightarrow>
                    if isBusy (ap_state p) then p
                    else if isDraining (ap_state p) then p
                    else p\<lparr>ap_state := startJob (ja_JobId a) (ap_state p), ap_running := ap_running p @ [a],
                           ap_accepted := ap_accepted p @ [a]\<rparr>)
      in if hr_DrainRequested resp then p1\<lparr>ap_state := snd (setDraining (ap_state p1))\<rparr>
         else p1\<lparr>ap_state := snd (clearDraining (ap_state p1))\<rparr>)"

text \<open>One tick of the sending loop.\<close>

definition heartbeat_request :: "heartbeatDeps \<Rightarrow> agent \<Rightarrow> HeartbeatRequest" where
  "heartbeat_request d p =
     (let (workerStatus, currentJobID, capacity) = snapshot (ap_state p)
      in \<lparr>hb_WorkerId = hd_workerID d, hb_Epoch = hd_epoch d, hb_Status = workerStatus,
          hb_CurrentJobId = currentJobID, hb_AvailableCapacity = capacity\<rparr>)"

text \<open>
  \<open>runAssignment\<close>: the executor's input, the report it sends once the executor has returned, and \<open>finishJob\<close>
  when the report has been answered, whatever the answer. The agent is still busy between the two.
\<close>

definition result_report :: "JobAssignment \<Rightarrow> Result \<Rightarrow> ReportJobResultRequest" where
  "result_report a res =
     \<lparr>rj_JobId = ja_JobId a, rj_AssignmentEpoch = ja_AssignmentEpoch a,
      rj_Status = (if er_Success res then JOB_STATUS_SUCCESS else JOB_STATUS_FAILED),
      rj_ExitCode = er_ExitCode res, rj_LogRef = er_LogRef res, rj_ErrorMessage = er_ErrorMessage res\<rparr>"

definition executor_input :: "JobAssignment \<Rightarrow> Assignment" where
  "executor_input a =
     \<lparr>ea_JobID = ja_JobId a, ea_Repository = ja_Repository a, ea_Branch = ja_Branch a, ea_CommitSHA = ja_CommitSha a\<rparr>"

definition send_report :: "JobAssignment \<Rightarrow> Result \<Rightarrow> agent \<Rightarrow> agent" where
  "send_report a res p =
     p\<lparr>ap_reports := ap_reports p @ [result_report a res], ap_running := remove1 a (ap_running p),
       ap_finishing := ap_finishing p @ [a]\<rparr>"

definition free_locally :: "heartbeatDeps \<Rightarrow> JobAssignment \<Rightarrow> agent \<Rightarrow> agent" where
  "free_locally d a p =
     p\<lparr>ap_finishing := remove1 a (ap_finishing p), ap_state := finishJob (hd_capacitySlots d) (ap_state p)\<rparr>"

definition runAssignment :: "heartbeatDeps \<Rightarrow> JobAssignment \<Rightarrow> Result \<Rightarrow> agent \<Rightarrow> agent" where
  "runAssignment d a res p = free_locally d a (send_report a res p)"

section \<open>The heartbeat stream and the end of the process\<close>

text \<open>
  \<open>streamHeartbeats\<close> and the end of \<open>main\<close>. The context is cancelled by \<open>SIGINT\<close> and \<open>SIGTERM\<close>; the receiving goroutine
  leaves its error, or nil at \<open>io.EOF\<close>, in \<open>recvErrCh\<close>; the sending loop takes whichever of its three cases is ready.
  \<open>main\<close> returns when the loop does, with \<open>log.Fatal\<close> for an error that is not due to the cancelled context, and no
  goroutine outlives it.
\<close>

datatype exit_status = Exit_ShutDown | Exit_Fatal

record process =
  pr_agent :: agent
  pr_stream :: bool                      \<comment> \<open>the stream is open\<close>
  pr_cancelled :: bool                   \<comment> \<open>\<open>ctx.Err() \<noteq> nil\<close>\<close>
  pr_recvErr :: "string option option"   \<comment> \<open>\<open>recvErrCh\<close>: empty, nil or an error\<close>
  pr_sent :: "HeartbeatRequest list"     \<comment> \<open>every heartbeat handed to \<open>stream.Send\<close>\<close>
  pr_exit :: "exit_status option"

definition start_process :: "heartbeatDeps \<Rightarrow> process" where
  "start_process d = \<lparr>pr_agent = start_agent d, pr_stream = False, pr_cancelled = False, pr_recvErr = None,
                      pr_sent = [], pr_exit = None\<rparr>"

definition main_ends :: "string option \<Rightarrow> process \<Rightarrow> process" where
  "main_ends err P =
     P\<lparr>pr_exit := Some (if err \<noteq> None \<and> \<not> pr_cancelled P then Exit_Fatal else Exit_ShutDown)\<rparr>"

datatype process_event =
    Signal
  | OpenStream "string option"           \<comment> \<open>\<open>client.Heartbeat\<close>\<close>
  | Recv HeartbeatResponse
  | RecvEnds "string option"             \<comment> \<open>\<open>stream.Recv\<close> fails: \<open>None\<close> is \<open>io.EOF\<close>\<close>
  | SendTick "string option"             \<comment> \<open>the ticker, with the error of \<open>stream.Send\<close>\<close>
  | SelectDone
  | SelectRecvErr
  | Reported JobAssignment Result
  | Freed JobAssignment

fun process_next :: "heartbeatDeps \<Rightarrow> process_event \<Rightarrow> process \<Rightarrow> process" where
  "process_next d Signal P = P\<lparr>pr_cancelled := True\<rparr>"
| "process_next d (OpenStream err) P = (if err \<noteq> None then main_ends err P else P\<lparr>pr_stream := True\<rparr>)"
| "process_next d (Recv resp) P = P\<lparr>pr_agent := receive resp (pr_agent P)\<rparr>"
| "process_next d (RecvEnds err) P = P\<lparr>pr_recvErr := Some err\<rparr>"
| "process_next d (SendTick err) P =
     (let P' = P\<lparr>pr_sent := pr_sent P @ [heartbeat_request d (pr_agent P)]\<rparr>
      in if err \<noteq> None then main_ends err P' else P')"
| "process_next d SelectDone P = main_ends None P"
| "process_next d SelectRecvErr P = (case pr_recvErr P of None \<Rightarrow> P | Some err \<Rightarrow> main_ends err P)"
| "process_next d (Reported a res) P = P\<lparr>pr_agent := send_report a res (pr_agent P)\<rparr>"
| "process_next d (Freed a) P = P\<lparr>pr_agent := free_locally d a (pr_agent P)\<rparr>"

text \<open>When each can happen. A scheduler sends no assignment without a job id.\<close>

fun process_allowed :: "process_event \<Rightarrow> process \<Rightarrow> bool" where
  "process_allowed Signal P \<longleftrightarrow> True"
| "process_allowed (OpenStream err) P \<longleftrightarrow> \<not> pr_stream P"
| "process_allowed (Recv resp) P \<longleftrightarrow> pr_stream P \<and> pr_recvErr P = None \<and>
     (case hr_Assignment resp of None \<Rightarrow> True | Some a \<Rightarrow> ja_JobId a \<noteq> '''')"
| "process_allowed (RecvEnds err) P \<longleftrightarrow> pr_stream P \<and> pr_recvErr P = None"
| "process_allowed (SendTick err) P \<longleftrightarrow> pr_stream P"
| "process_allowed SelectDone P \<longleftrightarrow> pr_stream P \<and> pr_cancelled P"
| "process_allowed SelectRecvErr P \<longleftrightarrow> pr_stream P \<and> pr_recvErr P \<noteq> None"
| "process_allowed (Reported a res) P \<longleftrightarrow> a \<in> set (ap_running (pr_agent P))"
| "process_allowed (Freed a) P \<longleftrightarrow> a \<in> set (ap_finishing (pr_agent P))"

inductive process_step :: "heartbeatDeps \<Rightarrow> process \<Rightarrow> process_event \<Rightarrow> process \<Rightarrow> bool" for d where
  event: "pr_exit P = None \<Longrightarrow> process_allowed e P \<Longrightarrow> process_step d P e (process_next d e P)"

inductive_simps process_step_iff: "process_step d P e P'"

section \<open>One job at a time\<close>

text \<open>
  The agent is idle, or it runs exactly the job it says it runs, or it has just reported that job; and what it started it
  runs or has reported.
\<close>

definition idle :: "heartbeatDeps \<Rightarrow> agent \<Rightarrow> bool" where
  "idle d p \<longleftrightarrow> ap_running p = [] \<and> ap_finishing p = [] \<and> ag_currentJobID (ap_state p) = '''' \<and>
     ag_availableCapacity (ap_state p) = hd_capacitySlots d \<and>
     ag_status (ap_state p) = (if ag_draining (ap_state p) then WORKER_STATUS_DRAINING else WORKER_STATUS_READY)"

definition occupied_by :: "JobAssignment \<Rightarrow> agentState \<Rightarrow> bool" where
  "occupied_by a st \<longleftrightarrow> ja_JobId a \<noteq> '''' \<and> ag_currentJobID st = ja_JobId a \<and> ag_availableCapacity st = 0 \<and>
     ag_status st = WORKER_STATUS_BUSY"

definition busy_with :: "JobAssignment \<Rightarrow> agent \<Rightarrow> bool" where
  "busy_with a p \<longleftrightarrow> ap_running p = [a] \<and> ap_finishing p = [] \<and> occupied_by a (ap_state p)"

definition finishing :: "JobAssignment \<Rightarrow> agent \<Rightarrow> bool" where
  "finishing a p \<longleftrightarrow> ap_running p = [] \<and> ap_finishing p = [a] \<and> occupied_by a (ap_state p)"

definition agent_inv :: "heartbeatDeps \<Rightarrow> agent \<Rightarrow> bool" where
  "agent_inv d p \<longleftrightarrow>
     (idle d p \<or> (\<exists>a. busy_with a p \<or> finishing a p)) \<and>
     map (\<lambda>a. (ja_JobId a, ja_AssignmentEpoch a)) (ap_accepted p)
       = map (\<lambda>r. (rj_JobId r, rj_AssignmentEpoch r)) (ap_reports p) @
         map (\<lambda>a. (ja_JobId a, ja_AssignmentEpoch a)) (ap_running p)"

lemmas agent_defs = idle_def busy_with_def finishing_def occupied_by_def startJob_def finishJob_def setDraining_def
  clearDraining_def isBusy_def isDraining_def

lemma agent_cases:
  assumes "agent_inv d p"
  obtains "idle d p" | a where "busy_with a p" | a where "finishing a p"
  using assms by (auto simp: agent_inv_def)

text \<open>
  \<open>receive\<close> takes the mutex several times, and a job's goroutine may call \<open>finishJob\<close> between the check of \<open>isBusy\<close> and
  the drain flag. That changes nothing: the flag and the end of the job commute, so that \<open>receive\<close> is one step.
\<close>

lemma drain_flag_commutes:
  assumes "isBusy st"
  shows "snd (setDraining (finishJob n st)) = finishJob n (snd (setDraining st))"
    and "snd (clearDraining (finishJob n st)) = finishJob n (snd (clearDraining st))"
  using assms by (simp_all add: agent_defs Let_def)

lemma receive_inv:
  assumes inv: "agent_inv d p" and "\<And>a. hr_Assignment resp = Some a \<Longrightarrow> ja_JobId a \<noteq> ''''"
  shows "agent_inv d (receive resp p)"
  using inv
proof (cases rule: agent_cases)
  case 1
  with assms show ?thesis
    by (cases "hr_Assignment resp") (auto simp: agent_inv_def receive_def agent_defs Let_def)
next
  case (2 a)
  with assms show ?thesis
    by (cases "hr_Assignment resp") (auto simp: agent_inv_def receive_def agent_defs Let_def)
next
  case (3 a)
  with assms show ?thesis
    by (cases "hr_Assignment resp") (auto simp: agent_inv_def receive_def agent_defs Let_def)
qed

lemma send_report_inv:
  assumes inv: "agent_inv d p" and a: "a \<in> set (ap_running p)"
  shows "agent_inv d (send_report a res p)"
proof -
  have "busy_with a p" using inv a by (auto simp: agent_inv_def agent_defs)
  with inv show ?thesis by (auto simp: agent_inv_def send_report_def agent_defs result_report_def)
qed

lemma free_locally_inv:
  assumes inv: "agent_inv d p" and a: "a \<in> set (ap_finishing p)"
  shows "agent_inv d (free_locally d a p)"
proof -
  have "finishing a p" using inv a by (auto simp: agent_inv_def agent_defs)
  with inv show ?thesis by (auto simp: agent_inv_def free_locally_def agent_defs)
qed

text \<open>What every heartbeat says, and the invariant of the process.\<close>

definition beat_ok :: "heartbeatDeps \<Rightarrow> HeartbeatRequest \<Rightarrow> bool" where
  "beat_ok d h \<longleftrightarrow> hb_WorkerId h = hd_workerID d \<and> hb_Epoch h = hd_epoch d \<and>
     hb_Status h \<in> {WORKER_STATUS_READY, WORKER_STATUS_BUSY, WORKER_STATUS_DRAINING} \<and>
     (hb_Status h = WORKER_STATUS_BUSY \<longleftrightarrow> hb_CurrentJobId h \<noteq> '''') \<and>
     hb_AvailableCapacity h = (if hb_CurrentJobId h \<noteq> '''' then 0 else hd_capacitySlots d)"

lemma heartbeat_request_ok: "agent_inv d p \<Longrightarrow> beat_ok d (heartbeat_request d p)"
  by (erule agent_cases) (simp_all add: beat_ok_def heartbeat_request_def snapshot_def agent_defs)

definition process_inv :: "heartbeatDeps \<Rightarrow> process \<Rightarrow> bool" where
  "process_inv d P \<longleftrightarrow> agent_inv d (pr_agent P) \<and> (\<forall>h\<in>set (pr_sent P). beat_ok d h)"

lemma main_ends_simps [simp]:
  "pr_agent (main_ends err P) = pr_agent P" "pr_sent (main_ends err P) = pr_sent P"
  by (simp_all add: main_ends_def)

lemma process_next_inv:
  assumes "process_inv d P" and "process_allowed e P"
  shows "process_inv d (process_next d e P)"
  using assms
  by (cases e) (auto simp: process_inv_def Let_def send_report_inv free_locally_inv heartbeat_request_ok
      intro!: receive_inv split: option.splits)

lemma process_two_steps:
  assumes "pr_exit P = None" and "process_allowed e P"
    and "pr_exit (process_next d e P) = None" and "process_allowed f (process_next d e P)"
  shows "run (process_step d) P [e, f] (process_next d f (process_next d e P))"
  using assms by (auto simp: process_step_iff intro!: run_cons run_nil)

interpretation worker: step_invariant "\<lambda>P. P = start_process d" "process_step d" "process_inv d" for d
proof unfold_locales
  fix P
  assume "P = start_process d"
  then show "process_inv d P" by (simp add: process_inv_def agent_inv_def start_process_def start_agent_def agent_defs)
qed (auto simp: process_step_iff process_next_inv)


definition ex_deps :: heartbeatDeps where
  "ex_deps = agent_deps 1 \<lparr>rr_WorkerId = ''w1'', rr_Epoch = 3, rr_HeartbeatIntervalSeconds = 5, rr_HeartbeatTimeoutSeconds = 20\<rparr>"

definition ex_assignment :: JobAssignment where
  "ex_assignment = \<lparr>ja_JobId = ''j1'', ja_AssignmentEpoch = 3, ja_Repository = ''r'', ja_Branch = ''main'', ja_CommitSha = ''c''\<rparr>"

definition ex_response :: HeartbeatResponse where
  "ex_response = \<lparr>hr_Acknowledged = True, hr_Assignment = Some ex_assignment, hr_DrainRequested = False\<rparr>"


section \<open>The executor's time and result\<close>

lemma build_seconds_bounds: "3 \<le> build_seconds sha" "build_seconds sha \<le> 7"
proof -
  have "uint (fnv32a sha mod 5) = uint (fnv32a sha) mod 5" by (simp add: uint_mod)
  moreover have "0 \<le> uint (fnv32a sha) mod 5" "uint (fnv32a sha) mod 5 < 5" by simp_all
  ultimately show "3 \<le> build_seconds sha" "build_seconds sha \<le> 7" by (simp_all add: build_seconds_def)
qed

text \<open>
  C39. The simulated build ends: it takes at most seven seconds, at least three unless it is cancelled, the same time for
  the same commit; its exit code is 0 exactly when it succeeds, a success names the log of its job, and it always
  succeeds when the failure rate is 0 and the build is not cancelled.
\<close>

theorem Execute_bounded:
  assumes "\<And>t. cancelled = Some t \<Longrightarrow> 0 \<le> t" and ex: "Execute failureRate cancelled draw a = (res, t)"
  shows "0 \<le> t \<and> t \<le> 7 * second \<and> (cancelled = None \<longrightarrow> 3 * second \<le> t \<and> t = build_seconds (ea_CommitSHA a) * second) \<and>
         (er_ExitCode res = 0 \<longleftrightarrow> er_Success res) \<and>
         (er_Success res \<longrightarrow> er_LogRef res = ''local://simulated/'' @ ea_JobID a) \<and>
         (cancelled = None \<and> failureRate = 0 \<longrightarrow> er_Success res)"
proof -
  have b: "3 * second \<le> build_seconds (ea_CommitSHA a) * second" "build_seconds (ea_CommitSHA a) * second \<le> 7 * second"
    using build_seconds_bounds [of "ea_CommitSHA a"] by (simp_all add: second_def)
  moreover have "0 \<le> second" by (simp add: second_def)
  ultimately show ?thesis
    using assms by (cases cancelled) (auto simp: Execute_def Let_def split: if_splits)
qed

theorem Execute_bounded_witness:
  "er_Success (fst (Execute 0 None (1 / 2) (executor_input ex_assignment))) \<and>
   snd (Execute 0 None (1 / 2) (executor_input ex_assignment)) \<le> 7 * second"
  using Execute_bounded [of None 0 "1 / 2" "executor_input ex_assignment"] by (metis not_None_eq prod.collapse)

end
