(* ===== verification/Config.thy ===== *)
theory Config
  imports Complex_Main GoLib "HOL-Library.AList"
begin

text \<open>
  \<open>internal/config/config.go\<close>: the configuration of the scheduler and of the worker agent, read from the environment. The
  environment is a function that gives the empty string for a variable that is not set, as \<open>os.Getenv\<close> does;
  \<open>strconv.ParseFloat\<close> is a parameter. A map is an association list with one entry per key.
\<close>

section \<open>Reading\<close>

type_synonym env = "string \<Rightarrow> string"

datatype config_error =
    IsRequired string
  | InvalidInteger string
  | NotPositive string
  | InvalidFloat string

definition getEnvDefault :: "env \<Rightarrow> string \<Rightarrow> string \<Rightarrow> string" where
  "getEnvDefault env key def = (if env key \<noteq> '''' then env key else def)"

definition getEnvIntDefault :: "env \<Rightarrow> string \<Rightarrow> int \<Rightarrow> config_error + int" where
  "getEnvIntDefault env key def =
     (if env key = '''' then Inr def
      else case Atoi (env key) of None \<Rightarrow> Inl (InvalidInteger key) | Some n \<Rightarrow> Inr n)"

fun parse_pairs :: "string list \<Rightarrow> (string \<times> string) list \<Rightarrow> (string \<times> string) list" where
  "parse_pairs [] out = out"
| "parse_pairs (pair # pairs) out =
     parse_pairs pairs
       (case Cut pair CHR ''='' of
          None \<Rightarrow> out
        | Some (k, v) \<Rightarrow> if k = '''' then out else AList.update (TrimSpace k) (TrimSpace v) out)"

definition parseLabels :: "string \<Rightarrow> (string \<times> string) list option" where
  "parseLabels raw = (if raw = '''' then None else Some (parse_pairs (Split raw CHR '','') []))"

definition parseList :: "string \<Rightarrow> string list option" where
  "parseList raw =
     (if raw = '''' then None
      else Some (filter (\<lambda>p. p \<noteq> '''') (map TrimSpace (Split raw CHR '',''))))"

section \<open>The two configurations\<close>

record SchedulerConfig =
  sc_DatabaseURL :: string
  sc_RedisAddr :: string
  sc_GRPCAddr :: string
  sc_HTTPAddr :: string
  sc_HeartbeatIntervalSeconds :: int
  sc_HeartbeatTimeoutSeconds :: int
  sc_JWTSecret :: string
  sc_TLSCertFile :: string
  sc_TLSKeyFile :: string
  sc_TLSCAFile :: string

definition LoadSchedulerConfig :: "env \<Rightarrow> config_error + SchedulerConfig" where
  "LoadSchedulerConfig env =
     (if env ''FLEETFORGE_DATABASE_URL'' = '''' then Inl (IsRequired ''FLEETFORGE_DATABASE_URL'')
      else case getEnvIntDefault env ''FLEETFORGE_HEARTBEAT_INTERVAL_SECONDS'' 5 of
        Inl e \<Rightarrow> Inl e
      | Inr interval \<Rightarrow>
          (case getEnvIntDefault env ''FLEETFORGE_HEARTBEAT_TIMEOUT_SECONDS'' 20 of
             Inl e \<Rightarrow> Inl e
           | Inr timeout \<Rightarrow>
               Inr \<lparr>sc_DatabaseURL = env ''FLEETFORGE_DATABASE_URL'',
                    sc_RedisAddr = getEnvDefault env ''FLEETFORGE_REDIS_ADDR'' ''localhost:6379'',
                    sc_GRPCAddr = getEnvDefault env ''FLEETFORGE_GRPC_ADDR'' '':9090'',
                    sc_HTTPAddr = getEnvDefault env ''FLEETFORGE_HTTP_ADDR'' '':8080'',
                    sc_HeartbeatIntervalSeconds = interval, sc_HeartbeatTimeoutSeconds = timeout,
                    sc_JWTSecret = env ''FLEETFORGE_JWT_SECRET'',
                    sc_TLSCertFile = env ''FLEETFORGE_TLS_CERT_FILE'',
                    sc_TLSKeyFile = env ''FLEETFORGE_TLS_KEY_FILE'', sc_TLSCAFile = env ''FLEETFORGE_TLS_CA_FILE''\<rparr>))"

record WorkerAgentConfig =
  wc_SchedulerGRPCAddr :: string
  wc_InstanceID :: string
  wc_Hostname :: string
  wc_OS :: string
  wc_CPUCores :: int
  wc_MemoryMB :: int
  wc_Version :: string
  wc_CapacitySlots :: int
  wc_Labels :: "(string \<times> string) list option"
  wc_Capabilities :: "string list option"
  wc_SimulatedFailureRate :: rat
  wc_TLSCertFile :: string
  wc_TLSKeyFile :: string
  wc_TLSCAFile :: string

text \<open>\<open>host\<close> is the result of \<open>os.Hostname\<close>, \<open>ParseFloat\<close> that of \<open>strconv.ParseFloat\<close>.\<close>

definition failure_rate :: "(string \<Rightarrow> rat option) \<Rightarrow> env \<Rightarrow> config_error + rat" where
  "failure_rate ParseFloat env =
     (let raw = env ''FLEETFORGE_SIMULATED_FAILURE_RATE'' in
      if raw = '''' then Inr (15 / 100)
      else case ParseFloat raw of
        None \<Rightarrow> Inl (InvalidFloat ''FLEETFORGE_SIMULATED_FAILURE_RATE'') | Some rate \<Rightarrow> Inr rate)"

definition LoadWorkerAgentConfig ::
    "(string \<Rightarrow> rat option) \<Rightarrow> string option \<Rightarrow> env \<Rightarrow> config_error + WorkerAgentConfig" where
  "LoadWorkerAgentConfig ParseFloat host env =
     (let hostname = (case host of None \<Rightarrow> ''unknown-host'' | Some h \<Rightarrow> h) in
      if env ''FLEETFORGE_INSTANCE_ID'' = '''' then Inl (IsRequired ''FLEETFORGE_INSTANCE_ID'')
      else case getEnvIntDefault env ''FLEETFORGE_CPU_CORES'' 0 of
        Inl e \<Rightarrow> Inl e
      | Inr cores \<Rightarrow>
          if cores \<le> 0 then Inl (NotPositive ''FLEETFORGE_CPU_CORES'')
          else case getEnvIntDefault env ''FLEETFORGE_MEMORY_MB'' 0 of
            Inl e \<Rightarrow> Inl e
          | Inr memory \<Rightarrow>
              if memory \<le> 0 then Inl (NotPositive ''FLEETFORGE_MEMORY_MB'')
              else case getEnvIntDefault env ''FLEETFORGE_CAPACITY_SLOTS'' 1 of
                Inl e \<Rightarrow> Inl e
              | Inr slots \<Rightarrow>
                  (case failure_rate ParseFloat env of
                     Inl e \<Rightarrow> Inl e
                   | Inr rate \<Rightarrow>
                       Inr \<lparr>wc_SchedulerGRPCAddr = getEnvDefault env ''FLEETFORGE_SCHEDULER_ADDR'' ''localhost:9090'',
                            wc_InstanceID = env ''FLEETFORGE_INSTANCE_ID'',
                            wc_Hostname = getEnvDefault env ''FLEETFORGE_HOSTNAME'' hostname,
                            wc_OS = getEnvDefault env ''FLEETFORGE_OS'' ''linux/amd64'',
                            wc_CPUCores = cores, wc_MemoryMB = memory,
                            wc_Version = getEnvDefault env ''FLEETFORGE_AGENT_VERSION'' ''0.1.0'',
                            wc_CapacitySlots = slots, wc_Labels = parseLabels (env ''FLEETFORGE_LABELS''),
                            wc_Capabilities = parseList (env ''FLEETFORGE_CAPABILITIES''),
                            wc_SimulatedFailureRate = rate,
                            wc_TLSCertFile = env ''FLEETFORGE_TLS_CERT_FILE'',
                            wc_TLSKeyFile = env ''FLEETFORGE_TLS_KEY_FILE'',
                            wc_TLSCAFile = env ''FLEETFORGE_TLS_CA_FILE''\<rparr>))"

section \<open>Labels and lists read back\<close>

definition print_label :: "string \<times> string \<Rightarrow> string" where
  "print_label kv = fst kv @ CHR ''='' # snd kv"

definition clean :: "string \<Rightarrow> bool" where
  "clean s \<longleftrightarrow> trimmed s \<and> CHR '','' \<notin> set s"

definition labels_clean :: "(string \<times> string) list \<Rightarrow> bool" where
  "labels_clean kvs \<longleftrightarrow> kvs \<noteq> [] \<and> distinct (map fst kvs) \<and>
     list_all (\<lambda>(k, v). clean k \<and> k \<noteq> '''' \<and> CHR ''='' \<notin> set k \<and> clean v) kvs"

lemma update_new: "k \<notin> fst ` set xs \<Longrightarrow> AList.update k v xs = xs @ [(k, v)]"
  by (induction xs) auto

lemma parse_pairs_print:
  assumes "distinct (map fst (out @ kvs))" "list_all (\<lambda>(k, v). clean k \<and> k \<noteq> '''' \<and> CHR ''='' \<notin> set k \<and> clean v) kvs"
  shows "parse_pairs (map print_label kvs) out = out @ kvs"
  using assms
proof (induction kvs arbitrary: out)
  case (Cons kv kvs)
  obtain k v where kv: "kv = (k, v)" by (cases kv)
  have k: "trimmed k" "trimmed v" "k \<noteq> ''''" "CHR ''='' \<notin> set k" using Cons.prems(2) by (simp_all add: kv clean_def)
  have "k \<notin> fst ` set out" using Cons.prems(1) by (simp add: kv)
  then have "parse_pairs (map print_label (kv # kvs)) out = parse_pairs (map print_label kvs) (out @ [kv])"
    using k by (simp add: kv print_label_def Cut_append update_new)
  also have "\<dots> = (out @ [kv]) @ kvs" by (rule Cons.IH) (use Cons.prems in simp_all)
  finally show ?case by simp
qed simp

text \<open>
  Settings read back: labels printed as \<open>key=value\<close> pairs and capabilities printed with commas between them are read as the very
  labels, in any number and order, and capabilities they came from, as long as they are free of commas and of spaces around
  them and the keys are distinct, not empty and free of \<open>=\<close>; a number printed in decimal is read as that number, and anything
  that is not a decimal number of 64 bits is an error rather than a default.
\<close>

theorem settings_read_back:
  assumes "labels_clean kvs" and "xs \<noteq> []" "list_all (\<lambda>x. clean x \<and> x \<noteq> '''') xs" and "- (2 ^ 63) \<le> i" "i < 2 ^ 63"
  shows "parseLabels (Join (map print_label kvs) CHR '','') = Some kvs \<and>
         parseList (Join xs CHR '','') = Some xs \<and>
         (\<forall>env key def. env key = Itoa i \<longrightarrow> getEnvIntDefault env key def = Inr i) \<and>
         (\<forall>env key def. env key \<noteq> '''' \<and> Atoi (env key) = None \<longrightarrow> getEnvIntDefault env key def = Inl (InvalidInteger key))"
proof -
  have sep: "CHR '','' \<notin> set (print_label kv)" if "kv \<in> set kvs" for kv
    using assms(1) that by (auto simp: labels_clean_def clean_def list_all_iff print_label_def)
  have ne: "Join (map print_label kvs) CHR '','' \<noteq> ''''"
    using assms(1) by (cases kvs) (auto simp: labels_clean_def Join_empty print_label_def)
  have "Split (Join (map print_label kvs) CHR '','') CHR '','' = map print_label kvs"
    using assms(1) sep by (intro Split_Join) (auto simp: labels_clean_def)
  then have labels: "parseLabels (Join (map print_label kvs) CHR '','') = Some kvs"
    using ne parse_pairs_print [of "[]" kvs] assms(1) by (simp add: parseLabels_def labels_clean_def)
  have "Split (Join xs CHR '','') CHR '','' = xs"
    using assms(2,3) by (intro Split_Join) (auto simp: list_all_iff clean_def)
  moreover have "Join xs CHR '','' \<noteq> ''''" using assms(2,3) by (auto simp: Join_empty)
  moreover have "map TrimSpace xs = xs" using assms(3) by (intro map_idI) (simp add: list_all_iff clean_def)
  moreover have "filter (\<lambda>p. p \<noteq> '''') xs = xs" using assms(3) by (simp add: filter_id_conv list_all_iff)
  ultimately have list: "parseList (Join xs CHR '','') = Some xs" by (simp add: parseList_def)
  have "Itoa i \<noteq> ''''" using format_nat_head by (metis Itoa_def list.distinct(1))
  with labels list show ?thesis using Atoi_Itoa [OF assms(4,5)] by (auto simp: getEnvIntDefault_def)
qed

theorem settings_read_back_witness:
  "parseLabels ''region=us,arch=amd64'' = Some [(''region'', ''us''), (''arch'', ''amd64'')] \<and>
   parseList ''docker,go'' = Some [''docker'', ''go'']"
proof -
  have l: "labels_clean [(''region'', ''us''), (''arch'', ''amd64'')]"
    by (simp add: labels_clean_def clean_def trimmed_def is_space_def)
  have x: "list_all (\<lambda>x. clean x \<and> x \<noteq> '''') [''docker'', ''go'']"
    by (simp add: clean_def trimmed_def is_space_def)
  show ?thesis using settings_read_back [OF l _ x, of 7] by (simp add: print_label_def)
qed

end
