(* ===== verification/Startup.thy ===== *)
theory Startup
  imports System WorkerAgent Config
begin

text \<open>
  How the two binaries come up: \<open>cmd/scheduler/main.go\<close> and \<open>cmd/worker-agent/main.go\<close> up to their loops, with
  \<open>internal/auth/mtls.go\<close>, \<open>internal/store/postgres/db.go\<close> and \<open>internal/store/redis/client.go\<close>. Files, certificates, sockets
  and the drivers' connections are parameters; every way in which a start is given up is a value of \<open>fatal\<close>.
\<close>

section \<open>Mutual TLS\<close>

datatype tls_error = LoadKeypair | ReadCAFile | NoValidCertificates string

datatype ClientAuthType = NoClientCert | RequireAndVerifyClientCert

definition VersionTLS12 :: nat where
  "VersionTLS12 = 0x0303"

record ('c, 'p) tls_lib =
  LoadX509KeyPair :: "string \<Rightarrow> string \<Rightarrow> 'c option"
  ReadFile :: "string \<Rightarrow> string option"
  AppendCertsFromPEM :: "string \<Rightarrow> 'p option"

record ('c, 'p) tls_Config =
  tc_Certificates :: "'c list"
  tc_ClientCAs :: "'p option"
  tc_RootCAs :: "'p option"
  tc_ClientAuth :: ClientAuthType
  tc_MinVersion :: nat

definition loadCAPool :: "('c, 'p) tls_lib \<Rightarrow> string \<Rightarrow> tls_error + 'p" where
  "loadCAPool T caFile =
     (case ReadFile T caFile of
        None \<Rightarrow> Inl ReadCAFile
      | Some pem \<Rightarrow>
          (case AppendCertsFromPEM T pem of None \<Rightarrow> Inl (NoValidCertificates caFile) | Some pool \<Rightarrow> Inr pool))"

definition ServerTLSConfig :: "('c, 'p) tls_lib \<Rightarrow> string \<Rightarrow> string \<Rightarrow> string \<Rightarrow> tls_error + ('c, 'p) tls_Config" where
  "ServerTLSConfig T certFile keyFile caFile =
     (case LoadX509KeyPair T certFile keyFile of
        None \<Rightarrow> Inl LoadKeypair
      | Some cert \<Rightarrow>
          (case loadCAPool T caFile of
             Inl e \<Rightarrow> Inl e
           | Inr caPool \<Rightarrow>
               Inr \<lparr>tc_Certificates = [cert], tc_ClientCAs = Some caPool, tc_RootCAs = None,
                    tc_ClientAuth = RequireAndVerifyClientCert, tc_MinVersion = VersionTLS12\<rparr>))"

definition ClientTLSConfig :: "('c, 'p) tls_lib \<Rightarrow> string \<Rightarrow> string \<Rightarrow> string \<Rightarrow> tls_error + ('c, 'p) tls_Config" where
  "ClientTLSConfig T certFile keyFile caFile =
     (case LoadX509KeyPair T certFile keyFile of
        None \<Rightarrow> Inl LoadKeypair
      | Some cert \<Rightarrow>
          (case loadCAPool T caFile of
             Inl e \<Rightarrow> Inl e
           | Inr caPool \<Rightarrow>
               Inr \<lparr>tc_Certificates = [cert], tc_ClientCAs = None, tc_RootCAs = Some caPool,
                    tc_ClientAuth = NoClientCert, tc_MinVersion = VersionTLS12\<rparr>))"

datatype ('c, 'p) creds = Insecure | MTLS "('c, 'p) tls_Config"

definition all_set :: "string \<Rightarrow> string \<Rightarrow> string \<Rightarrow> bool" where
  "all_set cert key ca \<longleftrightarrow> cert \<noteq> '''' \<and> key \<noteq> '''' \<and> ca \<noteq> ''''"

definition server_creds :: "('c, 'p) tls_lib \<Rightarrow> SchedulerConfig \<Rightarrow> tls_error + ('c, 'p) creds" where
  "server_creds T cfg =
     (if all_set (sc_TLSCertFile cfg) (sc_TLSKeyFile cfg) (sc_TLSCAFile cfg)
      then map_sum id MTLS (ServerTLSConfig T (sc_TLSCertFile cfg) (sc_TLSKeyFile cfg) (sc_TLSCAFile cfg))
      else Inr Insecure)"

definition client_creds :: "('c, 'p) tls_lib \<Rightarrow> WorkerAgentConfig \<Rightarrow> tls_error + ('c, 'p) creds" where
  "client_creds T cfg =
     (if all_set (wc_TLSCertFile cfg) (wc_TLSKeyFile cfg) (wc_TLSCAFile cfg)
      then map_sum id MTLS (ClientTLSConfig T (wc_TLSCertFile cfg) (wc_TLSKeyFile cfg) (wc_TLSCAFile cfg))
      else Inr Insecure)"

section \<open>The connections of the scheduler\<close>

datatype pool_error = ParseDatabaseURL | CreatePool | PingPostgres

record pool_config =
  pc_MaxConns :: nat
  pc_MaxConnLifetime :: int

record pg_driver =
  pd_ParseConfig :: "string \<Rightarrow> pool_config option"
  pd_NewWithConfig :: "pool_config \<Rightarrow> bool"
  pd_Ping :: bool

definition NewPool :: "pg_driver \<Rightarrow> string \<Rightarrow> pool_error + pool_config" where
  "NewPool P databaseURL =
     (case pd_ParseConfig P databaseURL of
        None \<Rightarrow> Inl ParseDatabaseURL
      | Some cfg \<Rightarrow>
          let cfg = cfg\<lparr>pc_MaxConns := 20, pc_MaxConnLifetime := 30 * minute\<rparr> in
          if \<not> pd_NewWithConfig P cfg then Inl CreatePool
          else if \<not> pd_Ping P then Inl PingPostgres
          else Inr cfg)"

definition NewClient :: "(string \<Rightarrow> bool) \<Rightarrow> string \<Rightarrow> unit option" where
  "NewClient ping addr = (if ping addr then Some () else None)"

section \<open>cmd/scheduler\<close>

datatype fatal =
    InvalidConfig config_error
  | PostgresFailed pool_error
  | RedisFailed string
  | GroupsFailed
  | TLSFailed tls_error
  | ListenFailed string
  | DialFailed string
  | RegistrationFailed grpc_error

record ('r, 'c, 'p) host =
  ho_env :: env
  ho_tls :: "('c, 'p) tls_lib"
  ho_pg :: pg_driver
  ho_redis :: "'r redis_client"
  ho_ping :: "string \<Rightarrow> bool"
  ho_neterr :: "int \<Rightarrow> string option"
  ho_listen :: "string \<Rightarrow> bool"
  ho_jwt :: jwt_lib
  ho_fmt :: "int \<Rightarrow> string"
  ho_isReady :: "bool \<times> bool \<times> bool"

definition wire_up :: "('r, 'c, 'p) host \<Rightarrow> SchedulerConfig \<Rightarrow> 'r deployment" where
  "wire_up h cfg =
     \<lparr>dp_redis = ho_redis h,
      dp_server = \<lparr>sv_heartbeatIntervalSeconds = to_int32 (sc_HeartbeatIntervalSeconds cfg),
                   sv_heartbeatTimeoutSeconds = to_int32 (sc_HeartbeatTimeoutSeconds cfg)\<rparr>,
      dp_router = \<lparr>rt_lib = ho_jwt h, rt_fmt = ho_fmt h, rt_jwtSecret = sc_JWTSecret cfg, rt_isReady = ho_isReady h\<rparr>,
      dp_timeoutSeconds = sc_HeartbeatTimeoutSeconds cfg\<rparr>"

definition scheduler_main :: "('r, 'c, 'p) host \<Rightarrow> 'r \<Rightarrow> (fatal + ('c, 'p) creds \<times> 'r deployment) \<times> 'r" where
  "scheduler_main h r =
     (case LoadSchedulerConfig (ho_env h) of
        Inl e \<Rightarrow> (Inl (InvalidConfig e), r)
      | Inr cfg \<Rightarrow>
          (case NewPool (ho_pg h) (sc_DatabaseURL cfg) of
             Inl e \<Rightarrow> (Inl (PostgresFailed e), r)
           | Inr pool \<Rightarrow>
               (case NewClient (ho_ping h) (sc_RedisAddr cfg) of
                  None \<Rightarrow> (Inl (RedisFailed (sc_RedisAddr cfg)), r)
                | Some _ \<Rightarrow>
                    (case EnsureConsumerGroups (ho_redis h) (ho_neterr h) r of
                       (False, r') \<Rightarrow> (Inl GroupsFailed, r')
                     | (True, r') \<Rightarrow>
                         (case server_creds (ho_tls h) cfg of
                            Inl e \<Rightarrow> (Inl (TLSFailed e), r')
                          | Inr grpcOpts \<Rightarrow>
                              if \<not> ho_listen h (sc_GRPCAddr cfg) then (Inl (ListenFailed (sc_GRPCAddr cfg)), r')
                              else (Inr (grpcOpts, wire_up h cfg), r'))))))"

section \<open>cmd/worker-agent\<close>

definition register_request :: "WorkerAgentConfig \<Rightarrow> RegisterWorkerParams" where
  "register_request cfg =
     \<lparr>rp_Hostname = wc_Hostname cfg, rp_InstanceID = wc_InstanceID cfg, rp_OS = wc_OS cfg,
      rp_CPUCores = to_int32 (wc_CPUCores cfg), rp_MemoryMB = to_int32 (wc_MemoryMB cfg),
      rp_Labels = wc_Labels cfg, rp_Capabilities = wc_Capabilities cfg, rp_Version = wc_Version cfg,
      rp_CapacitySlots = to_int32 (wc_CapacitySlots cfg)\<rparr>"

definition agent_main ::
    "(string \<Rightarrow> rat option) \<Rightarrow> string option \<Rightarrow> env \<Rightarrow> ('c, 'p) tls_lib \<Rightarrow> (string \<Rightarrow> bool)
       \<Rightarrow> (RegisterWorkerParams \<Rightarrow> 'w \<Rightarrow> (grpc_error + RegisterWorkerResponse) \<times> 'w) \<Rightarrow> 'w
       \<Rightarrow> (fatal + ('c, 'p) creds \<times> heartbeatDeps \<times> agent) \<times> 'w" where
  "agent_main ParseFloat host env T dial register w =
     (case LoadWorkerAgentConfig ParseFloat host env of
        Inl e \<Rightarrow> (Inl (InvalidConfig e), w)
      | Inr cfg \<Rightarrow>
          (case client_creds T cfg of
             Inl e \<Rightarrow> (Inl (TLSFailed e), w)
           | Inr transportCreds \<Rightarrow>
               if \<not> dial (wc_SchedulerGRPCAddr cfg) then (Inl (DialFailed (wc_SchedulerGRPCAddr cfg)), w)
               else case register (register_request cfg) w of
                 (Inl e, w') \<Rightarrow> (Inl (RegistrationFailed e), w')
               | (Inr resp, w') \<Rightarrow>
                   let deps = agent_deps (wc_CapacitySlots cfg) resp
                   in (Inr (transportCreds, deps, start_agent deps), w')))"

section \<open>Properties\<close>

lemma scheduler_mainE:
  assumes "scheduler_main h r = (Inr (grpcOpts, D), r')"
  obtains cfg where "LoadSchedulerConfig (ho_env h) = Inr cfg" "server_creds (ho_tls h) cfg = Inr grpcOpts" "D = wire_up h cfg"
    "EnsureConsumerGroups (ho_redis h) (ho_neterr h) r = (True, r')" "ho_listen h (sc_GRPCAddr cfg)"
  using assms by (auto simp: scheduler_main_def split: sum.splits option.splits prod.splits bool.splits if_splits)

lemma agent_mainE:
  assumes "agent_main PF host env T dial register w = (Inr (creds, deps, p), w')"
  obtains cfg resp where "LoadWorkerAgentConfig PF host env = Inr cfg" "client_creds T cfg = Inr creds"
    "register (register_request cfg) w = (Inr resp, w')" "deps = agent_deps (wc_CapacitySlots cfg) resp" "p = start_agent deps"
  using assms by (auto simp: agent_main_def Let_def split: sum.splits prod.splits if_splits)

definition verifies_with :: "('c, 'p) tls_lib \<Rightarrow> string \<Rightarrow> 'p \<Rightarrow> bool" where
  "verifies_with T caFile pool \<longleftrightarrow> (\<exists>pem. ReadFile T caFile = Some pem \<and> AppendCertsFromPEM T pem = Some pool)"

lemma loadCAPool_Inr: "loadCAPool T ca = Inr pool \<Longrightarrow> verifies_with T ca pool"
  by (auto simp: loadCAPool_def verifies_with_def split: option.splits)

abbreviation cert_env :: "env \<Rightarrow> bool" where
  "cert_env env \<equiv> all_set (env ''FLEETFORGE_TLS_CERT_FILE'') (env ''FLEETFORGE_TLS_KEY_FILE'') (env ''FLEETFORGE_TLS_CA_FILE'')"

text \<open>
  C29. Configured mutual TLS is never silently dropped. With the three files named in the environment, a scheduler that comes up
  demands and verifies a client certificate against the pool of exactly that CA file, with TLS 1.2 at least, and an
  agent that comes up verifies the scheduler against its own CA file; a file that cannot be used stops the start. The
  scheduler's REST router checks tokens with exactly the secret of the environment.
\<close>

theorem mtls_not_downgraded:
  assumes "cert_env (ho_env h)" and "cert_env env"
  shows "(\<forall>r grpcOpts D r'. scheduler_main h r = (Inr (grpcOpts, D), r') \<longrightarrow>
            (\<exists>c pool. grpcOpts = MTLS c \<and> tc_ClientAuth c = RequireAndVerifyClientCert \<and> tc_MinVersion c = VersionTLS12 \<and>
               tc_ClientCAs c = Some pool \<and> verifies_with (ho_tls h) (ho_env h ''FLEETFORGE_TLS_CA_FILE'') pool) \<and>
            rt_jwtSecret (dp_router D) = ho_env h ''FLEETFORGE_JWT_SECRET'') \<and>
         (\<forall>PF host T dial register w creds deps p w'.
            agent_main PF host env T dial register w = (Inr (creds, deps, p), w') \<longrightarrow>
            (\<exists>c pool. creds = MTLS c \<and> tc_MinVersion c = VersionTLS12 \<and> tc_RootCAs c = Some pool \<and>
               verifies_with T (env ''FLEETFORGE_TLS_CA_FILE'') pool))"
proof (intro conjI allI impI)
  fix r grpcOpts D r'
  assume "scheduler_main h r = (Inr (grpcOpts, D), r')"
  then obtain cfg where cfg: "LoadSchedulerConfig (ho_env h) = Inr cfg" "server_creds (ho_tls h) cfg = Inr grpcOpts" "D = wire_up h cfg"
    by (rule scheduler_mainE)
  have files: "sc_TLSCertFile cfg = ho_env h ''FLEETFORGE_TLS_CERT_FILE''" "sc_TLSKeyFile cfg = ho_env h ''FLEETFORGE_TLS_KEY_FILE''"
    "sc_TLSCAFile cfg = ho_env h ''FLEETFORGE_TLS_CA_FILE''" "sc_JWTSecret cfg = ho_env h ''FLEETFORGE_JWT_SECRET''"
    using cfg(1) by (auto simp: LoadSchedulerConfig_def split: if_splits sum.splits)
  with cfg(2) assms(1) show "\<exists>c pool. grpcOpts = MTLS c \<and> tc_ClientAuth c = RequireAndVerifyClientCert \<and>
      tc_MinVersion c = VersionTLS12 \<and> tc_ClientCAs c = Some pool \<and>
      verifies_with (ho_tls h) (ho_env h ''FLEETFORGE_TLS_CA_FILE'') pool"
    by (auto simp: server_creds_def ServerTLSConfig_def split: option.splits sum.splits dest: loadCAPool_Inr)
  show "rt_jwtSecret (dp_router D) = ho_env h ''FLEETFORGE_JWT_SECRET''" by (simp add: cfg(3) wire_up_def files)
next
  fix PF host T dial register w creds deps p w'
  assume "agent_main PF host env T dial register w = (Inr (creds, deps, p), w')"
  then obtain cfg where cfg: "LoadWorkerAgentConfig PF host env = Inr cfg" "client_creds T cfg = Inr creds"
    by (rule agent_mainE)
  have "wc_TLSCertFile cfg = env ''FLEETFORGE_TLS_CERT_FILE''" "wc_TLSKeyFile cfg = env ''FLEETFORGE_TLS_KEY_FILE''"
    "wc_TLSCAFile cfg = env ''FLEETFORGE_TLS_CA_FILE''"
    using cfg(1) by (auto simp: LoadWorkerAgentConfig_def Let_def split: if_splits sum.splits)
  with cfg(2) assms(2) show "\<exists>c pool. creds = MTLS c \<and> tc_MinVersion c = VersionTLS12 \<and> tc_RootCAs c = Some pool \<and>
      verifies_with T (env ''FLEETFORGE_TLS_CA_FILE'') pool"
    by (auto simp: client_creds_def ClientTLSConfig_def split: option.splits sum.splits dest: loadCAPool_Inr)
qed

definition ex_files :: "(string, string) tls_lib" where
  "ex_files = \<lparr>LoadX509KeyPair = (\<lambda>c k. Some (c @ k)), ReadFile = (\<lambda>f. Some f), AppendCertsFromPEM = (\<lambda>pem. Some pem)\<rparr>"

definition ex_env :: env where
  "ex_env k =
     (if k = ''FLEETFORGE_HEARTBEAT_INTERVAL_SECONDS'' \<or> k = ''FLEETFORGE_HEARTBEAT_TIMEOUT_SECONDS'' \<or>
         k = ''FLEETFORGE_SIMULATED_FAILURE_RATE'' then ''''
      else if k = ''FLEETFORGE_CPU_CORES'' \<or> k = ''FLEETFORGE_MEMORY_MB'' \<or> k = ''FLEETFORGE_CAPACITY_SLOTS'' then ''4''
      else ''x'')"

definition ex_host :: "(mem_server, string, string) host" where
  "ex_host = \<lparr>ho_env = ex_env, ho_tls = ex_files,
     ho_pg = \<lparr>pd_ParseConfig = (\<lambda>_. Some \<lparr>pc_MaxConns = 4, pc_MaxConnLifetime = 0\<rparr>), pd_NewWithConfig = (\<lambda>_. True), pd_Ping = True\<rparr>,
     ho_redis = mem_redis, ho_ping = (\<lambda>_. True), ho_neterr = (\<lambda>_. None), ho_listen = (\<lambda>_. True), ho_jwt = ex_lib,
     ho_fmt = Itoa, ho_isReady = (True, True, True)\<rparr>"

lemma ex_host_starts: "\<exists>D r'. scheduler_main ex_host mem_empty = (Inr (MTLS \<lparr>tc_Certificates = [''xx''], tc_ClientCAs = Some ''x'',
     tc_RootCAs = None, tc_ClientAuth = RequireAndVerifyClientCert, tc_MinVersion = VersionTLS12\<rparr>, D), r')"
proof -
  have "\<exists>r'. EnsureConsumerGroups mem_redis (\<lambda>_. None) mem_empty = (True, r')"
    by (simp add: EnsureConsumerGroups_def upto.simps ensure_groups.simps mem_redis_def isBusyGroupErr_def)
  then show ?thesis
    by (auto simp: scheduler_main_def ex_host_def LoadSchedulerConfig_def ex_env_def getEnvIntDefault_def NewPool_def NewClient_def
        server_creds_def all_set_def ServerTLSConfig_def loadCAPool_def ex_files_def Let_def)
qed

theorem mtls_not_downgraded_witness:
  "\<exists>c D r'. scheduler_main ex_host mem_empty = (Inr (MTLS c, D), r') \<and> tc_ClientAuth c = RequireAndVerifyClientCert \<and>
     rt_jwtSecret (dp_router D) = ''x''"
proof -
  have e: "cert_env (ho_env ex_host)" "cert_env ex_env" "ho_env ex_host ''FLEETFORGE_JWT_SECRET'' = ''x''"
    by (simp_all add: ex_host_def ex_env_def all_set_def)
  from ex_host_starts obtain c D r' where s: "scheduler_main ex_host mem_empty = (Inr (c, D), r')" by blast
  with mtls_not_downgraded [OF e(1,2)] e(3) show ?thesis by fastforce
qed

lemma RegisterWorker_leaves:
  assumes inv: "db_inv (wdb w)" and C: "redis_ok C"
    and r: "RegisterWorker C S (calm t) uuid req w = (Inr resp, w')"
    and fits: "rp_CapacitySlots req \<le> max_int32"
  shows "\<exists>x\<in>set (workers (wdb w')). w_id x = rr_WorkerId resp \<and> w_epoch x = rr_Epoch resp \<and> w_status x = READY \<and>
           w_instance_id x = rp_InstanceID req \<and> w_available_capacity x = max 1 (rp_CapacitySlots req) \<and>
           w_last_heartbeat x = Some t \<and>
           (\<exists>s. cached C (wrd w') (w_id x) = Some s \<and> ws_Epoch s = w_epoch x \<and> ws_Status s = ''READY'')"
proof -
  let ?s = "\<lambda>g. \<lparr>ws_Epoch = rw_Epoch g, ws_Status = ''READY'', ws_CurrentJobID = '''',
      ws_AvailableCapacity = max 1 (rp_CapacitySlots req), ws_LastPGFlushUnix = 0, ws_DrainRequested = False\<rparr>"
  from r obtain g d where reg: "Register no_faults t uuid req (wdb w) = (Inr g, d)"
    and resp: "rr_WorkerId resp = rw_ID g" "rr_Epoch resp = rw_Epoch g"
    and w': "wdb w' = d" "wrd w' = snd (SetState C NoFault (rw_ID g) (?s g) (wrd w))"
    by (auto simp: RegisterWorker_def Let_def max_def calm_pg split: if_splits sum.splits prod.splits)
  from Register_effect [OF inv reg] obtain x where x: "x \<in> set (workers d)" and row: "registered_row t req g x" by blast
  have "db_inv d" using Register_inv [OF inv, of no_faults t uuid req] reg by simp
  from db_invD(4) [OF this x] have "state_ok (?s g)"
    using row fits by (auto simp: registered_row_def worker_ok_def state_ok_def max_int32_def max_int64_def)
  from cached_SetState [OF C this, of "rw_ID g" "wrd w" "rw_ID g"] row x show ?thesis
    by (intro bexI [of _ x]) (auto simp: registered_row_def resp w')
qed

lemma idle_heartbeat_accepted:
  assumes "cached C (wrd w) wid = Some s" "ws_Epoch s = hb_Epoch req" "ws_Status s = ''READY''" "hb_WorkerId req = wid" "wid \<noteq> ''''"
  shows "\<exists>resp w'. handleHeartbeat C S (calm t) req w = (Inr resp, w') \<and> hr_Acknowledged resp \<and> hr_Assignment resp = None \<and>
           hr_DrainRequested resp = ws_DrainRequested s"
  using assms
  by (auto simp: handleHeartbeat_def Let_def found_state_cached calm_pg known_epoch_def pending_assignment_def split: prod.splits)

text \<open>
  C25. A worker that starts joins the fleet. Let a scheduler and an agent both have come up, the agent's registration having
  reached that scheduler without faults. Then the database has the worker of the agent's instance id, \<open>READY\<close> and with every
  slot free, under exactly the id, epoch and number of slots the agent works with; the agent is idle and sends its heartbeats at
  a positive interval; and its first heartbeat, when it comes before anything else has happened, is acknowledged.
\<close>

theorem agent_joins:
  assumes inv: "db_inv (wdb w)" and C: "redis_ok (ho_redis h)" and up: "scheduler_main h r = (Inr (opts, D), r')"
    and agent: "agent_main PF host env T dial (RegisterWorker (dp_redis D) (dp_server D) (calm t) uuid) w = (Inr (creds, deps, p), w')"
    and ids: "uuid \<noteq> ''''" "\<And>x. x \<in> set (workers (wdb w)) \<Longrightarrow> w_id x \<noteq> ''''"
  shows "(\<exists>x\<in>set (workers (wdb w')). w_id x = hd_workerID deps \<and> w_epoch x = hd_epoch deps \<and> w_status x = READY \<and>
            w_instance_id x = env ''FLEETFORGE_INSTANCE_ID'' \<and> w_available_capacity x = hd_capacitySlots deps) \<and>
         idle deps p \<and> 0 < hd_interval deps \<and>
         (\<exists>resp w''. handleHeartbeat (dp_redis D) (dp_server D) (calm t') (heartbeat_request deps p) w' = (Inr resp, w'') \<and>
            hr_Acknowledged resp \<and> hr_Assignment resp = None)"
proof -
  obtain cfg where D: "D = wire_up h cfg" using up by (rule scheduler_mainE)
  have C': "redis_ok (dp_redis D)" using C by (simp add: D wire_up_def)
  obtain acfg resp where a: "LoadWorkerAgentConfig PF host env = Inr acfg"
    "RegisterWorker (dp_redis D) (dp_server D) (calm t) uuid (register_request acfg) w = (Inr resp, w')"
    "deps = agent_deps (wc_CapacitySlots acfg) resp" "p = start_agent deps"
    using agent by (rule agent_mainE)
  have inst: "wc_InstanceID acfg = env ''FLEETFORGE_INSTANCE_ID''"
    using a(1) by (auto simp: LoadWorkerAgentConfig_def Let_def split: if_splits sum.splits)
  have fits: "rp_CapacitySlots (register_request acfg) \<le> max_int32" by (simp add: register_request_def to_int32_range)
  obtain x s where x: "x \<in> set (workers (wdb w'))" "w_id x = rr_WorkerId resp" "w_epoch x = rr_Epoch resp" "w_status x = READY"
      "w_instance_id x = rp_InstanceID (register_request acfg)"
      "w_available_capacity x = max 1 (rp_CapacitySlots (register_request acfg))"
    and s: "cached (dp_redis D) (wrd w') (w_id x) = Some s" "ws_Epoch s = w_epoch x" "ws_Status s = ''READY''"
    using RegisterWorker_leaves [OF inv C' a(2) fits] by blast
  have slots: "hd_capacitySlots deps = max 1 (rp_CapacitySlots (register_request acfg))"
    by (auto simp: a(3) agent_deps_def Let_def register_request_def)
  have deps: "hd_workerID deps = w_id x" "hd_epoch deps = w_epoch x" by (simp_all add: a(3) agent_deps_def Let_def x)
  have "w_id x \<noteq> ''''"
  proof -
    from a(2) obtain g d where "Register no_faults t uuid (register_request acfg) (wdb w) = (Inr g, d)" "rr_WorkerId resp = rw_ID g"
      by (auto simp: RegisterWorker_def Let_def calm_pg split: if_splits sum.splits prod.splits)
    with Register_effect [OF inv this(1)] ids x(2) show ?thesis
      by (auto split: option.splits dest!: sql_first_SomeD)
  qed
  with idle_heartbeat_accepted [OF s(1), of "heartbeat_request deps p" "dp_server D" t'] s deps
  have "\<exists>resp w''. handleHeartbeat (dp_redis D) (dp_server D) (calm t') (heartbeat_request deps p) w' = (Inr resp, w'') \<and>
      hr_Acknowledged resp \<and> hr_Assignment resp = None"
    by (auto simp: heartbeat_request_def snapshot_def)
  moreover have "idle deps p" by (simp add: a(4) start_agent_def idle_def)
  moreover have "0 < hd_interval deps" by (simp add: a(3) agent_deps_def Let_def second_def)
  moreover have "w_instance_id x = env ''FLEETFORGE_INSTANCE_ID''" using x(5) inst by (simp add: register_request_def)
  ultimately show ?thesis using x deps slots by auto
qed

lemma Register_returns:
  assumes "0 < rp_CPUCores p" "0 < rp_MemoryMB p" and "uuid \<notin> w_id ` set (workers d)"
    and "\<And>w. w \<in> set (workers d) \<Longrightarrow> w_epoch w < max_int64"
  shows "\<exists>r d'. Register no_faults now uuid p d = (Inr r, d')"
proof -
  let ?p = "Register_defaults p"
  have ok: "0 < rp_CPUCores ?p \<and> 0 < rp_MemoryMB ?p \<and> 0 < rp_CapacitySlots ?p" "\<not> list_ex (\<lambda>w. w_id w = uuid) (workers d)"
    using assms(1-3) by (auto simp: Register_defaults_def list_ex_iff)
  have "\<exists>r d1. Register_upsert now uuid ?p d = Inr (r, d1)"
  proof (cases "sql_first (Register_conflict_where (?p, now)) (workers d)")
    case (Some w)
    with sql_first_SomeD [OF Some] assms(4) [of w] have "\<not> max_int64 < w_epoch w + 1" by simp
    with Some ok show ?thesis by (simp add: Register_upsert_def)
  qed (use ok in \<open>simp add: Register_upsert_def\<close>)
  then have "\<exists>r d'. Register_body no_faults now uuid (Register_defaults p) d = Inr (r, d')"
    by (auto simp: Register_body_def Register_promote_def tx_bind_def tx_return_def insert_worker_event_def)
  then show ?thesis by (auto simp: Register_def)
qed

lemma ex_agent_config:
  "\<exists>cfg creds. LoadWorkerAgentConfig (\<lambda>_. None) None ex_env = Inr cfg \<and> client_creds ex_files cfg = Inr creds \<and>
     validateRegisterRequest (register_request cfg) = None"
proof -
  have "digit_val CHR ''4'' = Some 4" by code_simp
  then have "parse_uint (2 ^ 64 - 1) 0 ''4'' = Some 4" by simp
  then have "Atoi ''4'' = Some 4" by (simp add: Atoi_def)
  then show ?thesis
    by (simp add: LoadWorkerAgentConfig_def Let_def ex_env_def getEnvIntDefault_def getEnvDefault_def failure_rate_def client_creds_def
        ClientTLSConfig_def loadCAPool_def ex_files_def all_set_def register_request_def max_int32_def
        validateRegisterRequest_def)
qed

lemma RegisterWorker_returns:
  assumes "validateRegisterRequest req = None" and "uuid \<notin> w_id ` set (workers (wdb w))"
    and "\<And>x. x \<in> set (workers (wdb w)) \<Longrightarrow> w_epoch x < max_int64"
  shows "\<exists>resp w'. RegisterWorker C S (calm t) uuid req w = (Inr resp, w')"
proof -
  have "0 < rp_CPUCores req" "0 < rp_MemoryMB req"
    using assms(1) by (auto simp: validateRegisterRequest_def split: if_splits)
  from Register_returns [OF this assms(2,3), of t] obtain g d where "Register no_faults t uuid req (wdb w) = (Inr g, d)" by blast
  then show ?thesis using assms(1) by (simp add: RegisterWorker_def Let_def calm_pg)
qed

theorem agent_joins_witness:
  "\<exists>creds deps p w'. agent_main (\<lambda>_. None) None ex_env ex_files (\<lambda>_. True)
       (RegisterWorker mem_redis \<lparr>sv_heartbeatIntervalSeconds = 5, sv_heartbeatTimeoutSeconds = 20\<rparr> (calm 9) ''w9'') ex_world
       = (Inr (creds, deps, p), w') \<and> idle deps p \<and>
     (\<exists>x\<in>set (workers (wdb w')). w_id x = hd_workerID deps \<and> w_available_capacity x = hd_capacitySlots deps)"
proof -
  let ?S = "\<lparr>sv_heartbeatIntervalSeconds = 5, sv_heartbeatTimeoutSeconds = 20\<rparr>"
  from ex_host_starts obtain opts D r' where up: "scheduler_main ex_host mem_empty = (Inr (opts, D), r')" by blast
  then obtain cfg where "LoadSchedulerConfig (ho_env ex_host) = Inr cfg" "D = wire_up ex_host cfg" by (rule scheduler_mainE)
  then have D: "dp_redis D = mem_redis" "dp_server D = ?S"
    by (auto simp: wire_up_def ex_host_def LoadSchedulerConfig_def ex_env_def getEnvIntDefault_def max_int32_def)
  obtain cfg creds where cfg: "LoadWorkerAgentConfig (\<lambda>_. None) None ex_env = Inr cfg" "client_creds ex_files cfg = Inr creds"
    "validateRegisterRequest (register_request cfg) = None" using ex_agent_config by blast
  have fresh: "''w9'' \<notin> w_id ` set (workers (wdb ex_world))"
    and epochs: "x \<in> set (workers (wdb ex_world)) \<Longrightarrow> w_epoch x < max_int64"
    and ids: "x \<in> set (workers (wdb ex_world)) \<Longrightarrow> w_id x \<noteq> ''''" for x
    by (auto simp: ex_world_def ex_defs max_int64_def)
  from RegisterWorker_returns [OF cfg(3) fresh epochs, of "dp_redis D" "dp_server D" 9] cfg
  obtain deps p w' where start: "agent_main (\<lambda>_. None) None ex_env ex_files (\<lambda>_. True)
       (RegisterWorker (dp_redis D) (dp_server D) (calm 9) ''w9'') ex_world = (Inr (creds, deps, p), w')"
    by (auto simp: agent_main_def Let_def)
  have "db_inv (wdb ex_world)" "redis_ok (ho_redis ex_host)" by (simp_all add: ex_world_def ex_host_def mem_redis_ok)
  from agent_joins [OF this up start _ ids, of 10] start D show ?thesis by auto
qed

end
