(* ===== verification/Shutdown.thy ===== *)
theory Shutdown
  imports System
begin

text \<open>
  The end of \<open>cmd/scheduler/main.go\<close>: what a replica does after \<open>SIGINT\<close> or \<open>SIGTERM\<close>. The six goroutines it started return
  when they see the cancelled context; \<open>main\<close> stops the HTTP server, which takes at most ten seconds, and then calls
  \<open>grpcSrv.GracefulStop\<close>. The state has the calls of \<open>Heartbeat\<close> in progress, one per connected agent, and the world that they
  go on changing. \<open>GracefulStop\<close> is a parameter: whether it may return with the given calls pending.
\<close>

section \<open>A replica and its end\<close>

datatype background = BgElector | BgReaper | BgPoller | BgCollector | BgScaler | BgLoop

datatype main_phase = AwaitSignal | HttpStopping | GrpcStopping | MainReturned

record 'r replica =
  sd_cancelled :: bool               \<comment> \<open>\<open>ctx\<close> is done\<close>
  sd_phase :: main_phase
  sd_loops :: "background list"      \<comment> \<open>goroutines that have not returned\<close>
  sd_streams :: "nat list"           \<comment> \<open>calls of \<open>Heartbeat\<close> that have not returned\<close>
  sd_world :: "'r world"

datatype replica_event =
    Sigterm
  | LoopReturns background           \<comment> \<open>its \<open>select\<close> takes \<open>ctx.Done()\<close>\<close>
  | MainWakes                        \<comment> \<open>\<open><-ctx.Done()\<close>\<close>
  | HttpStopped                      \<comment> \<open>\<open>httpSrv.Shutdown\<close> returns, with an error or without\<close>
  | GrpcStopped                      \<comment> \<open>\<open>grpcSrv.GracefulStop\<close> returns\<close>
  | StreamOpens nat
  | Beat nat call_env HeartbeatRequest bool   \<comment> \<open>a request, and whether the response can be sent\<close>
  | StreamEnds nat                   \<comment> \<open>\<open>stream.Recv\<close> returns \<open>io.EOF\<close> or an error\<close>

definition close_stream :: "nat \<Rightarrow> 'r replica \<Rightarrow> 'r replica" where
  "close_stream k s = s\<lparr>sd_streams := removeAll k (sd_streams s)\<rparr>"

text \<open>One round of the loop of \<open>Heartbeat\<close> on stream \<open>k\<close>.\<close>

definition heartbeat_round ::
    "'r deployment \<Rightarrow> nat \<Rightarrow> call_env \<Rightarrow> HeartbeatRequest \<Rightarrow> bool \<Rightarrow> 'r replica \<Rightarrow> 'r replica" where
  "heartbeat_round D k E req sendOK s =
     (case handleHeartbeat (dp_redis D) (dp_server D) E req (sd_world s) of
        (Inl _, w) \<Rightarrow> close_stream k (s\<lparr>sd_world := w\<rparr>)
      | (Inr resp, w) \<Rightarrow>
          if sendOK then s\<lparr>sd_world := w\<rparr> else close_stream k (s\<lparr>sd_world := w\<rparr>))"

fun replica_next :: "'r deployment \<Rightarrow> replica_event \<Rightarrow> 'r replica \<Rightarrow> 'r replica" where
  "replica_next D Sigterm s = s\<lparr>sd_cancelled := True\<rparr>"
| "replica_next D (LoopReturns b) s = s\<lparr>sd_loops := removeAll b (sd_loops s)\<rparr>"
| "replica_next D MainWakes s = s\<lparr>sd_phase := HttpStopping\<rparr>"
| "replica_next D HttpStopped s = s\<lparr>sd_phase := GrpcStopping\<rparr>"
| "replica_next D GrpcStopped s = s\<lparr>sd_phase := MainReturned\<rparr>"
| "replica_next D (StreamOpens k) s = s\<lparr>sd_streams := k # sd_streams s\<rparr>"
| "replica_next D (Beat k E req sendOK) s = heartbeat_round D k E req sendOK s"
| "replica_next D (StreamEnds k) s = close_stream k s"

fun replica_allowed :: "(nat list \<Rightarrow> bool) \<Rightarrow> replica_event \<Rightarrow> 'r replica \<Rightarrow> bool" where
  "replica_allowed G Sigterm s \<longleftrightarrow> True"
| "replica_allowed G (LoopReturns b) s \<longleftrightarrow> sd_cancelled s \<and> b \<in> set (sd_loops s)"
| "replica_allowed G MainWakes s \<longleftrightarrow> sd_cancelled s \<and> sd_phase s = AwaitSignal"
| "replica_allowed G HttpStopped s \<longleftrightarrow> sd_phase s = HttpStopping"
| "replica_allowed G GrpcStopped s \<longleftrightarrow> sd_phase s = GrpcStopping \<and> G (sd_streams s)"
| "replica_allowed G (StreamOpens k) s \<longleftrightarrow> sd_phase s \<in> {AwaitSignal, HttpStopping} \<and> k \<notin> set (sd_streams s)"
| "replica_allowed G (Beat k E req sendOK) s \<longleftrightarrow> k \<in> set (sd_streams s)"
| "replica_allowed G (StreamEnds k) s \<longleftrightarrow> k \<in> set (sd_streams s)"

inductive replica_step ::
    "'r deployment \<Rightarrow> (nat list \<Rightarrow> bool) \<Rightarrow> 'r replica \<Rightarrow> replica_event \<Rightarrow> 'r replica \<Rightarrow> bool" for D G where
  event: "sd_phase s \<noteq> MainReturned \<Longrightarrow> replica_allowed G e s \<Longrightarrow> replica_step D G s e (replica_next D e s)"

inductive_simps replica_step_iff: "replica_step D G s e s'"

definition start_replica :: "'r world \<Rightarrow> 'r replica" where
  "start_replica w =
     \<lparr>sd_cancelled = False, sd_phase = AwaitSignal,
      sd_loops = [BgElector, BgReaper, BgPoller, BgCollector, BgScaler, BgLoop], sd_streams = [], sd_world = w\<rparr>"

text \<open>
  What the gRPC library documents of \<open>GracefulStop\<close>: it takes no new calls and blocks until all pending ones are finished.
\<close>

definition graceful_ok :: "(nat list \<Rightarrow> bool) \<Rightarrow> bool" where
  "graceful_ok G \<longleftrightarrow> (\<forall>ks. G ks \<longrightarrow> ks = []) \<and> G []"

section \<open>A stopping replica waits for its agents\<close>

text \<open>The ways in which a call of \<open>Heartbeat\<close> returns.\<close>

definition ends_stream :: "'r deployment \<Rightarrow> nat \<Rightarrow> replica_event \<Rightarrow> bool" where
  "ends_stream D k e \<longleftrightarrow> e = StreamEnds k \<or>
     (\<exists>E req sendOK. e = Beat k E req sendOK \<and>
        (\<not> sendOK \<or> (\<exists>w err. handleHeartbeat (dp_redis D) (dp_server D) E req w = (Inl err, w))))"

lemma heartbeat_round_simps [simp]:
  "sd_phase (heartbeat_round D k E req b s) = sd_phase s"
  "sd_loops (heartbeat_round D k E req b s) = sd_loops s"
  "sd_cancelled (heartbeat_round D k E req b s) = sd_cancelled s"
  by (auto simp: heartbeat_round_def close_stream_def split: prod.splits sum.splits)

lemma round_closes:
  assumes "i \<in> set (sd_streams s)" and "i \<notin> set (sd_streams (heartbeat_round D k E req b s))"
  shows "ends_stream D i (Beat k E req b)"
proof (cases "handleHeartbeat (dp_redis D) (dp_server D) E req (sd_world s)")
  case (Pair r w)
  with assms handleHeartbeat_Inl [of "dp_redis D" "dp_server D" E req "sd_world s"] show ?thesis
    by (auto simp: heartbeat_round_def close_stream_def ends_stream_def split: sum.splits if_splits)
qed

lemma step_closes:
  assumes "replica_step D G s e s'" and "k \<in> set (sd_streams s)" and "k \<notin> set (sd_streams s')"
  shows "ends_stream D k e"
proof (cases e)
  case (Beat i E req b)
  with assms round_closes [of k s D i E req b] show ?thesis by (auto simp: replica_step_iff)
qed (use assms in \<open>auto simp: replica_step_iff close_stream_def ends_stream_def\<close>)

lemma run_closes:
  "run (replica_step D G) s es s' \<Longrightarrow> k \<in> set (sd_streams s) \<Longrightarrow> k \<notin> set (sd_streams s') \<Longrightarrow>
     \<exists>e\<in>set es. ends_stream D k e"
proof (induction rule: run.induct)
  case (run_cons s e s1 es s2)
  then show ?case using step_closes [OF run_cons.hyps(1), of k] by auto
qed simp

definition replica_inv :: "'r replica \<Rightarrow> bool" where
  "replica_inv s \<longleftrightarrow> (sd_phase s \<noteq> AwaitSignal \<longrightarrow> sd_cancelled s) \<and> (sd_phase s = MainReturned \<longrightarrow> sd_streams s = [])"

lemma replica_next_inv:
  assumes "graceful_ok G" "replica_inv s" "sd_phase s \<noteq> MainReturned" "replica_allowed G e s"
  shows "replica_inv (replica_next D e s)"
  using assms by (cases e) (auto simp: replica_inv_def graceful_ok_def close_stream_def)

lemma run_replica_inv:
  assumes "run (replica_step D G) s es s'" and "graceful_ok G" and "replica_inv s"
  shows "replica_inv s'"
  using assms by (induction rule: run.induct) (auto simp: replica_step_iff replica_next_inv)

lemma loops_shrink:
  assumes "run (replica_step D G) s es s'"
  shows "set (sd_loops s') \<subseteq> set (sd_loops s)"
  using assms
proof (induction rule: run.induct)
  case (run_cons s e s1 es s2)
  have "set (sd_loops s1) \<subseteq> set (sd_loops s)"
    using run_cons.hyps(1) by (cases e) (auto simp: replica_step_iff close_stream_def)
  with run_cons.IH show ?case by blast
qed simp

lemma replica_runs:
  "sd_phase s \<noteq> MainReturned \<Longrightarrow> replica_allowed G e s \<Longrightarrow> run (replica_step D G) (replica_next D e s) es s' \<Longrightarrow>
     run (replica_step D G) s (e # es) s'"
  by (auto simp: replica_step_iff intro: run_cons)

lemma stops_when_idle:
  assumes "graceful_ok G" and "sd_phase s = AwaitSignal" and "sd_streams s = []"
  shows "\<exists>t. run (replica_step D G) s [Sigterm, MainWakes, HttpStopped, GrpcStopped] t \<and> sd_phase t = MainReturned"
proof (intro exI conjI)
  show "run (replica_step D G) s [Sigterm, MainWakes, HttpStopped, GrpcStopped]
      (fold (replica_next D) [Sigterm, MainWakes, HttpStopped, GrpcStopped] s)"
    using assms by (auto simp: graceful_ok_def intro!: replica_runs run_nil)
qed simp


text \<open>A worker that is connected when the signal comes: its heartbeat is accepted, and the replica does not stop.\<close>

definition ex_stopping :: "mem_server replica" where
  "ex_stopping = fold (replica_next ex_deployment) [StreamOpens 7, Sigterm, MainWakes, HttpStopped] (start_replica ex_world)"


end
