(* ===== verification/SystemTypes.thy ===== *)
theory SystemTypes
  imports System
begin

text \<open>
  The columns of the database have the types \<open>SMALLINT\<close>, \<open>INTEGER\<close> and \<open>BIGINT\<close>, the fields of the protocol \<open>int32\<close> and \<open>int64\<close>, while
  the model computes with unbounded integers. The theorem of this theory is that nothing is lost by that: as long as the
  registrations carry \<open>int32\<close> values, as the protocol makes them, every column of every reachable state fits its type, and
  the arithmetic that the scheduler does on them does not wrap.
\<close>

section \<open>The size of a worker\<close>

definition machine :: "worker_row \<Rightarrow> int \<times> int \<times> int" where
  "machine w = (w_cpu_cores w, w_memory_mb w, w_capacity_slots w)"

abbreviation machines :: "db \<Rightarrow> (int \<times> int \<times> int) set" where
  "machines d \<equiv> machine ` set (workers d)"

text \<open>Only a registration sets it.\<close>

fun registers :: "store_op \<Rightarrow> (int \<times> int \<times> int) set" where
  "registers (OpRegister flt now uuid p) =
     {(rp_CPUCores p, rp_MemoryMB p, rp_CapacitySlots (Register_defaults p))}"
| "registers _ = {}"

lemma machines_update:
  assumes "\<And>w. machine (f w) = machine w"
  shows "machine ` set (sql_update P f ws) = machine ` set ws"
  unfolding sql_update_def set_map image_image by (intro image_cong refl) (simp add: assms)

lemma machines_statements [simp]:
  "machine ` set (sql_update P (UpdateHeartbeat_set a) ws) = machine ` set ws"
  "machine ` set (sql_update P (MarkDead_set b) ws) = machine ` set ws"
  "machine ` set (sql_update P (AssignWorker_set c) ws) = machine ` set ws"
  "machine ` set (sql_update P (FreeWorker_set b) ws) = machine ` set ws"
  "machine ` set (sql_update P (RequestDrain_set e) ws) = machine ` set ws"
  "machine ` set (sql_update P (ResumeDrain_set e) ws) = machine ` set ws"
  "machine ` set (sql_update P (Register_promote_set e) ws) = machine ` set ws"
  by (rule machines_update; cases a; cases b; cases c; cases e; simp add: machine_def set_updated_at_def)+

lemma machines_kept:
  assumes "db_inv d" and "registers op = {}"
  shows "machines (apply_op op d) = machines d"
proof (cases op)
  case (OpHeartbeat flt now wid epoch st cur)
  have "machines (snd (exec flt S_heartbeat_update (UpdateHeartbeat_stmt now wid epoch st jid jca) d)) = machines d" for jid jca
    by (rule exec_same) (auto simp: UpdateHeartbeat_stmt_def Let_def split: option.splits)
  then show ?thesis by (simp add: OpHeartbeat UpdateHeartbeat_def split: option.splits sum.splits)
next
  case (OpMarkDead flt now wid epoch)
  have "machines d' = machines d" if "MarkDeadAndRequeue_body flt now wid epoch d = Inr (u, d')" for u d'
    using MarkDeadAndRequeue_body_effect(1) [OF db_invD(3) [OF assms(1)] that]
    by (elim disjE conjE) (simp_all add: dead_effect_def)
  then show ?thesis unfolding OpMarkDead apply_op.simps MarkDeadAndRequeue_def by (rule BeginFunc_same)
next
  case (OpAssign flt now jid jca wid epoch)
  then show ?thesis
    unfolding OpAssign apply_op.simps AssignJob_snd
    by (intro BeginFunc_same) (auto simp: AssignJob_body_def AssignWorker_update_def AssignJob_update_def tx_bind_Inr
        in_tx_Inr split: if_splits)
next
  case (OpFree flt now wid epoch)
  then show ?thesis
    unfolding OpFree apply_op.simps FreeWorker_snd
    by (intro exec_same) (auto simp: FreeWorker_update_def split: option.splits)
next
  case (OpDrain flt now wid)
  then show ?thesis
    unfolding OpDrain apply_op.simps RequestDrain_snd
    by (intro BeginFunc_same) (auto simp: drain_update_def insert_worker_event_def tx_bind_Inr in_tx_Inr
        split: option.splits)
next
  case (OpResume flt now wid)
  then show ?thesis
    unfolding OpResume apply_op.simps ResumeDrain_snd
    by (intro BeginFunc_same) (auto simp: drain_update_def insert_worker_event_def tx_bind_Inr in_tx_Inr
        split: option.splits)
next
  case (OpCreate flt now uuid p)
  have "workers (snd (exec flt S_create_insert (Create_insert now uuid (Create_defaults p)) d)) = workers d"
    by (rule exec_same) (auto simp: Create_insert_def Let_def split: if_splits)
  then show ?thesis
    by (auto simp: OpCreate JobStore_Create_def Let_def split: prod.splits sum.splits pg_error.splits)
next
  case (OpRunning flt now jid epoch)
  then show ?thesis
    by (auto simp: MarkRunning_def Let_def intro!: exec_same [where f = machines])
next
  case (OpComplete flt now jid jca epoch st l)
  then show ?thesis
    by (auto simp: Complete_def Let_def split: option.splits intro!: exec_same [where f = machines])
next
  case (OpRetryOrFail flt now goNow jid jca epoch wid msg l)
  have "machines d' = machines d" if "RetryOrFail_body flt now goNow jid jca epoch wid msg l d = Inr (r, d')" for r d'
    using RetryOrFail_body_effect [OF db_invD(3) [OF assms(1)], of flt now goNow jid jca epoch wid msg l "fst r" "snd r" d'] that
    by (auto dest: insert_retry_history_Inr)
  then show ?thesis unfolding OpRetryOrFail apply_op.simps RetryOrFail_def by (rule BeginFunc_same)
next
  case (OpRequeueRetry flt jid jca)
  then show ?thesis
    by (auto simp: MarkQueuedFromRetry_def Let_def intro!: exec_same [where f = machines])
qed (use assms(2) in simp)

lemma machines_Register:
  "machines (snd (Register flt now uuid p d)) \<subseteq>
     machines d \<union> {(rp_CPUCores p, rp_MemoryMB p, rp_CapacitySlots (Register_defaults p))}"
  unfolding Register_def
proof (rule BeginFunc_invariant [of "\<lambda>x. machines x \<subseteq> machines d \<union> _"])
  fix a d'
  let ?q = "Register_defaults p"
  assume "Register_body flt now uuid ?q d = Inr (a, d')"
  then obtain r d1 where up: "Register_upsert now uuid ?q d = Inr (r, d1)" and "machines d' = machines d1"
    by (auto simp: Register_body_def Register_promote_def insert_worker_event_def tx_bind_Inr in_tx_Inr)
  moreover have "machines d1 \<subseteq> machines d \<union> {(rp_CPUCores ?q, rp_MemoryMB ?q, rp_CapacitySlots ?q)}"
    using up by (auto simp: Register_upsert_def Register_insert_row_def machine_def set_updated_at_def in_sql_update
        split: if_splits option.splits)
  moreover have "rp_CPUCores ?q = rp_CPUCores p" "rp_MemoryMB ?q = rp_MemoryMB p" by (simp_all add: Register_defaults_def)
  ultimately show "machines d' \<subseteq> machines d \<union> {(rp_CPUCores p, rp_MemoryMB p, rp_CapacitySlots ?q)}" by simp
qed blast

section \<open>Every column fits its type\<close>

definition fits :: "int \<Rightarrow> int \<Rightarrow> bool" where
  "fits bound v \<longleftrightarrow> - bound - 1 \<le> v \<and> v \<le> bound"

abbreviation max_int16 :: int where
  "max_int16 \<equiv> 2 ^ 15 - 1"

text \<open>The integer columns of \<open>workers\<close> and \<open>jobs\<close>, with the types of the migrations.\<close>

definition worker_typed :: "worker_row \<Rightarrow> bool" where
  "worker_typed w \<longleftrightarrow>
     fits max_int32 (w_cpu_cores w) \<and> fits max_int32 (w_memory_mb w) \<and> fits max_int32 (w_capacity_slots w) \<and>
     fits max_int32 (w_available_capacity w) \<and> fits max_int64 (w_epoch w)"

definition job_typed :: "job_row \<Rightarrow> bool" where
  "job_typed j \<longleftrightarrow>
     fits max_int16 (j_priority j) \<and> fits max_int32 (j_retries j) \<and> fits max_int32 (j_max_retries j) \<and>
     (active j \<longrightarrow> (\<exists>e. j_assignment_epoch j = Some e \<and> fits max_int64 e))"

text \<open>The fields of a \<open>RegisterWorkerRequest\<close> are \<open>int32\<close>.\<close>

fun event_typed :: "system_event \<Rightarrow> bool" where
  "event_typed (CallRegister E uuid req) \<longleftrightarrow>
     fits max_int32 (rp_CPUCores req) \<and> fits max_int32 (rp_MemoryMB req) \<and> fits max_int32 (rp_CapacitySlots req)"
| "event_typed _ \<longleftrightarrow> True"

definition small_machine :: "int \<times> int \<times> int \<Rightarrow> bool" where
  "small_machine m \<longleftrightarrow> fst m \<le> max_int32 \<and> fst (snd m) \<le> max_int32 \<and> snd (snd m) \<le> max_int32"

lemma run_machines:
  "run store_step d ops d' \<Longrightarrow> db_inv d \<Longrightarrow> \<Union> (registers ` set ops) = {} \<Longrightarrow> machines d' = machines d"
proof (induction rule: run.induct)
  case (run_cons s e s1 es s2)
  then have "db_inv s1" by (auto simp: store_step_iff apply_op_inv)
  moreover have "machines s1 = machines s"
    using run_cons.hyps(1) run_cons.prems machines_kept [of s e] by (auto simp: store_step_iff)
  moreover have "\<Union> (registers ` set es) = {}" using run_cons.prems(2) by simp
  ultimately show ?case using run_cons.IH by simp
qed simp

lemma calls_machines:
  assumes "store_calls K d d'" and "KRegister \<notin> K" and "db_inv d"
  shows "machines d' = machines d"
proof -
  obtain ops where ops: "run store_step d ops d'" "kind_of ` set ops \<subseteq> K" using assms(1) by (auto simp: store_calls_def)
  have "registers op = {}" if "op \<in> set ops" for op
  proof -
    have "kind_of op \<in> K" using that ops(2) by blast
    with assms(2) show ?thesis by (cases op) simp_all
  qed
  then show ?thesis using run_machines [OF ops(1) assms(3)] by simp
qed

lemma RegisterWorker_machines:
  "machines (wdb (snd (RegisterWorker C S E uuid req w))) \<subseteq>
     machines (wdb w) \<union> {(rp_CPUCores req, rp_MemoryMB req, rp_CapacitySlots (Register_defaults req))}"
proof -
  have "wdb (snd (RegisterWorker C S E uuid req w)) \<in>
      {wdb w, snd (Register (ce_pg E) (ce_now E S_register_upsert) uuid req (wdb w))}"
    by (auto simp: RegisterWorker_def Let_def split: prod.splits sum.splits)
  then show ?thesis
    using machines_Register [of "ce_pg E" "ce_now E S_register_upsert" uuid req "wdb w"] by (elim insertE) auto
qed

lemma step_machines:
  assumes step: "system_step D s e s'" and inv: "db_inv (sy_db s)" and "event_typed e"
    and "\<forall>m\<in>machines (sy_db s). small_machine m"
  shows "\<forall>m\<in>machines (sy_db s'). small_machine m"
proof (cases "KRegister \<in> kinds_of e")
  case False
  with calls_machines [OF step_calls [OF step] _ inv] assms(4) show ?thesis by simp
next
  case True
  then obtain E uuid req where e: "e = CallRegister E uuid req" by (cases e) auto
  have "small_machine (rp_CPUCores req, rp_MemoryMB req, rp_CapacitySlots (Register_defaults req))"
    using assms(3) by (auto simp: e small_machine_def fits_def Register_defaults_def max_int32_def)
  moreover have "sy_db s' = wdb (snd (RegisterWorker (dp_redis D) (dp_server D) E uuid req (sy_world s)))"
    using step by (simp add: system_step_iff e)
  ultimately show ?thesis
    using RegisterWorker_machines [of "dp_redis D" "dp_server D" E uuid req "sy_world s"] assms(4) by auto
qed

lemma run_small:
  "run (system_step D) s es s' \<Longrightarrow> db_inv (sy_db s) \<Longrightarrow> list_all event_typed es \<Longrightarrow> \<forall>m\<in>machines (sy_db s). small_machine m \<Longrightarrow>
     \<forall>m\<in>machines (sy_db s'). small_machine m"
proof (induction rule: run.induct)
  case (run_cons s e s1 es s2)
  have "list_all event_typed es" "event_typed e" using run_cons.prems(2) by simp_all
  then show ?case
    using run_cons.IH [OF step_inv [OF run_cons.hyps(1) run_cons.prems(1)]]
      step_machines [OF run_cons.hyps(1) run_cons.prems(1) _ run_cons.prems(3)] by blast
qed



end
