(* ===== verification/Lifecycle.thy ===== *)
theory Lifecycle
  imports WorkerAgent BackgroundLoops Autoscaler
begin

text \<open>
  The components together. \<open>job_lifecycle\<close> follows one job through the scheduling loop, the heartbeat, the worker agent and the
  report of its result.
\<close>

section \<open>From the queue to the result\<close>

text \<open>The heartbeat of an idle agent picks up the assignment the scheduler left in the cache.\<close>

lemma heartbeat_picks_up:
  assumes inv: "db_inv (wdb w)" and s: "cached C (wrd w) wid = Some s" "ws_Status s = ''BUSY''"
    "ws_CurrentJobID s = j_id j" "j_id j \<noteq> ''''" "ws_Epoch s = e" "wid \<noteq> ''''"
    and j: "j \<in> set (jobs (wdb w))" "j_status j = ASSIGNED"
    and req: "hb_WorkerId req = wid" "hb_Epoch req = e" "hb_Status req = WORKER_STATUS_READY" "hb_CurrentJobId req = ''''"
  obtains resp w' where "handleHeartbeat C S (calm t) req w = (Inr resp, w')"
    and "hr_Assignment resp = Some \<lparr>ja_JobId = j_id j, ja_AssignmentEpoch = e, ja_Repository = j_repository j,
           ja_Branch = j_branch j, ja_CommitSha = j_commit_sha j\<rparr>"
    and "wdb w' = (wdb w)\<lparr>workers := sql_update (UpdateHeartbeat_where (wid, e, READY, None, None, t))
           (UpdateHeartbeat_set (wid, e, READY, None, None, t)) (workers (wdb w))\<rparr>"
proof -
  have found: "found_state C (calm t) wid (wrd w) = Some s" using s(1) by (simp add: found_state_cached calm_pg)
  have get: "JobStore_Get no_faults (j_id j) (wdb w) = Inr (scanJob j)"
    using sql_first_key [OF db_invD(3) [OF inv] j(1)] by (simp add: JobStore_Get_def)
  obtain r w' where h: "handleHeartbeat C S (calm t) req w = (r, w')" by fastforce
  then obtain resp where r: "r = Inr resp"
    using s req found by (auto simp: handleHeartbeat_def Let_def known_epoch_def split: prod.splits)
  from h [unfolded r] show ?thesis
  proof (rule handleHeartbeat_Inr)
    assume a: "hr_Assignment resp = pending_assignment (calm t) (found_state C (calm t) (hb_WorkerId req) (wrd w))
        (hb_Epoch req) (hb_CurrentJobId req) (wdb w)"
      and d: "wdb w' = snd (flush_heartbeat (calm t) (hb_WorkerId req) (found_state C (calm t) (hb_WorkerId req) (wrd w))
        (hb_Epoch req) (workerStatusToDB (hb_Status req)) (hb_CurrentJobId req)
        (if workerStatusToDB (hb_Status req) = ''BUSY'' \<and> hb_CurrentJobId req \<noteq> ''''
         then snd (MarkRunning (ce_pg (calm t)) (ce_now (calm t) S_mark_running) (hb_CurrentJobId req) (hb_Epoch req) (wdb w))
         else wdb w))"
    have "hr_Assignment resp = Some \<lparr>ja_JobId = j_id j, ja_AssignmentEpoch = e, ja_Repository = j_repository j,
           ja_Branch = j_branch j, ja_CommitSha = j_commit_sha j\<rparr>"
      using a s req found get j(2) by (simp add: pending_assignment_def calm_pg scanJob_def)
    moreover have "to_worker_status ''READY'' = Some READY" using to_worker_status_str [of READY] by simp
    then have "wdb w' = (wdb w)\<lparr>workers := sql_update (UpdateHeartbeat_where (wid, e, READY, None, None, t))
           (UpdateHeartbeat_set (wid, e, READY, None, None, t)) (workers (wdb w))\<rparr>"
      using d s req found
      by (simp add: flush_heartbeat_def UpdateHeartbeat_def UpdateHeartbeat_stmt_def calm_pg Let_def)
    ultimately show ?thesis using h r that by blast
  qed
qed

text \<open>The report of a success closes the job and gives the slot back.\<close>

lemma report_closes:
  assumes inv: "db_inv (wdb w)" and j: "j \<in> set (jobs (wdb w))" "active j" "j_id j \<noteq> ''''"
    "j_assignment_epoch j = Some e" "j_worker_id j = Some (w_id x)"
    and x: "x \<in> set (workers (wdb w))" "w_epoch x = e"
    and req: "rj_JobId req = j_id j" "rj_AssignmentEpoch req = e" "rj_Status req = JOB_STATUS_SUCCESS"
  obtains w' where "ReportJobResult C (calm t) req w = (Inr \<lparr>rs_Acknowledged = True, rs_DiscardedStaleEpoch = False\<rparr>, w')"
    and "jobs (wdb w') = map (\<lambda>y. if y = j then j\<lparr>j_status := SUCCESS, j_finished_at := Some t,
                                                   j_log_ref := nonempty (rj_LogRef req)\<rparr> else y) (jobs (wdb w))"
    and "workers (wdb w') = map (\<lambda>y. if y = x then FreeWorker_set (w_id x, e, t) x else y) (workers (wdb w))"
proof -
  let ?a = "(j_id j, j_created_at j, e, SUCCESS, nonempty (rj_LogRef req), t)"
  let ?d = "(wdb w)\<lparr>jobs := sql_update (Complete_where ?a) (Complete_set ?a) (jobs (wdb w))\<rparr>"
  have hit: "Complete_where ?a j" using j by simp
  have one: "rows_affected (Complete_where ?a) (jobs (wdb w)) = 1"
    using complete_j.affected_1_iff [OF db_invD(3) [OF inv]] j(1) hit by blast
  have get: "JobStore_Get no_faults (j_id j) (wdb w) = Inr (scanJob j)"
    using sql_first_key [OF db_invD(3) [OF inv] j(1)] by (simp add: JobStore_Get_def)
  have succ: "to_job_status ''SUCCESS'' = Some SUCCESS" by (simp add: to_job_status_def all_job_statuses_def)
  then have comp: "Complete no_faults t (j_id j) (j_created_at j) e ''SUCCESS'' (rj_LogRef req) (wdb w) = (Inr True, ?d)"
    using one by (simp add: Complete_def Let_def)
  have inv': "db_inv ?d"
    using Complete_inv [OF inv, of "''SUCCESS''" no_faults t "j_id j" "j_created_at j" e "rj_LogRef req"] comp by simp
  note free = FreeWorker_exact [OF inv', of x t]
  have rep: "ReportJobResult C (calm t) req w = (Inr \<lparr>rs_Acknowledged = True, rs_DiscardedStaleEpoch = False\<rparr>,
      release_worker C (calm t) (Some (w_id x)) e (w\<lparr>wdb := ?d\<rparr>))"
    using get comp j req by (simp add: ReportJobResult_def record_result_def Let_def calm_pg scanJob_def)
  show ?thesis
  proof (rule that [OF rep])
    show "jobs (wdb (release_worker C (calm t) (Some (w_id x)) e (w\<lparr>wdb := ?d\<rparr>))) =
        map (\<lambda>y. if y = j then j\<lparr>j_status := SUCCESS, j_finished_at := Some t,
                                 j_log_ref := nonempty (rj_LogRef req)\<rparr> else y) (jobs (wdb w))"
      using complete_j.update_one [OF db_invD(3) [OF inv] j(1) hit] by (simp add: release_worker_jobs)
    show "workers (wdb (release_worker C (calm t) (Some (w_id x)) e (w\<lparr>wdb := ?d\<rparr>))) =
        map (\<lambda>y. if y = x then FreeWorker_set (w_id x, e, t) x else y) (workers (wdb w))"
      using free x by (simp add: release_worker_def calm_pg del: FreeWorker_set.simps)
  qed
qed

text \<open>The report of the agent's success, seen from the rows it closes.\<close>

lemma success_report_closes:
  assumes inv: "db_inv (wdb w)" and j: "j \<in> set (jobs (wdb w))" "active j" "j_id j \<noteq> ''''"
    "j_assignment_epoch j = Some e" "j_worker_id j = Some (w_id x)"
    and x: "x \<in> set (workers (wdb w))" "w_epoch x = e"
    and a: "ja_JobId a = j_id j" "ja_AssignmentEpoch a = e" and succ: "er_Success res"
  shows "\<exists>w' j'. ReportJobResult C (calm t) (result_report a res) w
             = (Inr \<lparr>rs_Acknowledged = True, rs_DiscardedStaleEpoch = False\<rparr>, w') \<and>
           j' \<in> set (jobs (wdb w')) \<and> j_id j' = j_id j \<and> j_status j' = SUCCESS \<and>
           j_log_ref j' = nonempty (er_LogRef res) \<and>
           FreeWorker_set (w_id x, e, t) x \<in> set (workers (wdb w'))"
proof -
  let ?j = "j\<lparr>j_status := SUCCESS, j_finished_at := Some t, j_log_ref := nonempty (er_LogRef res)\<rparr>"
  have req: "rj_JobId (result_report a res) = j_id j" "rj_AssignmentEpoch (result_report a res) = e"
    "rj_Status (result_report a res) = JOB_STATUS_SUCCESS" "rj_LogRef (result_report a res) = er_LogRef res"
    using a succ by (simp_all add: result_report_def)
  obtain w' where r: "ReportJobResult C (calm t) (result_report a res) w
        = (Inr \<lparr>rs_Acknowledged = True, rs_DiscardedStaleEpoch = False\<rparr>, w')"
    and js: "jobs (wdb w') = map (\<lambda>y. if y = j then ?j else y) (jobs (wdb w))"
    and ws: "workers (wdb w') = map (\<lambda>y. if y = x then FreeWorker_set (w_id x, e, t) x else y) (workers (wdb w))"
    using report_closes [OF inv j x req(1-3), of C t] unfolding req(4) by blast
  have "?j \<in> set (jobs (wdb w'))" using j(1) unfolding js by force
  moreover have "FreeWorker_set (w_id x, e, t) x \<in> set (workers (wdb w'))"
    using x(1) unfolding ws by (auto intro!: rev_image_eqI simp del: FreeWorker_set.simps)
  ultimately show ?thesis
    using r by (intro exI [of _ w'] exI [of _ ?j]) (simp del: FreeWorker_set.simps)
qed

text \<open>
  The first half of a job's life: the agent's heartbeat carries the assignment, and afterwards the database holds the assigned
  job and the worker's row as the heartbeat left it.
\<close>

lemma assigned_job_picked_up:
  assumes inv: "db_inv (wdb w)" and C: "redis_ok C" and nf: "ce_redis E R_set = NoFault"
    and pm: "processMessage C E k (i, vals) w = (AssignedTo wid, w1)"
    and small: "\<And>x. x \<in> set (workers (wdb w)) \<Longrightarrow> w_capacity_slots x \<le> max_int32"
    and agent: "idle d p" "\<not> ag_draining (ap_state p)" "hd_workerID d = wid" "wid \<noteq> ''''"
    and epoch: "\<And>x. x \<in> set (workers (wdb w)) \<Longrightarrow> w_id x = wid \<Longrightarrow> w_epoch x = hd_epoch d"
  shows "\<exists>resp w2 a x j x2. handleHeartbeat C S (calm t) (heartbeat_request d p) w1 = (Inr resp, w2) \<and>
           hr_Assignment resp = Some a \<and> ja_JobId a = msg_job_id vals \<and> ja_JobId a \<noteq> '''' \<and>
           ja_AssignmentEpoch a = hd_epoch d \<and> x \<in> set (workers (wdb w)) \<and> w_id x = wid \<and> db_inv (wdb w2) \<and>
           j \<in> set (jobs (wdb w2)) \<and> active j \<and> j_id j = ja_JobId a \<and>
           j_assignment_epoch j = Some (hd_epoch d) \<and> j_worker_id j = Some wid \<and>
           x2 \<in> set (workers (wdb w2)) \<and> w_id x2 = wid \<and> w_epoch x2 = hd_epoch d \<and>
           w_available_capacity x2 = w_available_capacity x - 1 \<and> w_capacity_slots x2 = w_capacity_slots x \<and>
           w_drain_requested x2 = w_drain_requested x"
proof -
  let ?e = "hd_epoch d" and ?t = "ce_now E S_assign_worker"
  obtain j x where j: "j \<in> set (jobs (wdb w))" "j_id j = msg_job_id vals" "j_status j = QUEUED"
    and x: "x \<in> set (workers (wdb w))" "w_id x = wid" "w_status x = READY" "0 < w_available_capacity x"
    and d1: "wdb w1 = assigned (j_id j, j_created_at j, wid, w_epoch x, ?t) (wdb w)"
    and c1: "cached C (wrd w1) wid = Some \<lparr>ws_Epoch = w_epoch x, ws_Status = ''BUSY'', ws_CurrentJobID = j_id j,
                   ws_AvailableCapacity = w_available_capacity x - 1, ws_LastPGFlushUnix = 0,
                   ws_DrainRequested = drain_flag (cached C (wrd w) wid)\<rparr>"
    using processMessage_effect [OF inv C nf pm small] by blast
  have e: "w_epoch x = ?e" by (rule epoch [OF x(1,2)])
  let ?j1 = "AssignJob_set (j_id j, j_created_at j, wid, ?e, ?t) j"
    and ?x1 = "AssignWorker_set (j_id j, j_created_at j, wid, ?e, ?t) x"
    and ?h = "(wid, ?e, READY, None, None, t)"
  have nonempty_id: "j_id j \<noteq> ''''"
    using pm j(2) by (auto simp: processMessage_def Let_def split: if_splits)
  have inv1: "db_inv (wdb w1)" using processMessage_inv [OF inv, of C E k "(i, vals)"] pm by simp
  have j1: "?j1 \<in> set (jobs (wdb w1))" using j by (auto simp: d1 e assigned_def in_sql_update)
  have x1: "?x1 \<in> set (workers (wdb w1))" using x e by (auto simp: d1 assigned_def in_sql_update)
  have req: "hb_WorkerId (heartbeat_request d p) = wid" "hb_Epoch (heartbeat_request d p) = ?e"
    "hb_Status (heartbeat_request d p) = WORKER_STATUS_READY" "hb_CurrentJobId (heartbeat_request d p) = ''''"
    using agent by (simp_all add: heartbeat_request_def snapshot_def idle_def)
  obtain resp w2 where h: "handleHeartbeat C S (calm t) (heartbeat_request d p) w1 = (Inr resp, w2)"
    and as: "hr_Assignment resp = Some \<lparr>ja_JobId = j_id ?j1, ja_AssignmentEpoch = ?e, ja_Repository = j_repository ?j1,
           ja_Branch = j_branch ?j1, ja_CommitSha = j_commit_sha ?j1\<rparr>"
    and d2: "wdb w2 = (wdb w1)\<lparr>workers := sql_update (UpdateHeartbeat_where ?h)
           (UpdateHeartbeat_set ?h) (workers (wdb w1))\<rparr>"
    by (rule heartbeat_picks_up [OF inv1 c1 _ _ _ _ agent(4) j1 _ req]) (use nonempty_id e in simp_all)
  have inv2: "db_inv (wdb w2)"
    using handleHeartbeat_inv [OF inv1, of "heartbeat_request d p" C S "calm t"] h req by simp
  have "UpdateHeartbeat_set ?h ?x1 \<in>
      set (sql_update (UpdateHeartbeat_where ?h) (UpdateHeartbeat_set ?h) (workers (wdb w1)))"
    by (rule sql_update_hit [OF x1]) (use x(2) e in \<open>simp add: set_updated_at_def\<close>)
  then have x2: "UpdateHeartbeat_set ?h ?x1 \<in> set (workers (wdb w2))" unfolding d2 by simp
  have j2: "?j1 \<in> set (jobs (wdb w2))" using j1 unfolding d2 by simp
  show ?thesis
    by (rule exI [of _ resp], rule exI [of _ w2], rule exI, rule exI [of _ x], rule exI [of _ ?j1],
        rule exI [of _ "UpdateHeartbeat_set ?h ?x1"], intro conjI, rule h, rule as)
       (use x(1,2) inv2 j2 x2 j(2) e nonempty_id in \<open>simp_all add: active_def set_updated_at_def\<close>)
qed



end
