(* ===== verification/Cli.thy ===== *)
theory Cli
  imports RestApi Config "HOL-Library.Char_ord"
begin

text \<open>
  \<open>cmd/fleetforgectl/main.go\<close>: the operator's command line. A command is what cobra has parsed, its flags filled in with
  their defaults. The HTTP client is a parameter: what it answers to a request, and what the request does to the world
  behind it. The tab writer of the standard library is written out for cells that hold no tab or line break.
\<close>

section \<open>Tokens\<close>

datatype cli_error =
    BuildRequest
  | RequestFailed
  | ReadResponse
  | UnexpectedStatus nat string
  | DecodeResponse
  | NoSecret
  | ScopesRequired
  | MintToken token_error
  | WrongArgs

definition scope_list :: "string \<Rightarrow> string list" where
  "scope_list scopesRaw = filter (\<lambda>s. s \<noteq> '''') (map TrimSpace (Split scopesRaw CHR '',''))"

definition mintToken :: "jwt_lib \<Rightarrow> env \<Rightarrow> int \<Rightarrow> string \<Rightarrow> string \<Rightarrow> string \<Rightarrow> int \<Rightarrow> cli_error + string" where
  "mintToken L env now secretFlag subject scopesRaw ttl =
     (let secret = (if secretFlag = '''' then env ''FLEETFORGE_JWT_SECRET'' else secretFlag) in
      if secret = '''' then Inl NoSecret
      else
        let scopes = scope_list scopesRaw in
        if length scopes = 0 then Inl ScopesRequired
        else case IssueToken L now secret subject (Some scopes) ttl of
          Inl e \<Rightarrow> Inl (MintToken e)
        | Inr token \<Rightarrow> Inr token)"

definition resolveToken :: "env \<Rightarrow> string \<Rightarrow> string" where
  "resolveToken env flagValue = (if flagValue \<noteq> '''' then flagValue else env ''FLEETFORGE_TOKEN'')"

section \<open>Requests\<close>

record http_request =
  hq_Method :: string
  hq_URL :: string
  hq_Header :: "(string \<times> string) list"

record cliWorkerRow =
  cw_ID :: string
  cw_Hostname :: string
  cw_Status :: string
  cw_Version :: string
  cw_AvailableCapacity :: int
  cw_Epoch :: int
  cw_RegisteredAt :: string

record workerListResponse =
  wl_Items :: "cliWorkerRow list"
  wl_TotalCount :: int

text \<open>
  \<open>hl_Do\<close> answers \<open>None\<close> when the request fails, and a status with the body otherwise, \<open>None\<close> for one that breaks off.
\<close>

record 'w http_lib =
  hl_valid :: "string \<Rightarrow> bool"
  hl_Do :: "http_request \<Rightarrow> 'w \<Rightarrow> (nat \<times> string option) option \<times> 'w"
  hl_Unmarshal :: "string \<Rightarrow> workerListResponse option"

definition send :: "'w http_lib \<Rightarrow> http_request \<Rightarrow> 'w \<Rightarrow> (cli_error + string) \<times> 'w" where
  "send H req w =
     (case hl_Do H req w of
        (None, w') \<Rightarrow> (Inl RequestFailed, w')
      | (Some (status, None), w') \<Rightarrow> (Inl ReadResponse, w')
      | (Some (status, Some body), w') \<Rightarrow>
          if status \<noteq> StatusOK then (Inl (UnexpectedStatus status body), w') else (Inr body, w'))"

definition postWorkerAction ::
    "'w http_lib \<Rightarrow> string \<Rightarrow> string \<Rightarrow> string \<Rightarrow> string \<Rightarrow> 'w \<Rightarrow> (cli_error + string) \<times> 'w" where
  "postWorkerAction H apiAddr token workerID action w =
     (let url = apiAddr @ ''/v1/workers/'' @ workerID @ ''/'' @ action in
      if \<not> hl_valid H url then (Inl BuildRequest, w)
      else
        let headers = (''Content-Type'', ''application/json'') #
                        (if token \<noteq> '''' then [(''Authorization'', ''Bearer '' @ token)] else [])
        in case send H \<lparr>hq_Method = ''POST'', hq_URL = url, hq_Header = headers\<rparr> w of
             (Inl e, w') \<Rightarrow> (Inl e, w')
           | (Inr body, w') \<Rightarrow> (Inr (body @ [CHR 0x0A]), w'))"

section \<open>The table of workers\<close>

definition table_header :: "string list" where
  "table_header = [''ID'', ''HOSTNAME'', ''STATUS'', ''CAPACITY'', ''EPOCH'', ''VERSION'', ''REGISTERED'']"

definition table_row :: "cliWorkerRow \<Rightarrow> string list" where
  "table_row w = [cw_ID w, cw_Hostname w, cw_Status w, Itoa (cw_AvailableCapacity w), Itoa (cw_Epoch w), cw_Version w,
                  cw_RegisteredAt w]"

text \<open>
  \<open>tabwriter\<close> with padding 2: a column is as wide as its widest cell and two blanks; the last cell of a line, which no tab
  ends, belongs to no column.
\<close>

definition column_width :: "string list list \<Rightarrow> nat \<Rightarrow> nat" where
  "column_width rows k = fold max (map (\<lambda>row. length (row ! k) + 2) rows) 0"

definition pad :: "nat \<Rightarrow> string \<Rightarrow> string" where
  "pad n s = s @ replicate (n - length s) CHR '' ''"

definition format_line :: "string list list \<Rightarrow> string list \<Rightarrow> string" where
  "format_line rows row =
     concat (map (\<lambda>k. pad (column_width rows k) (row ! k)) [0..<length row - 1]) @ last row @ [CHR 0x0A]"

definition tabwriter :: "string list list \<Rightarrow> string" where
  "tabwriter rows = concat (map (format_line rows) rows)"

definition listWorkers :: "'w http_lib \<Rightarrow> string \<Rightarrow> string \<Rightarrow> 'w \<Rightarrow> (cli_error + string) \<times> 'w" where
  "listWorkers H apiAddr statusFilter w =
     (let url = apiAddr @ ''/v1/workers'' @ (if statusFilter \<noteq> '''' then ''?status='' @ statusFilter else '''') in
      if \<not> hl_valid H url then (Inl BuildRequest, w)
      else case send H \<lparr>hq_Method = ''GET'', hq_URL = url, hq_Header = []\<rparr> w of
        (Inl e, w') \<Rightarrow> (Inl e, w')
      | (Inr body, w') \<Rightarrow>
          (case hl_Unmarshal H body of
             None \<Rightarrow> (Inl DecodeResponse, w')
           | Some out \<Rightarrow> (Inr (tabwriter (table_header # map table_row (wl_Items out))), w')))"

section \<open>Commands\<close>

datatype command =
    AuthMintToken string string string int
  | WorkersList string
  | WorkersDrain "string list"
  | WorkersResume "string list"

fun exactArgs1 :: "string list \<Rightarrow> (string \<Rightarrow> 'w \<Rightarrow> (cli_error + string) \<times> 'w) \<Rightarrow> 'w \<Rightarrow> (cli_error + string) \<times> 'w" where
  "exactArgs1 [a] f w = f a w"
| "exactArgs1 _ f w = (Inl WrongArgs, w)"

fun run_command ::
    "'w http_lib \<Rightarrow> jwt_lib \<Rightarrow> env \<Rightarrow> int \<Rightarrow> string \<Rightarrow> string \<Rightarrow> command \<Rightarrow> 'w \<Rightarrow> (cli_error + string) \<times> 'w" where
  "run_command H L env now apiAddr token (AuthMintToken secret subject scopesRaw ttl) w =
     (case mintToken L env now secret subject scopesRaw ttl of
        Inl e \<Rightarrow> (Inl e, w)
      | Inr t \<Rightarrow> (Inr (t @ [CHR 0x0A]), w))"
| "run_command H L env now apiAddr token (WorkersList statusFilter) w = listWorkers H apiAddr statusFilter w"
| "run_command H L env now apiAddr token (WorkersDrain args) w =
     exactArgs1 args (\<lambda>wid. postWorkerAction H apiAddr (resolveToken env token) wid ''drain'') w"
| "run_command H L env now apiAddr token (WorkersResume args) w =
     exactArgs1 args (\<lambda>wid. postWorkerAction H apiAddr (resolveToken env token) wid ''resume'') w"

section \<open>The server behind the client\<close>

text \<open>
  A scheduler that listens at \<open>apiAddr\<close>: the rest of the URL is matched to a route, the header carries the token, the body of
  the answer is encoded. Matching and encoding belong to chi and \<open>encoding/json\<close> and are parameters.
\<close>

definition serve ::
    "(string \<Rightarrow> string \<Rightarrow> route option) \<Rightarrow> (body \<Rightarrow> string) \<Rightarrow> string \<Rightarrow> router \<Rightarrow> 'r redis_client \<Rightarrow> call_env \<Rightarrow> string
       \<Rightarrow> http_request \<Rightarrow> 'r world \<Rightarrow> (nat \<times> string option) option \<times> 'r world" where
  "serve mtch enc apiAddr R C E uuid req w =
     (case CutPrefix (hq_URL req) apiAddr of
        None \<Rightarrow> (None, w)
      | Some path \<Rightarrow>
          (case mtch (hq_Method req) path of
             None \<Rightarrow> (Some (StatusNotFound, Some ''404 page not found''), w)
           | Some rt \<Rightarrow>
               let authorization = (case map_of (hq_Header req) ''Authorization'' of None \<Rightarrow> '''' | Some a \<Rightarrow> a);
                   (resp, w') = NewRouter R C E uuid authorization rt w
               in (Some (fst resp, Some (enc (snd resp))), w')))"

definition plain :: "string \<Rightarrow> bool" where
  "plain s \<longleftrightarrow> s \<noteq> '''' \<and> list_all (\<lambda>c. c = CHR ''-'' \<or> CHR ''0'' \<le> c \<and> c \<le> CHR ''9'' \<or> CHR ''a'' \<le> c \<and> c \<le> CHR ''z'') s"

definition match_ok :: "(string \<Rightarrow> string \<Rightarrow> route option) \<Rightarrow> bool" where
  "match_ok mtch \<longleftrightarrow>
     (\<forall>wid. plain wid \<longrightarrow>
        mtch ''POST'' (''/v1/workers/'' @ wid @ ''/drain'') = Some (PostDrain wid) \<and>
        mtch ''POST'' (''/v1/workers/'' @ wid @ ''/resume'') = Some (PostResume wid))"

section \<open>Properties\<close>

lemma scope_list_Join:
  assumes "scopes \<noteq> []" and "\<And>s. s \<in> set scopes \<Longrightarrow> CHR '','' \<notin> set s \<and> trimmed s \<and> s \<noteq> ''''"
  shows "scope_list (Join scopes CHR '','') = scopes"
proof -
  have "map TrimSpace scopes = scopes" using assms(2) by (intro map_idI) simp
  with assms show ?thesis by (simp add: scope_list_def Split_Join filter_id_conv)
qed

lemma mintToken_verifies:
  assumes L: "jwt_lib_ok L" and tok: "mintToken L env t0 secret subject raw ttl = Inr token"
    and secret: "(if secret = '''' then env ''FLEETFORGE_JWT_SECRET'' else secret) = key"
    and range: "\<bar>unix t0\<bar> \<le> max_int64" "\<bar>unix (t0 + ttl)\<bar> \<le> max_int64"
  shows "token \<noteq> ''''"
    and "unix (t0 + ttl) < unix t \<Longrightarrow> VerifyToken L t key token = Inl ErrExpiredToken"
    and "unix t \<le> unix (t0 + ttl) \<Longrightarrow>
           \<exists>c. VerifyToken L t key token = Inr c \<and> (\<forall>s. HasScope c s \<longleftrightarrow> s \<in> set (scope_list raw))"
proof -
  let ?c = "\<lparr>cl_Subject = subject, cl_Scopes = Some (scope_list raw), cl_IssuedAt = unix t0, cl_ExpiresAt = unix (t0 + ttl)\<rparr>"
  have t: "token = signToken L key ?c"
    using tok secret by (auto simp: mintToken_def IssueToken_def Let_def split: if_splits)
  then show "token \<noteq> ''''" by (simp add: signToken_def Let_def)
  have ver: "VerifyToken L t key token = (if unix (t0 + ttl) < unix t then Inl ErrExpiredToken else Inr ?c)"
    using range by (simp add: t VerifyToken_signed [OF L] claims_ok_def abs_le_iff)
  then show "unix (t0 + ttl) < unix t \<Longrightarrow> VerifyToken L t key token = Inl ErrExpiredToken" by simp
  show "\<exists>c. VerifyToken L t key token = Inr c \<and> (\<forall>s. HasScope c s \<longleftrightarrow> s \<in> set (scope_list raw))"
    if "unix t \<le> unix (t0 + ttl)"
    using that by (intro exI [of _ ?c]) (auto simp: ver HasScope_def list_ex_iff)
qed

lemma serve_action:
  assumes "match_ok mtch" and "plain wid" and "action = (if resume then ''resume'' else ''drain'')" and "token \<noteq> ''''"
  shows "serve mtch enc apiAddr R C E uuid
           \<lparr>hq_Method = ''POST'', hq_URL = apiAddr @ ''/v1/workers/'' @ wid @ ''/'' @ action,
            hq_Header = [(''Content-Type'', ''application/json''), (''Authorization'', ''Bearer '' @ token)]\<rparr> w
       = (let (resp, w') = requireScope R (ce_clock E 0) ScopeWorkersDrain (''Bearer '' @ token)
                             (if resume then ResumeWorker C E wid else DrainWorker C E wid) w
          in (Some (fst resp, Some (enc (snd resp))), w'))"
proof -
  have "CutPrefix (apiAddr @ ''/v1/workers/'' @ wid @ ''/'' @ action) apiAddr = Some (''/v1/workers/'' @ wid @ ''/'' @ action)"
    by (simp only: CutPrefix_Some)
  then show ?thesis
    using assms by (auto simp: serve_def match_ok_def)
qed


definition ex_match :: "string \<Rightarrow> string \<Rightarrow> route option" where
  "ex_match meth path =
     (case CutPrefix path ''/v1/workers/'' of
        None \<Rightarrow> None
      | Some rest \<Rightarrow>
          (case Split rest CHR ''/'' of
             [wid, a] \<Rightarrow> if a = ''drain'' then Some (PostDrain wid) else if a = ''resume'' then Some (PostResume wid) else None
           | _ \<Rightarrow> None))"

lemma ex_match_ok: "match_ok ex_match"
proof -
  have "CHR ''/'' \<notin> set wid" if "plain wid" for wid
  proof
    assume "CHR ''/'' \<in> set wid"
    with that have "CHR ''/'' = CHR ''-'' \<or> CHR ''0'' \<le> CHR ''/'' \<and> CHR ''/'' \<le> CHR ''9'' \<or> CHR ''a'' \<le> CHR ''/'' \<and> CHR ''/'' \<le> CHR ''z''"
      unfolding plain_def list_all_iff by blast
    then show False by (simp add: less_eq_char_def)
  qed
  then have "ex_match m (''/v1/workers/'' @ wid @ ''/drain'') = Some (PostDrain wid)"
    "ex_match m (''/v1/workers/'' @ wid @ ''/resume'') = Some (PostResume wid)" if "plain wid" for wid m
    using that Split_append [of "CHR ''/''" wid "''drain''"] Split_append [of "CHR ''/''" wid "''resume''"]
    by (simp_all add: ex_match_def CutPrefix_def)
  then show ?thesis by (simp add: match_ok_def)
qed

definition ex_client :: "mem_server world http_lib" where
  "ex_client = \<lparr>hl_valid = (\<lambda>_. True), hl_Do = serve ex_match (\<lambda>_. ''ok'') ''http://s'' ex_router mem_redis (calm second) '''',
                hl_Unmarshal = (\<lambda>_. None)\<rparr>"


text \<open>
  The table is aligned: in every line the cell of a column starts at the same place and is followed by at least two
  blanks.
\<close>

lemma fold_max_ge: "x \<in> set xs \<or> x \<le> m \<Longrightarrow> (x :: nat) \<le> fold max xs m"
  by (induction xs arbitrary: m) (auto simp: le_max_iff_disj)

lemma column_width_ge: "row \<in> set rows \<Longrightarrow> length (row ! k) + 2 \<le> column_width rows k"
  unfolding column_width_def by (rule fold_max_ge) auto

lemma length_cell: "row \<in> set rows \<Longrightarrow> length (pad (column_width rows k) (row ! k)) = column_width rows k"
  using column_width_ge [of row rows k] by (simp add: pad_def)

lemma length_padded:
  assumes "row \<in> set rows"
  shows "length (concat (map (\<lambda>k. pad (column_width rows k) (row ! k)) ks)) = (\<Sum>k\<leftarrow>ks. column_width rows k)"
  by (induction ks) (simp_all add: length_cell [OF assms])

theorem table_aligned:
  assumes row: "row \<in> set rows" and k: "k < length row - 1"
  defines "start \<equiv> (\<Sum>i\<leftarrow>[0..<k]. column_width rows i)"
  shows "take (column_width rows k) (drop start (format_line rows row)) = row ! k @ replicate (column_width rows k - length (row ! k)) CHR '' '' \<and>
         length (row ! k) + 2 \<le> column_width rows k"
proof -
  let ?cell = "\<lambda>k. pad (column_width rows k) (row ! k)"
  have "[0..<length row - 1] = [0..<k] @ k # [Suc k..<length row - 1]"
    using k upt_add_eq_append [of 0 k "length row - 1 - k"] upt_conv_Cons [OF k] by simp
  then have "format_line rows row = concat (map ?cell [0..<k]) @ ?cell k @ concat (map ?cell [Suc k..<length row - 1]) @ last row @ [CHR 0x0A]"
    by (simp add: format_line_def)
  moreover have "length (?cell k) = column_width rows k" by (rule length_cell [OF row])
  ultimately have "take (column_width rows k) (drop start (format_line rows row)) = ?cell k"
    using length_padded [OF row, of "[0..<k]"] by (simp add: start_def)
  with column_width_ge [OF row] show ?thesis by (simp add: pad_def)
qed

end
