(* ===== verification/Metrics.thy ===== *)
theory Metrics
  imports Autoscaler GrpcServer
begin

text \<open>
  \<open>internal/metrics/collector.go\<close>: the gauges that every replica refreshes from the database. A gauge vector keeps the last
  value set for each label; a label never set has no sample. Then the counters and the histogram of \<open>metrics.go\<close>, as the
  calls that the loop, the report handler and the autoscaler make on them, and that these calls match what happened.
\<close>

section \<open>The collector\<close>

record gauges =
  mg_JobsQueued :: "string \<Rightarrow> rat option"
  mg_WorkersByStatus :: "string \<Rightarrow> rat option"

definition set_gauge :: "string \<Rightarrow> int \<Rightarrow> (string \<Rightarrow> rat option) \<Rightarrow> string \<Rightarrow> rat option" where
  "set_gauge label v g = g(label \<mapsto> round64 (of_int v))"

definition refresh_queued :: "(int \<Rightarrow> int option) \<Rightarrow> (string \<Rightarrow> rat option) \<Rightarrow> string \<Rightarrow> rat option" where
  "refresh_queued m g =
     fold (\<lambda>p. set_gauge (Itoa p) (case m p of None \<Rightarrow> 0 | Some n \<Rightarrow> n)) [0..9] g"

definition refresh_workers :: "(string \<Rightarrow> int option) \<Rightarrow> (string \<Rightarrow> rat option) \<Rightarrow> string \<Rightarrow> rat option" where
  "refresh_workers m g =
     fold (\<lambda>st. set_gauge st (lookup0 m st))
       [''REGISTERING'', ''READY'', ''BUSY'', ''DRAINING'', ''OFFLINE'', ''DEAD''] g"

definition collect :: "call_env \<Rightarrow> db \<Rightarrow> gauges \<Rightarrow> gauges" where
  "collect E d g =
     (let g1 = (case CountQueuedByPriority (ce_pg E) d of
                  Inl _ \<Rightarrow> g
                | Inr queuedByPriority \<Rightarrow> g\<lparr>mg_JobsQueued := refresh_queued queuedByPriority (mg_JobsQueued g)\<rparr>)
      in case CountByStatus (ce_pg E) d of
           Inl _ \<Rightarrow> g1
         | Inr byStatus \<Rightarrow> g1\<lparr>mg_WorkersByStatus := refresh_workers byStatus (mg_WorkersByStatus g1)\<rparr>)"

text \<open>\<open>Run\<close> collects at once and then at every tick; an element of the list is what one collection meets.\<close>

fun collector_run :: "(call_env \<times> db) list \<Rightarrow> gauges \<Rightarrow> gauges" where
  "collector_run [] g = g"
| "collector_run ((E, d) # ticks) g = collector_run ticks (collect E d g)"

section \<open>The gauges show the database\<close>

lemma round64_int:
  assumes "0 \<le> i" "i \<le> max_int32"
  shows "round64 (of_int i) = of_int i"
proof (cases "i = 0")
  case False
  with assms have i: "1 \<le> i" by simp
  then have "(1 :: rat) \<le> of_int i" by simp
  then have "in_range (of_int i)" unfolding in_range_def by (rule order_trans [rotated]) simp
  moreover have "round_even (of_int i * 2 ^ k) = i * 2 ^ k" for k
    using round_even_int [of "i * 2 ^ k"] by simp
  ultimately show ?thesis by (simp add: round64_pos)
qed (simp add: round64_def)

definition queued_at :: "int \<Rightarrow> db \<Rightarrow> int" where
  "queued_at p d = int (rows_affected (\<lambda>j. j_status j = QUEUED \<and> j_priority j = p) (jobs d))"

lemma fold_set_gauge:
  assumes "distinct (map f xs)"
  shows "fold (\<lambda>x. set_gauge (f x) (v x)) xs g l =
     (case find (\<lambda>x. f x = l) xs of None \<Rightarrow> g l | Some x \<Rightarrow> Some (round64 (of_int (v x))))"
  using assms
proof (induction xs arbitrary: g)
  case (Cons x xs)
  have "find (\<lambda>y. f y = f x) xs = None" using Cons.prems by (auto simp: find_None_iff rev_image_eqI)
  with Cons show ?case by (auto simp: set_gauge_def split: option.splits)
qed simp

lemma queued_at_le:
  assumes "queued_jobs d \<le> max_int32"
  shows "0 \<le> queued_at p d \<and> queued_at p d \<le> max_int32"
  using assms rows_affected_mono [of "jobs d" "\<lambda>j. j_status j = QUEUED \<and> j_priority j = p" "\<lambda>j. j_status j = QUEUED"]
  by (simp add: queued_jobs_def queued_at_def)

lemma workers_in_le:
  assumes "int (length (workers d)) \<le> max_int32"
  shows "0 \<le> workers_in st d \<and> workers_in st d \<le> max_int32"
  using assms length_filter_le [of "\<lambda>w. w_status w = st" "workers d"] unfolding workers_in_def rows_affected_def by linarith

lemma refresh_queued_at:
  assumes "queued_jobs d \<le> max_int32" and "CountQueuedByPriority flt d = Inr m" and "p \<in> set [0..9]"
  shows "refresh_queued m g (Itoa p) = Some (of_int (queued_at p d))"
proof -
  have m: "(case m q of None \<Rightarrow> 0 | Some n \<Rightarrow> n) = queued_at q d" for q
    using assms(2) by (auto simp: CountQueuedByPriority_def query_def Let_def queued_at_def split: fault.splits if_splits)
  have "find (\<lambda>q. Itoa q = Itoa p) [0..9] = Some p" using assms(3) by (auto simp: find_Some_iff upto.simps)
  then show ?thesis
    unfolding refresh_queued_def
    by (subst fold_set_gauge) (simp_all add: distinct_map inj_on_def m round64_int queued_at_le [OF assms(1)])
qed

lemma refresh_workers_in:
  assumes "int (length (workers d)) \<le> max_int32" and "CountByStatus flt d = Inr m"
  shows "refresh_workers m g (worker_status_str st) = Some (of_int (workers_in st d))"
proof -
  have m: "lookup0 m (worker_status_str s) = workers_in s d" for s
    using assms(2) by (auto simp: CountByStatus_def query_def Let_def lookup0_def workers_in_def split: fault.splits if_splits)
  have "refresh_workers m g = fold (\<lambda>s. set_gauge (worker_status_str s) (workers_in s d)) all_worker_statuses g"
    using m by (simp add: refresh_workers_def all_worker_statuses_def flip: worker_status_str.simps)
  moreover have "find (\<lambda>s. s = st) all_worker_statuses = Some st" by (cases st) (simp_all add: all_worker_statuses_def)
  moreover have "distinct (map worker_status_str all_worker_statuses)" by (simp add: all_worker_statuses_def)
  ultimately show ?thesis by (simp add: fold_set_gauge round64_int workers_in_le [OF assms(1)])
qed

lemma sum_queued:
  assumes "db_inv d"
  shows "(\<Sum>p\<in>{0..9}. queued_at p d) = queued_jobs d"
proof -
  have "(\<Sum>p\<in>set ps. queued_at p d) = int (rows_affected (\<lambda>j. j_status j = QUEUED \<and> j_priority j \<in> set ps) (jobs d))"
    if "distinct ps" for ps
    using that
  proof (induction ps)
    case (Cons p ps)
    have "rows_affected (\<lambda>j. j_status j = QUEUED \<and> j_priority j \<in> set (p # ps)) (jobs d)
        = rows_affected (\<lambda>j. (j_status j = QUEUED \<and> j_priority j = p) \<or> (j_status j = QUEUED \<and> j_priority j \<in> set ps)) (jobs d)"
      by (rule arg_cong [where f = "\<lambda>Q. rows_affected Q (jobs d)"]) auto
    also have "\<dots> = rows_affected (\<lambda>j. j_status j = QUEUED \<and> j_priority j = p) (jobs d) +
        rows_affected (\<lambda>j. j_status j = QUEUED \<and> j_priority j \<in> set ps) (jobs d)"
      using Cons.prems by (intro rows_affected_disj) auto
    finally show ?case using Cons by (simp add: queued_at_def)
  qed (simp add: rows_affected_0)
  from this [of "[0..9]"] have "(\<Sum>p\<in>{0..9}. queued_at p d)
      = int (rows_affected (\<lambda>j. j_status j = QUEUED \<and> j_priority j \<in> {0..9}) (jobs d))" by simp
  also have "rows_affected (\<lambda>j. j_status j = QUEUED \<and> j_priority j \<in> {0..9}) (jobs d)
      = rows_affected (\<lambda>j. j_status j = QUEUED) (jobs d)"
    unfolding rows_affected_def using db_invD(5) [OF assms]
    by (intro arg_cong [where f = length] filter_cong) (auto simp: job_ok_def)
  finally show ?thesis by (simp add: queued_jobs_def)
qed

lemma counts_succeed:
  assumes "queued_jobs d \<le> max_int32" "int (length (workers d)) \<le> max_int32"
  shows "(\<exists>m. CountQueuedByPriority flt d = Inr m) \<longleftrightarrow> flt S_count_queued = NoFault"
    and "(\<exists>m. CountByStatus flt d = Inr m) \<longleftrightarrow> flt S_count_by_status = NoFault"
  using queued_at_le [OF assms(1), THEN conjunct2, folded not_less] workers_in_le [OF assms(2), THEN conjunct2, folded not_less]
  by (auto simp: CountQueuedByPriority_def CountByStatus_def query_def Let_def list_ex_iff queued_at_def workers_in_def
      split: fault.splits)

text \<open>
  C36. The gauges show the database. After a collection, whatever the gauges showed before, the queue gauge of every priority is
  the number of \<open>QUEUED\<close> jobs of that priority, zero included, and these ten add up to all queued jobs; the worker gauge of every
  status is the number of workers in it. When one of the two counts cannot be read, its gauges keep their last values
  and the other ones are refreshed all the same.
\<close>

theorem gauges_show_database:
  assumes inv: "db_inv d" and q: "queued_jobs d \<le> max_int32" and n: "int (length (workers d)) \<le> max_int32"
  shows "(if ce_pg E S_count_queued = NoFault
          then (\<forall>p\<in>{0..9}. mg_JobsQueued (collect E d g) (Itoa p) = Some (of_int (queued_at p d))) \<and>
               (\<Sum>p\<in>{0..9}. the (mg_JobsQueued (collect E d g) (Itoa p))) = of_int (queued_jobs d)
          else mg_JobsQueued (collect E d g) = mg_JobsQueued g) \<and>
         (if ce_pg E S_count_by_status = NoFault
          then \<forall>st. mg_WorkersByStatus (collect E d g) (worker_status_str st) = Some (of_int (workers_in st d))
          else mg_WorkersByStatus (collect E d g) = mg_WorkersByStatus g)"
proof -
  have jq: "mg_JobsQueued (collect E d g) =
      (case CountQueuedByPriority (ce_pg E) d of Inl _ \<Rightarrow> mg_JobsQueued g | Inr m \<Rightarrow> refresh_queued m (mg_JobsQueued g))"
    and ws: "mg_WorkersByStatus (collect E d g) =
      (case CountByStatus (ce_pg E) d of Inl _ \<Rightarrow> mg_WorkersByStatus g | Inr m \<Rightarrow> refresh_workers m (mg_WorkersByStatus g))"
    by (simp_all add: collect_def Let_def split: sum.splits)
  have at: "mg_JobsQueued (collect E d g) (Itoa p) = Some (of_int (queued_at p d))"
    if "ce_pg E S_count_queued = NoFault" "p \<in> {0..9}" for p
    using counts_succeed(1) [OF q n, of "ce_pg E"] refresh_queued_at [OF q] that by (auto simp: jq)
  then have "(\<Sum>p\<in>{0..9}. the (mg_JobsQueued (collect E d g) (Itoa p))) = of_int (\<Sum>p\<in>{0..9}. queued_at p d)"
    if "ce_pg E S_count_queued = NoFault"
    using that by simp
  moreover have "mg_JobsQueued (collect E d g) = mg_JobsQueued g" if "ce_pg E S_count_queued \<noteq> NoFault"
    using counts_succeed(1) [OF q n, of "ce_pg E"] that by (auto simp: jq split: sum.splits)
  moreover have "mg_WorkersByStatus (collect E d g) (worker_status_str st) = Some (of_int (workers_in st d))"
    if "ce_pg E S_count_by_status = NoFault" for st
    using counts_succeed(2) [OF q n, of "ce_pg E"] refresh_workers_in [OF n] that by (auto simp: ws)
  moreover have "mg_WorkersByStatus (collect E d g) = mg_WorkersByStatus g" if "ce_pg E S_count_by_status \<noteq> NoFault"
    using counts_succeed(2) [OF q n, of "ce_pg E"] that by (auto simp: ws split: sum.splits)
  ultimately show ?thesis using at sum_queued [OF inv] by simp
qed

theorem gauges_show_database_witness:
  "mg_JobsQueued (collect (calm 1) ex_db \<lparr>mg_JobsQueued = (\<lambda>_. Some 9), mg_WorkersByStatus = (\<lambda>_. None)\<rparr>) (Itoa 5) = Some 1 \<and>
   mg_JobsQueued (collect (calm 1) ex_db \<lparr>mg_JobsQueued = (\<lambda>_. Some 9), mg_WorkersByStatus = (\<lambda>_. None)\<rparr>) (Itoa 6) = Some 0"
proof -
  let ?g = "\<lparr>mg_JobsQueued = (\<lambda>_. Some 9), mg_WorkersByStatus = (\<lambda>_. None)\<rparr>"
  have small: "queued_jobs ex_db \<le> max_int32" "int (length (workers ex_db)) \<le> max_int32"
    and at: "queued_at 5 ex_db = 1" "queued_at 6 ex_db = 0"
    by (simp_all add: ex_defs queued_jobs_def queued_at_def max_int32_def)
  from gauges_show_database [OF ex_db_inv small, of "calm 1" ?g]
  have "\<forall>p\<in>{0..9}. mg_JobsQueued (collect (calm 1) ex_db ?g) (Itoa p) = Some (of_int (queued_at p ex_db))"
    unfolding calm_pg no_faults_def if_P [OF refl] by blast
  from this [THEN bspec, of 5] this [THEN bspec, of 6] at show ?thesis by simp
qed

section \<open>The counters\<close>

text \<open>
  The calls that the handlers make on the counters and on the histogram of \<open>metrics.go\<close>; what the Prometheus client does with
  them is its own. \<open>time.Since\<close> is in nanoseconds.
\<close>

datatype metric_call =
    JobsAssignedTotal_Inc
  | JobsCompletedTotal_Inc string
  | JobDurationSeconds_Observe int
  | AutoscalerDecisionsTotal_Inc string

definition processMessage_metrics ::
    "'r redis_client \<Rightarrow> call_env \<Rightarrow> string \<Rightarrow> entry \<Rightarrow> 'r world \<Rightarrow> metric_call list" where
  "processMessage_metrics C E streamKey msg w =
     (case fst (processMessage C E streamKey msg w) of AssignedTo _ \<Rightarrow> [JobsAssignedTotal_Inc] | _ \<Rightarrow> [])"

definition ReportJobResult_metrics :: "call_env \<Rightarrow> ReportJobResultRequest \<Rightarrow> 'r world \<Rightarrow> metric_call list" where
  "ReportJobResult_metrics E req w =
     (if rj_JobId req = '''' then []
      else case JobStore_Get (ce_pg E) (rj_JobId req) (wdb w) of
        Inl _ \<Rightarrow> []
      | Inr job \<Rightarrow>
          (case fst (record_result E job req (wdb w)) of
             Inr (True, finalStatus) \<Rightarrow>
               JobsCompletedTotal_Inc finalStatus #
               (case jb_StartedAt job of
                  None \<Rightarrow> []
                | Some startedAt \<Rightarrow>
                    if finalStatus \<noteq> ''RETRYING'' then [JobDurationSeconds_Observe (ce_clock E 2 - startedAt)] else [])
           | _ \<Rightarrow> []))"

definition autoscaler_tick_metrics :: "call_env \<Rightarrow> Autoscaler \<times> 'r world \<Rightarrow> metric_call list" where
  "autoscaler_tick_metrics E = (\<lambda>(a, w).
     case (CountQueuedByPriority (ce_pg E) (wdb w), CountByStatus (ce_pg E) (wdb w)) of
       (Inr queuedByPriority, Inr workersByStatus) \<Rightarrow>
         let totalQueued = totalQueued_of queuedByPriority;
             readyCount = lookup0 workersByStatus ''READY'';
             fleetSize = to_int32 (readyCount + lookup0 workersByStatus ''BUSY'');
             a = recordSample totalQueued a
         in [AutoscalerDecisionsTotal_Inc (ScaleAction_String
               (decide a (queuedPerWorker_of (as_cfg a) totalQueued fleetSize) readyCount (ce_clock E 0)))]
     | _ \<Rightarrow> [])"

lemma filter_one_more:
  assumes "distinct xs" and "j \<in> set xs" and "\<not> P j" and "P j'"
  shows "length (filter P (map (\<lambda>y. if y = j then j' else y) xs)) = Suc (length (filter P xs))"
  using assms
proof (induction xs)
  case (Cons x xs)
  show ?case
  proof (cases "x = j")
    case True
    with Cons.prems have "map (\<lambda>y. if y = j then j' else y) xs = xs" by (auto intro: map_idI)
    with True Cons.prems show ?thesis by simp
  qed (use Cons in auto)
qed simp

abbreviation assigned_jobs :: "db \<Rightarrow> nat" where
  "assigned_jobs d \<equiv> rows_affected (\<lambda>j. j_status j = ASSIGNED) (jobs d)"

lemma assigned_one_more:
  assumes inv: "db_inv d" and "assignable a d"
  shows "assigned_jobs (assigned a d) = Suc (assigned_jobs d)"
proof -
  obtain j where j: "j \<in> set (jobs d)" "AssignJob_where a j" using assms(2) by (auto simp: assignable_def list_ex_iff)
  have js: "jobs (assigned a d) = map (\<lambda>y. if y = j then AssignJob_set a j else y) (jobs d)"
    using assign_j_once.update_one [OF db_invD(3) [OF inv] j] by (simp add: assigned_def)
  have "j_status j \<noteq> ASSIGNED" "j_status (AssignJob_set a j) = ASSIGNED" using j(2) by (cases a; auto)+
  moreover have "distinct (jobs d)" using db_invD(3) [OF inv] by (simp add: distinct_map)
  ultimately show ?thesis unfolding rows_affected_def js using j(1) by (intro filter_one_more)
qed

lemma AssignJob_told:
  assumes "db_inv d" and "AssignJob flt now jid jca wid epoch d = (r, d')" and "flt S_commit \<noteq> AckLost"
  shows "assigned_jobs d' = assigned_jobs d + (if r = Inr True then 1 else 0)"
proof (cases "r = Inr True")
  case True
  with AssignJob_outcome(2) [OF assms(1,2)] assigned_one_more [OF assms(1)] show ?thesis by simp
next
  case False
  have "d' = d"
  proof (cases r)
    case (Inl e)
    with assms(2,3) show ?thesis
      by (auto simp: AssignJob_def BeginFunc_def split: if_splits sum.splits pg_error.splits fault.splits)
  qed (use False AssignJob_outcome(3) [OF assms(1,2)] in auto)
  with False show ?thesis by simp
qed

lemma processMessage_counts:
  assumes "db_inv (wdb w)" and "ce_pg E S_commit \<noteq> AckLost"
  shows "assigned_jobs (wdb (snd (processMessage C E k msg w)))
       = assigned_jobs (wdb w) + length (processMessage_metrics C E k msg w)"
  using AssignJob_told [where flt = "ce_pg E" and d = "wdb w"] assms
  unfolding processMessage_metrics_def processMessage_def Let_def
  by (auto split: prod.splits sum.splits option.splits pg_error.splits bool.splits)

text \<open>The status that a recorded result is counted under is the status the job now has.\<close>

lemma record_result_status:
  assumes inv: "db_inv d" and j: "j \<in> set (jobs d)"
    and r: "record_result E (scanJob j) req d = (Inr (True, s), d')"
  shows "\<exists>x\<in>set (jobs d'). j_id x = j_id j \<and> job_status_str (j_status x) = s"
proof -
  let ?st = "jobStatusToDB (rj_Status req)" and ?e = "rj_AssignmentEpoch req"
  have only: "x = j" if "x \<in> set (jobs d)" "j_id x = j_id j" for x
    using distinct_key_eq [OF db_invD(3) [OF inv] that(1) j] that(2) by simp
  show ?thesis
  proof (cases "?st = ''FAILED''")
    case True
    let ?f = "fail_set (ce_now E S_retry_lookup) (ce_clock E 0) (nonempty (rj_LogRef req))"
    from True r have f: "RetryOrFail (ce_pg E) (ce_now E S_retry_lookup) (ce_clock E 0) (j_id j) (j_created_at j)
        ?e (j_worker_id j) (rj_ErrorMessage req) (rj_LogRef req) d = (Inr (s, True), d')"
      by (auto simp: record_result_def Let_def scanJob_def split: prod.splits sum.splits)
    from RetryOrFail_body_effect [OF db_invD(3) [OF inv] RetryOrFail_success [OF f]]
    obtain j0 where j0: "j0 \<in> set (jobs d)" "reported (j_id j) (j_created_at j) ?e j0" "s = job_status_str (j_status (?f j0))"
      and js: "jobs d' = sql_update (reported (j_id j) (j_created_at j) ?e) ?f (jobs d)"
      by (auto dest!: insert_retry_history_Inr)
    have "j0 = j" using only [OF j0(1)] j0(2) by (simp add: reported_def)
    moreover have "?f j0 \<in> set (jobs d')" unfolding js by (rule sql_update_hit [OF j0(1)]) (rule j0(2))
    moreover have "j_id (?f j) = j_id j" by (simp add: fail_set_def Let_def)
    ultimately show ?thesis using j0(3) by blast
  next
    case False
    with r have c: "Complete (ce_pg E) (ce_now E S_complete) (j_id j) (j_created_at j) ?e ?st (rj_LogRef req) d = (Inr True, d')"
      and s: "s = ?st"
      by (auto simp: record_result_def Let_def scanJob_def split: prod.splits sum.splits)
    obtain j0 s0 where j0: "j0 \<in> set (jobs d)" "j_id j0 = j_id j" "to_job_status ?st = Some s0"
      "jobs d' = map (\<lambda>x. if x = j0 then j0\<lparr>j_status := s0, j_finished_at := Some (ce_now E S_complete),
                                            j_log_ref := nonempty (rj_LogRef req)\<rparr> else x) (jobs d)"
      by (rule Complete_success [OF inv c])
    have "job_status_str s0 = s" using j0(3) s by (auto simp: to_job_status_def find_Some_iff)
    with j0(1,2) show ?thesis unfolding j0(4) by force
  qed
qed

text \<open>What an accepted report counts, from the job before and after it.\<close>

definition completion_calls :: "int \<Rightarrow> job_row \<Rightarrow> job_row \<Rightarrow> metric_call list" where
  "completion_calls now j j' =
     JobsCompletedTotal_Inc (job_status_str (j_status j')) #
     (case j_started_at j of
        None \<Rightarrow> []
      | Some t \<Rightarrow> if j_status j' \<noteq> RETRYING then [JobDurationSeconds_Observe (now - t)] else [])"

lemma ReportJobResult_counts:
  assumes inv: "db_inv (wdb w)" and r: "ReportJobResult C E req w = (res, w')"
  shows "if (\<exists>resp. res = Inr resp \<and> \<not> rs_DiscardedStaleEpoch resp)
         then \<exists>j\<in>set (jobs (wdb w)). \<exists>j'\<in>set (jobs (wdb w')). j_id j = rj_JobId req \<and> j_id j' = rj_JobId req \<and> active j \<and>
                ReportJobResult_metrics E req w = completion_calls (ce_clock E 2) j j' \<and>
                (j_status j = ASSIGNED \<longrightarrow> length (ReportJobResult_metrics E req w) = 1)
         else ReportJobResult_metrics E req w = []"
proof (cases "\<exists>resp. res = Inr resp \<and> \<not> rs_DiscardedStaleEpoch resp")
  case True
  with r obtain job st d where get: "rj_JobId req \<noteq> ''''" "JobStore_Get (ce_pg E) (rj_JobId req) (wdb w) = Inr job"
    and rec: "record_result E job req (wdb w) = (Inr (True, st), d)"
    and w': "w' = release_worker C E (jb_WorkerID job) (rj_AssignmentEpoch req) (w\<lparr>wdb := d\<rparr>)"
    by (auto simp: ReportJobResult_def split: if_splits sum.splits prod.splits bool.splits)
  from get(2) obtain j where j: "j \<in> set (jobs (wdb w))" "j_id j = rj_JobId req" "job = scanJob j" by (rule JobStore_Get_Inr)
  have rec': "record_result E (scanJob j) req (wdb w) = (Inr (True, st), d)" using rec j(3) by simp
  obtain x where x: "x \<in> set (jobs d)" "j_id x = j_id j" "job_status_str (j_status x) = st"
    using record_result_status [OF inv j(1) rec'] by blast
  have "st \<noteq> ''RETRYING'' \<longleftrightarrow> j_status x \<noteq> RETRYING" unfolding x(3) [symmetric] by (cases "j_status x") simp_all
  then have m: "ReportJobResult_metrics E req w = completion_calls (ce_clock E 2) j x"
    using get rec j(3) x(3) by (simp add: ReportJobResult_metrics_def completion_calls_def scanJob_def split: option.splits)
  moreover have "length (ReportJobResult_metrics E req w) = 1" if "j_status j = ASSIGNED"
    using db_invD(5) [OF inv j(1)] that by (simp add: m completion_calls_def job_ok_def)
  moreover have "active j" using record_result_accept [OF inv j(1) rec'] by (simp add: reported_def)
  moreover have "x \<in> set (jobs (wdb w'))" using x(1) by (simp add: w' release_worker_jobs)
  ultimately show ?thesis unfolding if_P [OF True] using j(1,2) x(2) by metis
next
  case False
  have "fst (record_result E job req (wdb w)) \<noteq> Inr (True, st)"
    if "rj_JobId req \<noteq> ''''" "JobStore_Get (ce_pg E) (rj_JobId req) (wdb w) = Inr job" for job st
    using r False that by (cases "record_result E job req (wdb w)") (auto simp: ReportJobResult_def)
  then have "ReportJobResult_metrics E req w = []"
    by (simp add: ReportJobResult_metrics_def split: sum.splits prod.splits bool.splits) blast
  then show ?thesis unfolding if_not_P [OF False] .
qed

lemma autoscaler_tick_counts:
  "(fst (autoscaler_tick C E (a, w)) = Recommended n \<longrightarrow>
      autoscaler_tick_metrics E (a, w) = [AutoscalerDecisionsTotal_Inc ''scale_up'']) \<and>
   (fst (autoscaler_tick C E (a, w)) = Drained wid \<longrightarrow>
      autoscaler_tick_metrics E (a, w) = [AutoscalerDecisionsTotal_Inc ''scale_down''])"
proof -
  have "fst (doScaleDown C E t (b, w)) \<noteq> Recommended n" for t b
    by (auto simp: doScaleDown_def split: sum.splits prod.splits option.splits)
  then show ?thesis
    by (auto simp: autoscaler_tick_def autoscaler_tick_metrics_def doScaleUp_def Let_def
        split: sum.splits prod.splits ScaleAction.splits)
qed



end
